theory Spec2Isabelle
  imports Main "HOL-Library.Word"
begin

unbundle bit_operations_syntax

section \<open>The logical plan builder of plan/logical\_plan\_builder.go\<close>

text \<open>
  A shallow embedding of the plan builder. Go pointers to immutable-after-construction
  values are modelled by the values themselves; a nil interface or nil pointer is
  \<open>None\<close>; a run-time panic (index out of range, method call on a nil interface) is
  the result \<open>Panic\<close>; the builder's mutable fields are a record that every builder
  method takes and returns.
\<close>

subsection \<open>Names, types, columns and schemas\<close>

text \<open>
  model.CIStr: the original string \<open>O\<close> and its lower-case form \<open>L\<close>. The builder
  compares names through \<open>L\<close> only.
\<close>

record CIStr =
  strO :: string
  strL :: string

definition lower_char :: "char \<Rightarrow> char" where
  "lower_char c =
     (case map_of (zip ''ABCDEFGHIJKLMNOPQRSTUVWXYZ'' ''abcdefghijklmnopqrstuvwxyz'') c of
        Some d \<Rightarrow> d
      | None \<Rightarrow> c)"

text \<open>
  Modelled from the spec: model.NewCIStr is not under src/; names are case-insensitive, so
  the lower-case form folds the ASCII letters.
\<close>

definition NewCIStr :: "string \<Rightarrow> CIStr" where
  "NewCIStr s = \<lparr>strO = s, strL = map lower_char s\<rparr>"

text \<open>types.FieldType, restricted to the fields the builder reads or writes.\<close>

record FieldType =
  Tp :: nat
  Flen :: int
  Decimal :: int

text \<open>expression.Column.\<close>

record Column =
  FromID :: string
  DBName :: CIStr
  TblName :: CIStr
  ColName :: CIStr
  Position :: int
  IsAggOrSubq :: bool
  ID :: int
  Index :: int
  RetType :: FieldType

text \<open>
  expression.Schema: the ordered columns and the map from a base table's id to the
  columns that carry its row handle.
\<close>

record Schema =
  Columns :: "Column list"
  TblID2Handle :: "(int \<times> Column list) list"

definition NewSchema :: "Column list \<Rightarrow> Schema" where
  "NewSchema cols = \<lparr>Columns = cols, TblID2Handle = []\<rparr>"

text \<open>
  Modelled from the spec: Schema.Clone and Column.Clone are not under src/; a clone
  deep-copies the columns (new instances with the same field values), so on values it is
  the identity.
\<close>

definition Clone :: "Schema \<Rightarrow> Schema" where
  "Clone s = s"

definition CloneColumn :: "Column \<Rightarrow> Column" where
  "CloneColumn c = c"

definition Len :: "Schema \<Rightarrow> nat" where
  "Len s = length (Columns s)"

text \<open>
  Modelled from the spec: expression.MergeSchema is not under src/; merge concatenates the
  columns of its operands preserving order. A nil schema is \<open>None\<close>.
\<close>

fun MergeSchema :: "Schema option \<Rightarrow> Schema option \<Rightarrow> Schema option" where
  "MergeSchema None None = None"
| "MergeSchema None (Some r) = Some (Clone r)"
| "MergeSchema (Some l) None = Some (Clone l)"
| "MergeSchema (Some l) (Some r) =
     Some \<lparr>Columns = Columns l @ Columns r, TblID2Handle = TblID2Handle l @ TblID2Handle r\<rparr>"

subsection \<open>Errors\<close>

text \<open>
  The errors the builder raises, one constructor per error site of the source;
  \<open>ErrExternal\<close> stands for an error handed back by a collaborator that is not part
  of the builder (expression rewriter, catalog, string conversion, schema lookup).
\<close>

datatype error =
    ErrUnsupportedType
  | ErrAmbiguous string
  | ErrUnknownColumn string string
  | ErrInvalidWildCard
  | ErrWrongArguments
  | ErrBadGeneratedColumn
  | ErrHintsConflict
  | ErrUnionColumns
  | ErrOnSubquery
  | ErrUnknownColumnName string
  | ErrUnknownGroupPosition int
  | ErrInvalidLimitType
  | ErrExternal nat

subsection \<open>Expressions and plans\<close>

text \<open>
  expression.Expression: columns, constants, scalar functions, correlated columns; the nil
  interface value is \<open>NilExpression\<close>.
\<close>

datatype Expression =
    NilExpression
  | ColumnExpr Column
  | Constant int
  | ScalarFunction string "Expression list"
  | CorrelatedColumn Column

text \<open>expression.AggregationFunction: name, arguments, distinct flag.\<close>

record AggregationFunction =
  aggName :: string
  aggArgs :: "Expression list"
  aggDistinct :: bool

record ByItems =
  byExpr :: Expression
  byDesc :: bool

datatype JoinType = InnerJoin | LeftOuterJoin | RightOuterJoin | SemiJoin | LeftOuterSemiJoin

text \<open>The fields of LogicalJoin.\<close>

record JoinInfo =
  joinType :: JoinType
  EqualConditions :: "Expression list"
  LeftConditions :: "Expression list"
  RightConditions :: "Expression list"
  OtherConditions :: "Expression list"
  redundantSchema :: "Schema option"
  DefaultValues :: nat
  preferMergeJoin :: bool
  preferINLJ :: nat
  cartesianJoin :: bool

text \<open>The operator-specific fields of a plan node.\<close>

datatype Payload =
    DataSourceP (TableAsName: "CIStr option") (tableName: CIStr) (NeedColHandle: bool)
  | SelectionP (Conditions: "Expression list")
  | ProjectionP (Exprs: "Expression list")
  | AggregationP (AggFuncs: "AggregationFunction list") (GroupByItems: "Expression list")
      (groupByCols: "Column list")
  | JoinP JoinInfo
  | UnionP
  | SortP "ByItems list"
  | LimitP (Offset: "64 word") (Count: "64 word")
  | TableDualP (RowCount: nat)
  | SelectLockP nat

text \<open>
  A plan node: its id, its output schema, its children and its own fields. The parents
  back-pointer of the source is the inverse of \<open>children\<close> and is not stored.
\<close>

datatype Plan = Plan (plan_id: string) (schema: Schema) (children: "Plan list") (payload: Payload)

text \<open>The result of a Go call that may panic.\<close>

datatype 'a res = Panic | Val 'a

subsection \<open>The syntax tree\<close>

text \<open>ast.ColumnName: optional database, optional table, name.\<close>

record ColumnName =
  cnSchema :: CIStr
  cnTable :: CIStr
  cnName :: CIStr

datatype Datum = KindString string | KindNull | KindInt64 int | KindOther nat

text \<open>
  ast.ExprNode, with the node kinds the builder's visitors tell apart. A column reference
  carries the type set on it by SetType and a literal its source text. A sub-query is opaque
  (the visitors never descend into one); \<open>FuncCallExpr\<close> stands for every other
  compound expression.
\<close>

datatype ExprNode =
    ColumnNameExpr ColumnName "FieldType option"
  | AggregateFuncExpr string "ExprNode list" bool
  | ValueExpr Datum string
  | ParamMarkerExpr nat
  | PositionExpr int
  | ParenthesesExpr ExprNode
  | BinaryOperationExpr string ExprNode ExprNode
  | FuncCallExpr string "ExprNode list"
  | SubqueryExpr nat
  | ExistsSubqueryExpr nat
  | CompareSubqueryExpr ExprNode ExprNode

record WildCardField =
  wcSchema :: CIStr
  wcTable :: CIStr

text \<open>ast.SelectField; \<open>Expr\<close> is nil (\<open>None\<close>) for a wildcard field.\<close>

record SelectField =
  Auxiliary :: bool
  Expr :: "ExprNode option"
  AsName :: CIStr
  WildCard :: "WildCardField option"
  Text :: string

record ByItem =
  byItemExpr :: ExprNode
  byItemDesc :: bool

text \<open>
  The dynamic value of a LIMIT operand (\<open>interface{}\<close> in the source): a uint64, an
  int64 (the word read as two's complement), a string, or a value of any other type.
\<close>

datatype limit_val = ValUint64 "64 word" | ValInt64 "64 word" | ValString string | ValOther nat

text \<open>ast.Limit: both operands are optional.\<close>

record Limit =
  limOffset :: "limit_val option"
  limCount :: "limit_val option"

text \<open>The statements: ast.Join, ast.TableSource, ast.SelectStmt, ast.UnionStmt.\<close>

datatype JoinTp = CrossJoin | LeftJoin | RightJoin

datatype SelectLockType = SelectLockNone | SelectLockForUpdate | SelectLockInShareMode

record TableName =
  tnSchema :: CIStr
  tnName :: CIStr
  tnTableInfoID :: int

record TableOptimizerHint =
  HintName :: CIStr
  Tables :: "CIStr list"

text \<open>
  A nil slice or pointer of the source is \<open>None\<close>: the hints, the USING list, the ON
  condition, the right operand of a join, and the clauses of a SELECT.
\<close>

datatype ResultSetNode =
    JoinNode (Left: ResultSetNode) (Right: "ResultSetNode option") (joinTp: JoinTp)
      (NaturalJoin: bool) (Using: "ColumnName list option") (On: "ExprNode option")
  | TableSource (Source: TableSourceSrc) (tsAsName: CIStr)
  | SelectNode SelectStmt
  | UnionNode UnionStmt
  | OtherNode nat
and TableSourceSrc =
    SrcSelect SelectStmt
  | SrcUnion UnionStmt
  | SrcTableName TableName
  | SrcOther nat
and SelectStmt =
    SelectStmt (TableHints: "TableOptimizerHint list option") (LockTp: SelectLockType)
      (From: "ResultSetNode option") (Fields: "SelectField list")
      (GroupBy: "ByItem list option") (Having: "ExprNode option") (Where: "ExprNode option")
      (Distinct: bool) (OrderBy: "ByItem list option") (selLimit: "Limit option")
and UnionStmt =
    UnionStmt (Selects: "SelectStmt list") (unionDistinct: bool)
      (unionOrderBy: "ByItem list option") (unionLimit: "Limit option")

subsection \<open>The builder\<close>

datatype flag =
    flagBuildKeyInfo | flagAggregationOptimize | flagPredicatePushDown
  | flagEliminateProjection | flagPushDownTopN | flagDecorrelate

record tableHintInfo =
  indexNestedLoopJoinTables :: "CIStr list"
  sortMergeJoinTables :: "CIStr list"

record visitInfo =
  privilege :: string
  db :: string
  table :: string
  column :: string

text \<open>
  The part of the session context the builder reads: the current database, whether the
  DAG plan builder is enabled, and the transaction (\<open>None\<close> when there is none,
  \<open>Some ro\<close> with its read-only flag otherwise).
\<close>

record sessionctx =
  CurrentDB :: string
  UseDAGPlanBuilder :: bool
  Txn :: "bool option"

text \<open>
  planBuilder. \<open>allocator\<close> is idAllocator.id (a Go int that only grows from 0; its
  overflow is out of reach). \<open>optFlag\<close> is a bit mask in the source, with one bit
  per flag; the bit values are not under src/, so the mask is the set of flags that are on.
  \<open>colMapper\<close> is a map keyed by the pointers of column-reference nodes; the model
  keeps its entries in insertion order, as for the aggregate maps.
\<close>

record planBuilder =
  err :: "error option"
  allocator :: nat
  optFlag :: "flag set"
  tableHintInfos :: "tableHintInfo list"
  needColHandle :: int
  inUpdateStmt :: bool
  visitInfos :: "visitInfo list"
  colMapper :: "(ExprNode \<times> int) list"
  outerSchemas :: "Schema list"
  ctx :: sessionctx

definition digit_char :: "nat \<Rightarrow> char" where
  "digit_char n = ''0123456789'' ! (n mod 10)"

text \<open>fmt's \<open>%d\<close> of a non-negative integer, most significant digit first.\<close>

fun digits_of :: "nat \<Rightarrow> nat \<Rightarrow> string" where
  "digits_of 0 n = [digit_char (n mod 10)]"
| "digits_of (Suc k) n =
     (if n < 10 then [digit_char n] else digits_of k (n div 10) @ [digit_char (n mod 10)])"

definition string_of_nat :: "nat \<Rightarrow> string" where
  "string_of_nat n = digits_of n n"

text \<open>idAllocator.allocID: \<open>a.id++; return fmt.Sprintf("_%d", a.id)\<close>.\<close>

definition allocID :: "planBuilder \<Rightarrow> string \<times> planBuilder" where
  "allocID b = (CHR ''_'' # string_of_nat (allocator b + 1), b\<lparr>allocator := allocator b + 1\<rparr>)"

text \<open>
  Modelled from the spec: the \<open>init\<close> methods of the plan nodes are not under src/; an id
  has the form kind-tag followed by the allocated number, as \<open>ap.id = ap.tp +
  ap.allocator.allocID()\<close> in buildSemiApply shows. The tag is passed by the caller.
\<close>

definition init_id :: "string \<Rightarrow> planBuilder \<Rightarrow> string \<times> planBuilder" where
  "init_id tag b = (case allocID b of (s, b') \<Rightarrow> (tag @ s, b'))"

subsection \<open>LIMIT\<close>

text \<open>
  getUintForLimitOffset. types.StrToUint is not under src/ and is taken as the
  parameter \<open>strToUint\<close>.
\<close>

fun getUintForLimitOffset :: "(string \<Rightarrow> error + 64 word) \<Rightarrow> limit_val \<Rightarrow> error + 64 word" where
  "getUintForLimitOffset strToUint (ValUint64 v) = Inr v"
| "getUintForLimitOffset strToUint (ValInt64 v) =
     (if 0 \<le> sint v then Inr v else Inl ErrInvalidLimitType)"
| "getUintForLimitOffset strToUint (ValString s) = strToUint s"
| "getUintForLimitOffset strToUint (ValOther t) = Inl ErrInvalidLimitType"

text \<open>
  buildLimit. \<open>src\<close> is \<open>None\<close> for a nil plan, on which \<open>addChild\<close> and
  \<open>src.Schema()\<close> panic.
\<close>

definition buildLimit ::
  "(string \<Rightarrow> error + 64 word) \<Rightarrow> Plan option \<Rightarrow> Limit \<Rightarrow> planBuilder \<Rightarrow> Plan option res \<times> planBuilder" where
  "buildLimit strToUint src limit b0 =
    (let b = (if UseDAGPlanBuilder (ctx b0) then b0\<lparr>optFlag := insert flagPushDownTopN (optFlag b0)\<rparr> else b0) in
     case (case limOffset limit of None \<Rightarrow> Inr 0 | Some v \<Rightarrow> getUintForLimitOffset strToUint v) of
       Inl e \<Rightarrow> (Val None, b\<lparr>err := Some ErrWrongArguments\<rparr>)
     | Inr offset \<Rightarrow>
        (case (case limCount limit of None \<Rightarrow> Inr 0 | Some v \<Rightarrow> getUintForLimitOffset strToUint v) of
           Inl e \<Rightarrow> (Val None, b\<lparr>err := Some ErrWrongArguments\<rparr>)
         | Inr count \<Rightarrow>
            (case init_id ''Limit'' b of (i, b') \<Rightarrow>
               (case src of
                  None \<Rightarrow> (Panic, b')
                | Some p \<Rightarrow> (Val (Some (Plan i (Clone (schema p)) [p] (LimitP offset count))), b')))))"

text \<open>The operands the claim calls acceptable, and the value they are parsed to.\<close>

fun accepted :: "(string \<Rightarrow> error + 64 word) \<Rightarrow> limit_val \<Rightarrow> bool" where
  "accepted strToUint (ValUint64 v) = True"
| "accepted strToUint (ValInt64 v) = (0 \<le> sint v)"
| "accepted strToUint (ValString s) = (case strToUint s of Inl e \<Rightarrow> False | Inr u \<Rightarrow> True)"
| "accepted strToUint (ValOther t) = False"

fun parsed :: "(string \<Rightarrow> error + 64 word) \<Rightarrow> limit_val option \<Rightarrow> 64 word" where
  "parsed strToUint None = 0"
| "parsed strToUint (Some (ValUint64 v)) = v"
| "parsed strToUint (Some (ValInt64 v)) = v"
| "parsed strToUint (Some (ValString s)) = (case strToUint s of Inl e \<Rightarrow> 0 | Inr u \<Rightarrow> u)"
| "parsed strToUint (Some (ValOther t)) = 0"

definition operand_ok :: "(string \<Rightarrow> error + 64 word) \<Rightarrow> limit_val option \<Rightarrow> bool" where
  "operand_ok strToUint v = (case v of None \<Rightarrow> True | Some x \<Rightarrow> accepted strToUint x)"

subsection \<open>Collaborators\<close>

text \<open>
  The map from aggregate syntax nodes to ordinals that the builder hands to the rewriter.
  It is keyed by node pointers in the source; the model keeps the entries in insertion
  order and leaves the lookup to the rewriter.
\<close>

type_synonym aggMapper = "(ExprNode \<times> int) list"

text \<open>What the catalog knows of a table: table.Table with its model.TableInfo.\<close>

record TableColumn =
  tcName :: CIStr
  tcID :: int
  tcFieldType :: FieldType
  tcPriKey :: bool

record Table =
  tblID :: int
  tblName :: CIStr
  PKIsHandle :: bool
  Cols :: "TableColumn list"
  WritableCols :: "TableColumn list"

text \<open>
  The operations the builder consumes from code that is not under src/: the expression
  rewriter (which works on the builder and may change it), the schema lookup, the string
  conversion, the splitting of an expression into conjuncts, the types of expressions, the
  type merge of UNION, the catalog, the helpers of the plan package that
  logical\_plan\_builder.go calls but does not define, and the two string functions that
  trim comments and leading non-graphic characters from a field name. Every function of the builder takes
  them as the parameter \<open>C\<close>.
\<close>

record collaborators =
  rewrite :: "ExprNode \<Rightarrow> Plan \<Rightarrow> aggMapper \<Rightarrow> bool \<Rightarrow> planBuilder
               \<Rightarrow> (error + Expression \<times> Plan) \<times> planBuilder"
  FindColumn :: "Schema \<Rightarrow> ColumnName \<Rightarrow> error + Column option"
  StrToUint :: "string \<Rightarrow> error + 64 word"
  SplitCNFItems :: "Expression \<Rightarrow> Expression list"
  IsCorrelated :: "Expression \<Rightarrow> bool"
  AggGetType :: "AggregationFunction \<Rightarrow> FieldType"
  ExprGetType :: "Expression \<Rightarrow> FieldType"
  MergeFieldType :: "nat \<Rightarrow> nat \<Rightarrow> nat"
  TableByName :: "CIStr \<Rightarrow> CIStr \<Rightarrow> error + Table"
  detectSelectAgg :: "SelectStmt \<Rightarrow> bool"
  buildSelectLock :: "Plan \<Rightarrow> SelectLockType \<Rightarrow> planBuilder \<Rightarrow> Plan \<times> planBuilder"
  attachOnConds :: "JoinInfo \<Rightarrow> Plan \<Rightarrow> Plan \<Rightarrow> Expression list \<Rightarrow> JoinInfo"
  TrimComment :: "string \<Rightarrow> string"
  TrimNonGraphic :: "string \<Rightarrow> string"

subsection \<open>Resolving a column against the select fields\<close>

text \<open>colMatch.\<close>

definition colMatch :: "ColumnName \<Rightarrow> ColumnName \<Rightarrow> bool" where
  "colMatch a b =
     (if strL (cnSchema a) = [] \<or> strL (cnSchema a) = strL (cnSchema b) then
        (if strL (cnTable a) = [] \<or> strL (cnTable a) = strL (cnTable b) then
           strL (cnName a) = strL (cnName b)
         else False)
      else False)"

text \<open>matchField; \<open>col\<close> is the name of the column reference sought.\<close>

definition matchField :: "SelectField \<Rightarrow> ColumnName \<Rightarrow> bool \<Rightarrow> bool" where
  "matchField f col ignoreAsName =
     (if strL (cnTable col) = [] then
        (if strL (AsName f) = [] \<or> ignoreAsName then
           (case Expr f of
              Some (ColumnNameExpr curCol t) \<Rightarrow> strL (cnName curCol) = strL (cnName col)
            | _ \<Rightarrow> False)
         else strL (AsName f) = strL (cnName col))
      else False)"

text \<open>
  The loop of resolveFromSelectFields: \<open>i\<close> is the index of the field at the head of
  the list, \<open>matchedExpr\<close> the first matched column reference and \<open>index\<close>
  the result so far (\<open>-1\<close> for none).
\<close>

fun resolveFromSelectFields_loop ::
  "ColumnName \<Rightarrow> bool \<Rightarrow> SelectField list \<Rightarrow> int \<Rightarrow> ColumnName option \<Rightarrow> int \<Rightarrow> error + int" where
  "resolveFromSelectFields_loop v ignoreAsName [] i matchedExpr index = Inr index"
| "resolveFromSelectFields_loop v ignoreAsName (field # flds) i matchedExpr index =
     (if Auxiliary field then resolveFromSelectFields_loop v ignoreAsName flds (i + 1) matchedExpr index
      else if matchField field v ignoreAsName then
        (case Expr field of
           Some (ColumnNameExpr curCol t) \<Rightarrow>
             (case matchedExpr of
                None \<Rightarrow> resolveFromSelectFields_loop v ignoreAsName flds (i + 1) (Some curCol) i
              | Some m \<Rightarrow>
                  if \<not> colMatch m curCol \<and> \<not> colMatch curCol m
                  then Inl (ErrAmbiguous (strL (cnName curCol)))
                  else resolveFromSelectFields_loop v ignoreAsName flds (i + 1) matchedExpr index)
         | _ \<Rightarrow> Inr i)
      else resolveFromSelectFields_loop v ignoreAsName flds (i + 1) matchedExpr index)"

definition resolveFromSelectFields :: "ColumnName \<Rightarrow> SelectField list \<Rightarrow> bool \<Rightarrow> error + int" where
  "resolveFromSelectFields v flds ignoreAsName =
     resolveFromSelectFields_loop v ignoreAsName flds 0 None (- 1)"

subsection \<open>Wildcard expansion\<close>

text \<open>model.ExtraHandleID, the id of the synthesized row-id column.\<close>

definition ExtraHandleID :: int where
  "ExtraHandleID = - 1"

text \<open>The select fields one wildcard field expands to: the inner loop of unfoldWildStar.\<close>

definition wildFields :: "WildCardField \<Rightarrow> Column list \<Rightarrow> SelectField list" where
  "wildFields w cols =
     map (\<lambda>col. \<lparr>Auxiliary = False,
                 Expr = Some (ColumnNameExpr
                          \<lparr>cnSchema = DBName col, cnTable = TblName col, cnName = ColName col\<rparr>
                          (Some (RetType col))),
                 AsName = NewCIStr [], WildCard = None, Text = strO (ColName col)\<rparr>)
       (filter (\<lambda>col. (strL (wcSchema w) = [] \<or> strL (wcSchema w) = strL (DBName col))
                    \<and> (strL (wcTable w) = [] \<or> strL (wcTable w) = strL (TblName col))
                    \<and> ID col \<noteq> ExtraHandleID) cols)"

text \<open>
  The outer loop of unfoldWildStar: \<open>i\<close> is the index of the field at the head of the
  list and \<open>resultList\<close> the fields produced so far, which is what the source returns
  when it stops with the error.
\<close>

fun unfoldWildStar_loop ::
  "Schema \<Rightarrow> SelectField list \<Rightarrow> nat \<Rightarrow> SelectField list \<Rightarrow> planBuilder \<Rightarrow> SelectField list \<times> planBuilder" where
  "unfoldWildStar_loop sch [] i resultList b = (resultList, b)"
| "unfoldWildStar_loop sch (field # flds) i resultList b =
     (case WildCard field of
        None \<Rightarrow> unfoldWildStar_loop sch flds (i + 1) (resultList @ [field]) b
      | Some w \<Rightarrow>
          if strL (wcTable w) = [] \<and> i > 0 then (resultList, b\<lparr>err := Some ErrInvalidWildCard\<rparr>)
          else unfoldWildStar_loop sch flds (i + 1) (resultList @ wildFields w (Columns sch)) b)"

definition unfoldWildStar :: "Plan \<Rightarrow> SelectField list \<Rightarrow> planBuilder \<Rightarrow> SelectField list \<times> planBuilder" where
  "unfoldWildStar p selectFields b = unfoldWildStar_loop (schema p) selectFields 0 [] b"

text \<open>
  The notions the statements about resolveFromSelectFields use: a field is matched when it
  is not auxiliary and matchField accepts it; \<open>fieldCol\<close> is the name of a field that
  is a column reference; two names are compatible when one matches the other in either
  direction; \<open>cols_agree\<close> says that every matched field of a list is a column reference
  and that the matched references (and the reference \<open>m\<close> found before, if any) are
  pairwise compatible.
\<close>

definition matched :: "ColumnName \<Rightarrow> bool \<Rightarrow> SelectField \<Rightarrow> bool" where
  "matched v ignoreAsName f = (\<not> Auxiliary f \<and> matchField f v ignoreAsName)"

definition fieldCol :: "SelectField \<Rightarrow> ColumnName option" where
  "fieldCol f = (case Expr f of Some (ColumnNameExpr c t) \<Rightarrow> Some c | _ \<Rightarrow> None)"

definition compatible :: "ColumnName \<Rightarrow> ColumnName \<Rightarrow> bool" where
  "compatible c d = (colMatch c d \<or> colMatch d c)"

definition cols_agree :: "ColumnName \<Rightarrow> bool \<Rightarrow> ColumnName option \<Rightarrow> SelectField list \<Rightarrow> bool" where
  "cols_agree v g m fs =
     ((\<forall>k < length fs. matched v g (fs ! k) \<longrightarrow>
         (\<exists>d. fieldCol (fs ! k) = Some d \<and> (\<forall>c. m = Some c \<longrightarrow> compatible c d)))
      \<and> (\<forall>j k c d. j < k \<and> k < length fs \<and> matched v g (fs ! j) \<and> matched v g (fs ! k)
            \<and> fieldCol (fs ! j) = Some c \<and> fieldCol (fs ! k) = Some d \<longrightarrow> compatible c d))"

text \<open>What one select field contributes to the result of unfoldWildStar.\<close>

definition expandField :: "Schema \<Rightarrow> SelectField \<Rightarrow> SelectField list" where
  "expandField sch f = (case WildCard f of None \<Rightarrow> [f] | Some w \<Rightarrow> wildFields w (Columns sch))"

text \<open>A wildcard with no table qualifier at a position after the first.\<close>

definition bareStarAfterFirst :: "SelectField list \<Rightarrow> bool" where
  "bareStarAfterFirst flds =
     (\<exists>i. 0 < i \<and> i < length flds \<and> (\<exists>w. WildCard (flds ! i) = Some w \<and> strL (wcTable w) = []))"

subsection \<open>USING and NATURAL joins\<close>

text \<open>
  The three statements \<open>col := xs[k]; copy(xs[c+1:k+1], xs[c:k]); xs[c] = col\<close>
  on a Go slice: the element at \<open>k\<close> moves to slot \<open>c\<close> and the elements of
  \<open>[c, k)\<close> shift right by one. The index expression panics when \<open>k\<close> is
  out of range and the slice expression when \<open>c > k\<close>: that is \<open>None\<close>.
\<close>

definition rotateTo :: "'a list \<Rightarrow> nat \<Rightarrow> nat \<Rightarrow> 'a list option" where
  "rotateTo xs c k =
     (if k < length xs \<and> c \<le> k
      then Some (take c xs @ [xs ! k] @ take (k - c) (drop c xs) @ drop (k + 1) xs)
      else None)"

text \<open>
  The inner loop \<open>for j := commonLen; j < len(rColumns); j++\<close> only acts at the first
  \<open>j\<close> whose column has the name of \<open>lCol\<close>: every path through its body after the
  name test ends in \<open>break\<close>. \<open>indexFrom\<close> finds that \<open>j\<close>.
\<close>

fun indexFrom :: "('a \<Rightarrow> bool) \<Rightarrow> 'a list \<Rightarrow> nat \<Rightarrow> nat option" where
  "indexFrom P [] j = None"
| "indexFrom P (x # xs) j = (if P x then Some j else indexFrom P xs (j + 1))"

text \<open>
  The USING filter, a Go \<open>map[string]bool\<close>, as an association list with distinct
  keys: \<open>len\<close> is its length, a missing key reads as false.
\<close>

type_synonym usingFilter = "(string \<times> bool) list"

definition filterGet :: "usingFilter \<Rightarrow> string \<Rightarrow> bool" where
  "filterGet m k = (case map_of m k of Some v \<Rightarrow> v | None \<Rightarrow> False)"

fun filterSet :: "usingFilter \<Rightarrow> string \<Rightarrow> bool \<Rightarrow> usingFilter" where
  "filterSet [] k v = [(k, v)]"
| "filterSet ((k', v') # m) k v = (if k' = k then (k, v) # m else (k', v') # filterSet m k v)"

text \<open>The variables of the loop of coalesceCommonColumns.\<close>

record coalesceState =
  lColumns :: "Column list"
  rColumns :: "Column list"
  commonLen :: nat
  usingNames :: usingFilter

text \<open>
  One iteration of the outer loop \<open>for i, lCol := range lColumns\<close>. The source rotates
  \<open>rColumns\<close> at \<open>i\<close> and \<open>lColumns\<close> at \<open>j\<close>, as written here.
\<close>

definition coalesceStep :: "nat \<Rightarrow> coalesceState \<Rightarrow> coalesceState res" where
  "coalesceStep i s =
     (let lCol = lColumns s ! i in
      case indexFrom (\<lambda>rCol. strL (ColName lCol) = strL (ColName rCol))
             (drop (commonLen s) (rColumns s)) (commonLen s) of
        None \<Rightarrow> Val s
      | Some j \<Rightarrow>
          if length (usingNames s) > 0 \<and> \<not> filterGet (usingNames s) (strL (ColName lCol)) then Val s
          else
            let filter' = (if length (usingNames s) > 0
                           then filterSet (usingNames s) (strL (ColName lCol)) False
                           else usingNames s) in
            (case rotateTo (rColumns s) (commonLen s) i of
               None \<Rightarrow> Panic
             | Some rColumns' \<Rightarrow>
                 (case rotateTo (lColumns s) (commonLen s) j of
                    None \<Rightarrow> Panic
                  | Some lColumns' \<Rightarrow>
                      Val \<lparr>lColumns = lColumns', rColumns = rColumns',
                           commonLen = commonLen s + 1, usingNames = filter'\<rparr>)))"

fun coalesceLoop :: "nat list \<Rightarrow> coalesceState \<Rightarrow> coalesceState res" where
  "coalesceLoop [] s = Val s"
| "coalesceLoop (i # is) s =
     (case coalesceStep i s of Panic \<Rightarrow> Panic | Val s' \<Rightarrow> coalesceLoop is s')"

text \<open>
  coalesceCommonColumns, on the schema and the fields of the join \<open>p\<close>. The loop over
  the filter map that picks the unknown column runs in an unspecified order in Go; the
  model takes the first unseen name of the list. expression.NewFunction is not under src/;
  the condition it builds is the equality of its two arguments.
\<close>

definition coalesceCommonColumns ::
  "JoinInfo \<Rightarrow> Plan \<Rightarrow> Plan \<Rightarrow> bool \<Rightarrow> usingFilter \<Rightarrow> (error + Schema \<times> JoinInfo) res" where
  "coalesceCommonColumns p leftPlan rightPlan rightJoin filter0 =
     (let lsc = Clone (schema leftPlan); rsc = Clone (schema rightPlan);
          s0 = (if rightJoin
                then \<lparr>lColumns = Columns rsc, rColumns = Columns lsc, commonLen = 0, usingNames = filter0\<rparr>
                else \<lparr>lColumns = Columns lsc, rColumns = Columns rsc, commonLen = 0, usingNames = filter0\<rparr>)
      in case coalesceLoop [0 ..< length (lColumns s0)] s0 of
           Panic \<Rightarrow> Panic
         | Val s \<Rightarrow>
            (case (if length (usingNames s) > 0 \<and> length (usingNames s) \<noteq> commonLen s
                   then find snd (usingNames s) else None) of
               Some (col, notExist) \<Rightarrow> Val (Inl (ErrUnknownColumn col ''from clause''))
             | None \<Rightarrow>
                (let schemaCols = lColumns s @ drop (commonLen s) (rColumns s);
                     lscCols = (if rightJoin then rColumns s else lColumns s);
                     rscCols = (if rightJoin then lColumns s else rColumns s);
                     conds = map (\<lambda>i. ScalarFunction ''eq'' [ColumnExpr (lscCols ! i), ColumnExpr (rscCols ! i)])
                               [0 ..< commonLen s]
                 in Val (Inr (NewSchema schemaCols,
                       p\<lparr>redundantSchema :=
                            MergeSchema (redundantSchema p) (Some (NewSchema (take (commonLen s) (rColumns s)))),
                          EqualConditions := conds @ EqualConditions p\<rparr>)))))"

text \<open>
  The rotation the comments of buildUsingClause and buildNaturalJoin describe (common
  columns first, in the order of the first table; then the other columns of each table in
  their order): the matched left column, at \<open>i\<close>, and the matched right column, at
  \<open>j\<close>, move to the common-prefix slot of their own lists.
\<close>

definition coalesceStepDocumented :: "nat \<Rightarrow> coalesceState \<Rightarrow> coalesceState res" where
  "coalesceStepDocumented i s =
     (let lCol = lColumns s ! i in
      case indexFrom (\<lambda>rCol. strL (ColName lCol) = strL (ColName rCol))
             (drop (commonLen s) (rColumns s)) (commonLen s) of
        None \<Rightarrow> Val s
      | Some j \<Rightarrow>
          if length (usingNames s) > 0 \<and> \<not> filterGet (usingNames s) (strL (ColName lCol)) then Val s
          else
            let filter' = (if length (usingNames s) > 0
                           then filterSet (usingNames s) (strL (ColName lCol)) False
                           else usingNames s) in
            (case rotateTo (lColumns s) (commonLen s) i of
               None \<Rightarrow> Panic
             | Some lColumns' \<Rightarrow>
                 (case rotateTo (rColumns s) (commonLen s) j of
                    None \<Rightarrow> Panic
                  | Some rColumns' \<Rightarrow>
                      Val \<lparr>lColumns = lColumns', rColumns = rColumns',
                           commonLen = commonLen s + 1, usingNames = filter'\<rparr>)))"

subsection \<open>Operator constructors\<close>

text \<open>
  \<open>addChild(parent, child)\<close> is not under src/; it appends the child to the parent's
  children (and the parent to the child's parents, which the model does not store).
  A constructor below builds its node in one piece once schema and children are known.
\<close>

definition setFlags :: "flag set \<Rightarrow> planBuilder \<Rightarrow> planBuilder" where
  "setFlags fs b = b\<lparr>optFlag := optFlag b \<union> fs\<rparr>"

text \<open>expression.Column2Exprs.\<close>

definition Column2Exprs :: "Column list \<Rightarrow> Expression list" where
  "Column2Exprs cols = map ColumnExpr cols"

text \<open>ast.AggFuncFirstRow.\<close>

definition AggFuncFirstRow :: string where
  "AggFuncFirstRow = ''firstrow''"

text \<open>The zero value of model.CIStr.\<close>

definition emptyCIStr :: CIStr where
  "emptyCIStr = \<lparr>strO = [], strL = []\<rparr>"

text \<open>*ast.AggregateFuncExpr, as the element type of the list buildAggregation takes.\<close>

record AggregateFunc =
  afF :: string
  afArgs :: "ExprNode list"
  afDistinct :: bool

text \<open>LogicalAggregation.collectGroupByColumns.\<close>

fun collectGroupByColumns :: "Expression list \<Rightarrow> Column list" where
  "collectGroupByColumns [] = []"
| "collectGroupByColumns (ColumnExpr col # items) = col # collectGroupByColumns items"
| "collectGroupByColumns (item # items) = collectGroupByColumns items"

text \<open>The loop over \<open>aggFunc.Args\<close> in buildAggregation.\<close>

fun rewriteArgs ::
  "collaborators \<Rightarrow> ExprNode list \<Rightarrow> Plan \<Rightarrow> Expression list \<Rightarrow> planBuilder
     \<Rightarrow> (error + Plan \<times> Expression list) \<times> planBuilder" where
  "rewriteArgs C [] p newArgList b = (Inr (p, newArgList), b)"
| "rewriteArgs C (arg # args) p newArgList b =
     (case rewrite C arg p [] True b of
        (Inl e, b') \<Rightarrow> (Inl e, b')
      | (Inr (newArg, np), b') \<Rightarrow> rewriteArgs C args np (newArgList @ [newArg]) b')"

text \<open>The column buildAggregation appends for a new aggregate function.\<close>

definition aggColumn :: "collaborators \<Rightarrow> string \<Rightarrow> nat \<Rightarrow> AggregationFunction \<Rightarrow> Column" where
  "aggColumn C aggID position newFunc =
     \<lparr>FromID = aggID, DBName = emptyCIStr, TblName = emptyCIStr,
      ColName = NewCIStr (aggID @ ''_col_'' @ string_of_nat position),
      Position = int position, IsAggOrSubq = True, ID = 0, Index = 0,
      RetType = AggGetType C newFunc\<rparr>"

text \<open>
  The loop over \<open>aggFuncList\<close> in buildAggregation. AggregationFunction.Equal is not
  under src/: it is structural equality (function name, distinct flag, argument trees).
  \<open>aggIndexMap\<close> is a \<open>map[int]int\<close> that receives one entry per index.
\<close>

fun aggLoop ::
  "collaborators \<Rightarrow> string \<Rightarrow> AggregateFunc list \<Rightarrow> nat \<Rightarrow> Plan \<Rightarrow> AggregationFunction list
     \<Rightarrow> Column list \<Rightarrow> (nat \<times> nat) list \<Rightarrow> planBuilder
     \<Rightarrow> (error + Plan \<times> AggregationFunction list \<times> Column list \<times> (nat \<times> nat) list) \<times> planBuilder" where
  "aggLoop C aggID [] i p funcs cols aggIndexMap b = (Inr (p, funcs, cols, aggIndexMap), b)"
| "aggLoop C aggID (aggFunc # rest) i p funcs cols aggIndexMap b =
     (case rewriteArgs C (afArgs aggFunc) p [] b of
        (Inl e, b') \<Rightarrow> (Inl e, b')
      | (Inr (np, newArgList), b') \<Rightarrow>
          (let newFunc = \<lparr>aggName = afF aggFunc, aggArgs = newArgList, aggDistinct = afDistinct aggFunc\<rparr>
           in case indexFrom (\<lambda>oldFunc. oldFunc = newFunc) funcs 0 of
                Some j \<Rightarrow> aggLoop C aggID rest (i + 1) np funcs cols (aggIndexMap @ [(i, j)]) b'
              | None \<Rightarrow>
                  aggLoop C aggID rest (i + 1) np (funcs @ [newFunc])
                    (cols @ [aggColumn C aggID (length funcs) newFunc])
                    (aggIndexMap @ [(i, length funcs)]) b'))"

text \<open>buildAggregation; the result is the plan (nil on error) and \<open>aggIndexMap\<close>.\<close>

definition buildAggregation ::
  "collaborators \<Rightarrow> Plan \<Rightarrow> AggregateFunc list \<Rightarrow> Expression list \<Rightarrow> planBuilder
     \<Rightarrow> (Plan option \<times> (nat \<times> nat) list) \<times> planBuilder" where
  "buildAggregation C p aggFuncList gbyItems b =
     (case init_id ''Aggr'' (setFlags {flagBuildKeyInfo, flagAggregationOptimize} b) of
        (aggID, b1) \<Rightarrow>
          (case aggLoop C aggID aggFuncList 0 p [] [] [] b1 of
             (Inl e, b2) \<Rightarrow> ((None, []), b2\<lparr>err := Some e\<rparr>)
           | (Inr (p', funcs, cols, aggIndexMap), b2) \<Rightarrow>
               (let firstRows = map (\<lambda>col. \<lparr>aggName = AggFuncFirstRow,
                                             aggArgs = [ColumnExpr (CloneColumn col)],
                                             aggDistinct = False\<rparr>) (Columns (schema p'));
                    schemaCols = cols @ map CloneColumn (Columns (schema p'))
                in ((Some (Plan aggID (NewSchema schemaCols) [p']
                            (AggregationP (funcs @ firstRows) gbyItems (collectGroupByColumns gbyItems))),
                     aggIndexMap), b2))))"

text \<open>
  Modelled from the spec: splitWhere is not under src/; it splits the WHERE expression at
  top-level AND into conjuncts, flattening the tree.
\<close>

fun splitWhere :: "ExprNode \<Rightarrow> ExprNode list" where
  "splitWhere (BinaryOperationExpr op l r) =
     (if op = ''and'' then splitWhere l @ splitWhere r else [BinaryOperationExpr op l r])"
| "splitWhere e = [e]"

text \<open>The loop over the conjuncts in buildSelection.\<close>

fun rewriteConds ::
  "collaborators \<Rightarrow> aggMapper \<Rightarrow> ExprNode list \<Rightarrow> Plan \<Rightarrow> Expression list \<Rightarrow> planBuilder
     \<Rightarrow> (error + Plan \<times> Expression list) \<times> planBuilder" where
  "rewriteConds C AggMapper [] p expressions b = (Inr (p, expressions), b)"
| "rewriteConds C AggMapper (cond # conds) p expressions b =
     (case rewrite C cond p AggMapper False b of
        (Inl e, b') \<Rightarrow> (Inl e, b')
      | (Inr (expr, np), b') \<Rightarrow>
          if expr = NilExpression then rewriteConds C AggMapper conds np expressions b'
          else rewriteConds C AggMapper conds np (expressions @ SplitCNFItems C expr) b')"

text \<open>buildSelection.\<close>

definition buildSelection ::
  "collaborators \<Rightarrow> Plan \<Rightarrow> ExprNode \<Rightarrow> aggMapper \<Rightarrow> planBuilder \<Rightarrow> Plan option \<times> planBuilder" where
  "buildSelection C p whereExpr AggMapper b =
     (case init_id ''Selection'' (setFlags {flagPredicatePushDown} b) of
        (selID, b1) \<Rightarrow>
          (case rewriteConds C AggMapper (splitWhere whereExpr) p [] b1 of
             (Inl e, b2) \<Rightarrow> (None, b2\<lparr>err := Some e\<rparr>)
           | (Inr (p', expressions), b2) \<Rightarrow>
               if length expressions = 0 then (Some p', b2)
               else (Some (Plan selID (Clone (schema p')) [p'] (SelectionP expressions)), b2)))"

text \<open>The loop over the items in buildSort.\<close>

fun rewriteByItems ::
  "collaborators \<Rightarrow> aggMapper \<Rightarrow> ByItem list \<Rightarrow> Plan \<Rightarrow> ByItems list \<Rightarrow> planBuilder
     \<Rightarrow> (error + Plan \<times> ByItems list) \<times> planBuilder" where
  "rewriteByItems C aggMapper [] p exprs b = (Inr (p, exprs), b)"
| "rewriteByItems C aggMapper (item # items) p exprs b =
     (case rewrite C (byItemExpr item) p aggMapper True b of
        (Inl e, b') \<Rightarrow> (Inl e, b')
      | (Inr (it, np), b') \<Rightarrow>
          rewriteByItems C aggMapper items np (exprs @ [\<lparr>byExpr = it, byDesc = byItemDesc item\<rparr>]) b')"

text \<open>buildSort.\<close>

definition buildSort ::
  "collaborators \<Rightarrow> Plan \<Rightarrow> ByItem list \<Rightarrow> aggMapper \<Rightarrow> planBuilder \<Rightarrow> Plan option \<times> planBuilder" where
  "buildSort C p byItems aggMapper b =
     (case init_id ''Sort'' b of
        (sortID, b1) \<Rightarrow>
          (case rewriteByItems C aggMapper byItems p [] b1 of
             (Inl e, b2) \<Rightarrow> (None, b2\<lparr>err := Some e\<rparr>)
           | (Inr (p', exprs), b2) \<Rightarrow>
               (Some (Plan sortID (Clone (schema p')) [p'] (SortP exprs)), b2)))"

text \<open>
  buildDistinct. The slice \<open>Columns[:length]\<close> is within bounds at both call sites
  (\<open>length\<close> is the schema length in buildUnion and at most the number of projected
  fields in buildSelect).
\<close>

definition buildDistinct :: "Plan \<Rightarrow> nat \<Rightarrow> planBuilder \<Rightarrow> Plan \<times> planBuilder" where
  "buildDistinct child len b =
     (case init_id ''Aggr'' (setFlags {flagBuildKeyInfo, flagAggregationOptimize} b) of
        (aggID, b1) \<Rightarrow>
          (let gby = Column2Exprs (take len (Columns (Clone (schema child))));
               funcs = map (\<lambda>col. \<lparr>aggName = AggFuncFirstRow, aggArgs = [ColumnExpr col],
                                   aggDistinct = False\<rparr>) (Columns (schema child))
           in (Plan aggID (Clone (schema child)) [child]
                 (AggregationP funcs gby (collectGroupByColumns gby)), b1)))"

text \<open>buildTableDual.\<close>

definition buildTableDual :: "planBuilder \<Rightarrow> Plan \<times> planBuilder" where
  "buildTableDual b =
     (case init_id ''TableDual'' b of (dualID, b1) \<Rightarrow> (Plan dualID (NewSchema []) [] (TableDualP 1), b1))"

text \<open>getInnerFromParentheses is not under src/; it strips the enclosing parentheses.\<close>

fun getInnerFromParentheses :: "ExprNode \<Rightarrow> ExprNode" where
  "getInnerFromParentheses (ParenthesesExpr e) = getInnerFromParentheses e"
| "getInnerFromParentheses e = e"

text \<open>buildProjectionFieldNameFromColumns.\<close>

definition buildProjectionFieldNameFromColumns :: "ExprNode \<Rightarrow> Column \<Rightarrow> CIStr \<times> CIStr" where
  "buildProjectionFieldNameFromColumns fieldExpr c =
     (case getInnerFromParentheses fieldExpr of
        ColumnNameExpr astCol t \<Rightarrow> (cnName astCol, cnTable astCol)
      | _ \<Rightarrow> (ColName c, TblName c))"

text \<open>
  buildProjectionFieldNameFromExpressions. The type assertion
  \<open>agg.Args[0].(*ast.ColumnNameExpr)\<close> panics when FIRST\_ROW has no argument or
  another kind of argument.
\<close>

definition buildProjectionFieldNameFromExpressions ::
  "collaborators \<Rightarrow> ExprNode \<Rightarrow> string \<Rightarrow> CIStr res" where
  "buildProjectionFieldNameFromExpressions C fieldExpr fieldText =
     (case fieldExpr of
        AggregateFuncExpr f args d \<Rightarrow>
          if f = AggFuncFirstRow then
            (case args of
               ColumnNameExpr n t # rest \<Rightarrow> Val (cnName n)
             | _ \<Rightarrow> Panic)
          else Val (NewCIStr (TrimComment C fieldText))
      | _ \<Rightarrow>
          (case getInnerFromParentheses fieldExpr of
             ValueExpr (KindString str) txt \<Rightarrow> Val (NewCIStr (TrimNonGraphic C str))
           | ValueExpr KindNull txt \<Rightarrow> Val (NewCIStr ''NULL'')
           | ValueExpr d txt \<Rightarrow> Val (if txt \<noteq> [] then NewCIStr txt else NewCIStr fieldText)
           | _ \<Rightarrow> Val (NewCIStr (TrimComment C fieldText))))"

text \<open>buildProjectionField.\<close>

definition buildProjectionField ::
  "collaborators \<Rightarrow> string \<Rightarrow> int \<Rightarrow> SelectField \<Rightarrow> ExprNode \<Rightarrow> Expression \<Rightarrow> Column res" where
  "buildProjectionField C projID position field fieldExpr expr =
     (let mk = (\<lambda>(colName, tblName).
                  \<lparr>FromID = projID, DBName = emptyCIStr, TblName = tblName, ColName = colName,
                   Position = position, IsAggOrSubq = False, ID = 0, Index = 0,
                   RetType = ExprGetType C expr\<rparr>)
      in if strL (AsName field) \<noteq> [] then Val (mk (AsName field, emptyCIStr))
         else case (case expr of ColumnExpr c \<Rightarrow> if \<not> IsAggOrSubq c then Some c else None | _ \<Rightarrow> None) of
                Some c \<Rightarrow> Val (mk (buildProjectionFieldNameFromColumns fieldExpr c))
              | None \<Rightarrow>
                  (case buildProjectionFieldNameFromExpressions C fieldExpr (Text field) of
                     Panic \<Rightarrow> Panic
                   | Val colName \<Rightarrow> Val (mk (colName, emptyCIStr))))"

text \<open>
  The loop over the fields in buildProjection. Rewriting a field whose expression is nil
  calls a method on a nil interface and panics.
\<close>

fun projLoop ::
  "collaborators \<Rightarrow> string \<Rightarrow> aggMapper \<Rightarrow> SelectField list \<Rightarrow> Plan \<Rightarrow> Expression list
     \<Rightarrow> Column list \<Rightarrow> nat \<Rightarrow> planBuilder
     \<Rightarrow> (error \<times> nat + Plan \<times> Expression list \<times> Column list \<times> nat) res \<times> planBuilder" where
  "projLoop C projID mapper [] p exprs cols oldLen b = (Val (Inr (p, exprs, cols, oldLen)), b)"
| "projLoop C projID mapper (field # flds) p exprs cols oldLen b =
     (case Expr field of
        None \<Rightarrow> (Panic, b)
      | Some fieldExpr \<Rightarrow>
          (case rewrite C fieldExpr p mapper True b of
             (Inl e, b') \<Rightarrow> (Val (Inl (e, oldLen)), b')
           | (Inr (newExpr, np), b') \<Rightarrow>
               (case buildProjectionField C projID (int (length cols) + 1) field fieldExpr newExpr of
                  Panic \<Rightarrow> (Panic, b')
                | Val col \<Rightarrow>
                    projLoop C projID mapper flds np (exprs @ [newExpr]) (cols @ [col])
                      (if \<not> Auxiliary field then oldLen + 1 else oldLen) b')))"

text \<open>buildProjection; the result is the plan (nil on error) and the number of non-auxiliary fields.\<close>

definition buildProjection ::
  "collaborators \<Rightarrow> Plan \<Rightarrow> SelectField list \<Rightarrow> aggMapper \<Rightarrow> planBuilder
     \<Rightarrow> (Plan option \<times> nat) res \<times> planBuilder" where
  "buildProjection C p flds mapper b =
     (case init_id ''Projection'' (setFlags {flagEliminateProjection} b) of
        (projID, b1) \<Rightarrow>
          (case projLoop C projID mapper flds p [] [] 0 b1 of
             (Panic, b2) \<Rightarrow> (Panic, b2)
           | (Val (Inl (e, oldLen)), b2) \<Rightarrow> (Val (None, oldLen), b2\<lparr>err := Some e\<rparr>)
           | (Val (Inr (p', exprs, cols, oldLen)), b2) \<Rightarrow>
               (Val (Some (Plan projID (NewSchema cols) [p'] (ProjectionP exprs)), oldLen), b2)))"

text \<open>
  What the rewriter hands back for the conjuncts of a selection, in order, and the plan
  the builder has adopted after the last of them.
\<close>

fun rewriteResults ::
  "collaborators \<Rightarrow> aggMapper \<Rightarrow> ExprNode list \<Rightarrow> Plan \<Rightarrow> planBuilder \<Rightarrow> Expression list" where
  "rewriteResults C m [] p b = []"
| "rewriteResults C m (cond # conds) p b =
     (case rewrite C cond p m False b of
        (Inl e, b') \<Rightarrow> []
      | (Inr (expr, np), b') \<Rightarrow> expr # rewriteResults C m conds np b')"

fun adoptedPlan ::
  "collaborators \<Rightarrow> aggMapper \<Rightarrow> ExprNode list \<Rightarrow> Plan \<Rightarrow> planBuilder \<Rightarrow> Plan" where
  "adoptedPlan C m [] p b = p"
| "adoptedPlan C m (cond # conds) p b =
     (case rewrite C cond p m False b of
        (Inl e, b') \<Rightarrow> p
      | (Inr (expr, np), b') \<Rightarrow> adoptedPlan C m conds np b')"

text \<open>The builder as buildSelection hands it to the rewriter.\<close>

definition selectionBuilder :: "planBuilder \<Rightarrow> planBuilder" where
  "selectionBuilder b = snd (init_id ''Selection'' (setFlags {flagPredicatePushDown} b))"

text \<open>A rewriter that hands back the plan it was given.\<close>

definition keepsPlan :: "collaborators \<Rightarrow> bool" where
  "keepsPlan C = (\<forall>e p m s b expr np b'. rewrite C e p m s b = (Inr (expr, np), b') \<longrightarrow> np = p)"

subsection \<open>Visitors\<close>

text \<open>
  The result \<open>(node, ok)\<close> of the Leave and Accept methods: \<open>Continue n\<close> is
  \<open>(n, true)\<close>, \<open>Stop n\<close> is \<open>(n, false)\<close> with \<open>None\<close> for a nil node, and
  \<open>Panicked\<close> is a run-time panic inside the traversal.
\<close>

datatype visit = Continue ExprNode | Stop "ExprNode option" | Panicked

text \<open>
  Modelled from the spec: the Accept methods of the syntax nodes are not under src/. A
  visitor has an explicit enter/leave protocol and a skip-children boolean: Accept calls
  Enter, returns Leave at once when the children are to be skipped, otherwise lets each
  child accept the visitor in order, replacing the child by the node handed back, stops with
  \<open>(n, false)\<close> as soon as a child does, and ends with Leave. The name node below a
  column reference is visited too; neither visitor of the builder acts on it.
\<close>

fun Accept ::
  "('s \<Rightarrow> ExprNode \<Rightarrow> 's \<times> bool) \<Rightarrow> ('s \<Rightarrow> ExprNode \<Rightarrow> visit \<times> 's) \<Rightarrow> ExprNode \<Rightarrow> 's \<Rightarrow> visit \<times> 's"
and AcceptList ::
  "('s \<Rightarrow> ExprNode \<Rightarrow> 's \<times> bool) \<Rightarrow> ('s \<Rightarrow> ExprNode \<Rightarrow> visit \<times> 's) \<Rightarrow> ExprNode list \<Rightarrow> 's
     \<Rightarrow> (ExprNode list \<times> bool) res \<times> 's" where
  "Accept enter leave (AggregateFuncExpr f args d) s =
     (case enter s (AggregateFuncExpr f args d) of
        (s1, True) \<Rightarrow> leave s1 (AggregateFuncExpr f args d)
      | (s1, False) \<Rightarrow>
          (case AcceptList enter leave args s1 of
             (Panic, s2) \<Rightarrow> (Panicked, s2)
           | (Val (args', False), s2) \<Rightarrow> (Stop (Some (AggregateFuncExpr f args' d)), s2)
           | (Val (args', True), s2) \<Rightarrow> leave s2 (AggregateFuncExpr f args' d)))"
| "Accept enter leave (FuncCallExpr f args) s =
     (case enter s (FuncCallExpr f args) of
        (s1, True) \<Rightarrow> leave s1 (FuncCallExpr f args)
      | (s1, False) \<Rightarrow>
          (case AcceptList enter leave args s1 of
             (Panic, s2) \<Rightarrow> (Panicked, s2)
           | (Val (args', False), s2) \<Rightarrow> (Stop (Some (FuncCallExpr f args')), s2)
           | (Val (args', True), s2) \<Rightarrow> leave s2 (FuncCallExpr f args')))"
| "Accept enter leave (ParenthesesExpr e) s =
     (case enter s (ParenthesesExpr e) of
        (s1, True) \<Rightarrow> leave s1 (ParenthesesExpr e)
      | (s1, False) \<Rightarrow>
          (case Accept enter leave e s1 of
             (Panicked, s2) \<Rightarrow> (Panicked, s2)
           | (Stop x, s2) \<Rightarrow> (Stop (Some (ParenthesesExpr e)), s2)
           | (Continue e', s2) \<Rightarrow> leave s2 (ParenthesesExpr e')))"
| "Accept enter leave (BinaryOperationExpr op l r) s =
     (case enter s (BinaryOperationExpr op l r) of
        (s1, True) \<Rightarrow> leave s1 (BinaryOperationExpr op l r)
      | (s1, False) \<Rightarrow>
          (case Accept enter leave l s1 of
             (Panicked, s2) \<Rightarrow> (Panicked, s2)
           | (Stop x, s2) \<Rightarrow> (Stop (Some (BinaryOperationExpr op l r)), s2)
           | (Continue l', s2) \<Rightarrow>
               (case Accept enter leave r s2 of
                  (Panicked, s3) \<Rightarrow> (Panicked, s3)
                | (Stop x, s3) \<Rightarrow> (Stop (Some (BinaryOperationExpr op l' r)), s3)
                | (Continue r', s3) \<Rightarrow> leave s3 (BinaryOperationExpr op l' r'))))"
| "Accept enter leave (CompareSubqueryExpr l r) s =
     (case enter s (CompareSubqueryExpr l r) of
        (s1, True) \<Rightarrow> leave s1 (CompareSubqueryExpr l r)
      | (s1, False) \<Rightarrow>
          (case Accept enter leave l s1 of
             (Panicked, s2) \<Rightarrow> (Panicked, s2)
           | (Stop x, s2) \<Rightarrow> (Stop (Some (CompareSubqueryExpr l r)), s2)
           | (Continue l', s2) \<Rightarrow>
               (case Accept enter leave r s2 of
                  (Panicked, s3) \<Rightarrow> (Panicked, s3)
                | (Stop x, s3) \<Rightarrow> (Stop (Some (CompareSubqueryExpr l' r)), s3)
                | (Continue r', s3) \<Rightarrow> leave s3 (CompareSubqueryExpr l' r'))))"
| "Accept enter leave (ColumnNameExpr n t) s =
     (case enter s (ColumnNameExpr n t) of (s1, skip) \<Rightarrow> leave s1 (ColumnNameExpr n t))"
| "Accept enter leave (ValueExpr d txt) s =
     (case enter s (ValueExpr d txt) of (s1, skip) \<Rightarrow> leave s1 (ValueExpr d txt))"
| "Accept enter leave (ParamMarkerExpr k) s =
     (case enter s (ParamMarkerExpr k) of (s1, skip) \<Rightarrow> leave s1 (ParamMarkerExpr k))"
| "Accept enter leave (PositionExpr k) s =
     (case enter s (PositionExpr k) of (s1, skip) \<Rightarrow> leave s1 (PositionExpr k))"
| "Accept enter leave (SubqueryExpr k) s =
     (case enter s (SubqueryExpr k) of (s1, skip) \<Rightarrow> leave s1 (SubqueryExpr k))"
| "Accept enter leave (ExistsSubqueryExpr k) s =
     (case enter s (ExistsSubqueryExpr k) of (s1, skip) \<Rightarrow> leave s1 (ExistsSubqueryExpr k))"
| "AcceptList enter leave [] s = (Val ([], True), s)"
| "AcceptList enter leave (x # xs) s =
     (case Accept enter leave x s of
        (Panicked, s1) \<Rightarrow> (Panic, s1)
      | (Stop n, s1) \<Rightarrow> (Val (x # xs, False), s1)
      | (Continue x', s1) \<Rightarrow>
          (case AcceptList enter leave xs s1 of
             (Panic, s2) \<Rightarrow> (Panic, s2)
           | (Val (xs', ok), s2) \<Rightarrow> (Val (x' # xs', ok), s2)))"

subsection \<open>The resolver of HAVING and ORDER BY\<close>

text \<open>havingAndOrderbyExprResolver.\<close>

record havingAndOrderbyExprResolver =
  inAggFunc :: bool
  inExpr :: bool
  orderBy :: bool
  aErr :: "error option"
  aPlan :: Plan
  selectFields :: "SelectField list"
  aAggMapper :: aggMapper
  aColMapper :: "(ExprNode \<times> int) list"
  gbyItems :: "ByItem list"
  aOuterSchemas :: "Schema list"

text \<open>havingAndOrderbyExprResolver.Enter: the new state and \<open>skipChildren\<close>.\<close>

fun havingEnter :: "havingAndOrderbyExprResolver \<Rightarrow> ExprNode \<Rightarrow> havingAndOrderbyExprResolver \<times> bool" where
  "havingEnter a (AggregateFuncExpr f args d) = (a\<lparr>inAggFunc := True\<rparr>, False)"
| "havingEnter a (ParamMarkerExpr k) = (a, False)"
| "havingEnter a (ColumnNameExpr n t) = (a, False)"
| "havingEnter a (SubqueryExpr k) = (a, True)"
| "havingEnter a (ExistsSubqueryExpr k) = (a, True)"
| "havingEnter a n = (a\<lparr>inExpr := True\<rparr>, False)"

text \<open>
  havingAndOrderbyExprResolver.resolveFromSchema: the index, the error, and the resolver,
  whose select fields may have grown by one auxiliary field.
\<close>

definition resolveFromSchema ::
  "collaborators \<Rightarrow> havingAndOrderbyExprResolver \<Rightarrow> ColumnName \<Rightarrow> Schema
     \<Rightarrow> (int \<times> error option) \<times> havingAndOrderbyExprResolver" where
  "resolveFromSchema C a v sch =
     (case FindColumn C sch v of
        Inl e \<Rightarrow> ((- 1, Some e), a)
      | Inr None \<Rightarrow> ((- 1, None), a)
      | Inr (Some col) \<Rightarrow>
          (let newColName = \<lparr>cnSchema = DBName col, cnTable = TblName col, cnName = ColName col\<rparr>
           in case indexFrom (\<lambda>field. case Expr field of
                                          Some (ColumnNameExpr c t) \<Rightarrow> colMatch newColName c
                                        | _ \<Rightarrow> False) (selectFields a) 0 of
                Some i \<Rightarrow> ((int i, None), a)
              | None \<Rightarrow>
                  ((int (length (selectFields a)), None),
                   a\<lparr>selectFields := selectFields a @
                        [\<lparr>Auxiliary = True, Expr = Some (ColumnNameExpr newColName (Some (RetType col))),
                          AsName = emptyCIStr, WildCard = None, Text = []\<rparr>]\<rparr>)))"

text \<open>The loop over the GROUP BY items in Leave: \<open>r\<close> is resolveFieldsFirst so far.\<close>

fun gbyItemsLoop :: "ColumnName \<Rightarrow> ByItem list \<Rightarrow> bool \<Rightarrow> bool" where
  "gbyItemsLoop v [] r = r"
| "gbyItemsLoop v (item # items) r =
     (case byItemExpr item of
        ColumnNameExpr col t \<Rightarrow>
          if colMatch v col \<or> colMatch col v then False else gbyItemsLoop v items r
      | _ \<Rightarrow> gbyItemsLoop v items r)"

text \<open>The value of \<open>resolveFieldsFirst\<close> that Leave computes for a column reference.\<close>

definition resolveFieldsFirst :: "havingAndOrderbyExprResolver \<Rightarrow> ColumnName \<Rightarrow> bool" where
  "resolveFieldsFirst a v =
     (let r = (if inAggFunc a \<or> (orderBy a \<and> inExpr a) then False else True)
      in if \<not> inAggFunc a \<and> \<not> orderBy a then gbyItemsLoop v (gbyItems a) r else r)"

text \<open>
  The resolution of the index in Leave, up to the test \<open>a.err != nil\<close> that follows it:
  the index, and the resolver with its error set as the source assigns it.
\<close>

definition resolveIndex ::
  "collaborators \<Rightarrow> havingAndOrderbyExprResolver \<Rightarrow> ColumnName \<Rightarrow> int \<times> havingAndOrderbyExprResolver" where
  "resolveIndex C a v =
     (if resolveFieldsFirst a v then
        (case resolveFromSelectFields v (selectFields a) False of
           Inl e \<Rightarrow> (- 1, a\<lparr>aErr := Some e\<rparr>)
         | Inr index \<Rightarrow>
             if index = - 1 then
               (if orderBy a then
                  (case resolveFromSchema C (a\<lparr>aErr := None\<rparr>) v (schema (aPlan a)) of
                     ((index', e), a') \<Rightarrow> (index', a'\<lparr>aErr := e\<rparr>))
                else
                  (case resolveFromSelectFields v (selectFields a) True of
                     Inl e \<Rightarrow> (- 1, a\<lparr>aErr := Some e\<rparr>)
                   | Inr index' \<Rightarrow> (index', a\<lparr>aErr := None\<rparr>)))
             else (index, a\<lparr>aErr := None\<rparr>))
      else
        (case resolveFromSchema C a v (schema (aPlan a)) of
           ((index, e), a') \<Rightarrow>
             if index = - 1 then
               (case resolveFromSelectFields v (selectFields a') False of
                  Inl e' \<Rightarrow> (- 1, a'\<lparr>aErr := Some e'\<rparr>)
                | Inr index' \<Rightarrow> (index', a'\<lparr>aErr := None\<rparr>))
             else (index, a')))"

text \<open>
  havingAndOrderbyExprResolver.Leave. When the resolved field has a nil expression, the
  node handed back is nil and the type assertion of the parent's Accept panics.
\<close>

definition havingLeave ::
  "collaborators \<Rightarrow> havingAndOrderbyExprResolver \<Rightarrow> ExprNode \<Rightarrow> visit \<times> havingAndOrderbyExprResolver" where
  "havingLeave C a n =
     (case n of
        AggregateFuncExpr f args d \<Rightarrow>
          (Continue n,
           a\<lparr>inAggFunc := False,
             aAggMapper := aAggMapper a @ [(n, int (length (selectFields a)))],
             selectFields := selectFields a @
               [\<lparr>Auxiliary = True, Expr = Some n,
                 AsName = NewCIStr (''sel_agg_'' @ string_of_nat (length (selectFields a))),
                 WildCard = None, Text = []\<rparr>]\<rparr>)
      | ColumnNameExpr v t \<Rightarrow>
          (case resolveIndex C a v of
             (index, a1) \<Rightarrow>
               if aErr a1 \<noteq> None then (Stop None, a1)
               else if index = - 1 then
                 (if list_ex (\<lambda>sch. case FindColumn C sch v of Inr (Some col) \<Rightarrow> True | _ \<Rightarrow> False)
                       (aOuterSchemas a1)
                  then (Continue n, a1)
                  else (Stop None, a1\<lparr>aErr := Some (ErrUnknownColumnName (strL (cnName v)))\<rparr>))
               else if inAggFunc a1 then
                 (case Expr (selectFields a1 ! nat index) of
                    Some e \<Rightarrow> (Continue e, a1)
                  | None \<Rightarrow> (Panicked, a1))
               else (Continue n, a1\<lparr>aColMapper := aColMapper a1 @ [(n, index)]\<rparr>))
      | _ \<Rightarrow> (Continue n, a))"

subsection \<open>The resolver of GROUP BY\<close>

text \<open>gbyResolver.\<close>

record gbyResolver =
  gFields :: "SelectField list"
  gSchema :: Schema
  gErr :: "error option"
  gInExpr :: bool

fun gbyEnter :: "gbyResolver \<Rightarrow> ExprNode \<Rightarrow> gbyResolver \<times> bool" where
  "gbyEnter g (SubqueryExpr k) = (g, True)"
| "gbyEnter g (CompareSubqueryExpr l r) = (g, True)"
| "gbyEnter g (ExistsSubqueryExpr k) = (g, True)"
| "gbyEnter g (ValueExpr d txt) = (g, False)"
| "gbyEnter g (ColumnNameExpr n t) = (g, False)"
| "gbyEnter g (ParenthesesExpr e) = (g, False)"
| "gbyEnter g n = (g\<lparr>gInExpr := True\<rparr>, False)"

text \<open>gbyResolver.Leave.\<close>

definition gbyLeave :: "collaborators \<Rightarrow> gbyResolver \<Rightarrow> ExprNode \<Rightarrow> visit \<times> gbyResolver" where
  "gbyLeave C g inNode =
     (case inNode of
        ColumnNameExpr v t \<Rightarrow>
          (let found = FindColumn C (gSchema g) v;
               col = (case found of Inr (Some c) \<Rightarrow> Some c | _ \<Rightarrow> None);
               ferr = (case found of Inl e \<Rightarrow> Some e | _ \<Rightarrow> None)
           in if col = None \<or> \<not> gInExpr g then
                (case resolveFromSelectFields v (gFields g) False of
                   Inl e \<Rightarrow> (Stop (Some inNode), g\<lparr>gErr := Some e\<rparr>)
                 | Inr index \<Rightarrow>
                     if col \<noteq> None then (Continue inNode, g\<lparr>gErr := None\<rparr>)
                     else if index \<noteq> - 1 then
                       (case Expr (gFields g ! nat index) of
                          Some e \<Rightarrow> (Continue e, g\<lparr>gErr := None\<rparr>)
                        | None \<Rightarrow> (Panicked, g\<lparr>gErr := None\<rparr>))
                     else (Stop (Some inNode), g\<lparr>gErr := ferr\<rparr>))
              else (Continue inNode, g))
      | PositionExpr N \<Rightarrow>
          if N \<ge> 1 \<and> N \<le> int (length (gFields g)) then
            (case Expr (gFields g ! nat (N - 1)) of
               Some e \<Rightarrow> (Continue e, g)
             | None \<Rightarrow> (Panicked, g))
          else (Stop (Some inNode), g\<lparr>gErr := Some (ErrUnknownGroupPosition N)\<rparr>)
      | _ \<Rightarrow> (Continue inNode, g))"


subsection \<open>Resolving GROUP BY, HAVING and ORDER BY\<close>

text \<open>The node a traversal hands back, nil included.\<close>

fun visitNode :: "visit \<Rightarrow> ExprNode option" where
  "visitNode (Continue n) = Some n"
| "visitNode (Stop n) = n"
| "visitNode Panicked = None"

text \<open>
  The loop of resolveGbyExprs: the plan, the rewritten expressions and the items with their
  resolved expressions; \<open>None\<close> is the return \<open>nil, nil\<close>. The test after Accept
  looks at \<open>resolver.err\<close>, not at the \<open>ok\<close> of the traversal; the type assertion
  on a nil node panics.
\<close>

fun gbyLoop ::
  "collaborators \<Rightarrow> gbyResolver \<Rightarrow> ByItem list \<Rightarrow> Plan \<Rightarrow> Expression list \<Rightarrow> ByItem list \<Rightarrow> planBuilder
     \<Rightarrow> (Plan \<times> Expression list \<times> ByItem list) option res \<times> planBuilder" where
  "gbyLoop C g [] p exprs done b = (Val (Some (p, exprs, done)), b)"
| "gbyLoop C g (item # items) p exprs done b =
     (case Accept gbyEnter (gbyLeave C) (byItemExpr item) (g\<lparr>gInExpr := False\<rparr>) of
        (Panicked, g1) \<Rightarrow> (Panic, b)
      | (v, g1) \<Rightarrow>
          if gErr g1 \<noteq> None then (Val None, b\<lparr>err := gErr g1\<rparr>)
          else
            (case visitNode v of
               None \<Rightarrow> (Panic, b)
             | Some retExpr \<Rightarrow>
                 (case rewrite C retExpr p [] True b of
                    (Inl e, b') \<Rightarrow> (Val None, b'\<lparr>err := Some e\<rparr>)
                  | (Inr (expr, np), b') \<Rightarrow>
                      gbyLoop C g1 items np (exprs @ [expr]) (done @ [item\<lparr>byItemExpr := retExpr\<rparr>]) b')))"

definition resolveGbyExprs ::
  "collaborators \<Rightarrow> Plan \<Rightarrow> ByItem list \<Rightarrow> SelectField list \<Rightarrow> planBuilder
     \<Rightarrow> (Plan \<times> Expression list \<times> ByItem list) option res \<times> planBuilder" where
  "resolveGbyExprs C p gby flds b =
     gbyLoop C \<lparr>gFields = flds, gSchema = schema p, gErr = None, gInExpr = False\<rparr> gby p [] [] b"

text \<open>
  What resolveHavingAndOrderBy leaves behind: the two aggregate maps it returns (nil, here
  empty, on error) and the parts of the statement it assigns to.
\<close>

record resolved =
  havingMap :: aggMapper
  orderMap :: aggMapper
  resFields :: "SelectField list"
  resHaving :: "ExprNode option"
  resOrderBy :: "ByItem list option"

text \<open>
  The loop over the ORDER BY items: \<open>Inr\<close> with the resolved items, or \<open>Inl\<close> with
  the items as they are when a traversal stops.
\<close>

fun orderLoop ::
  "collaborators \<Rightarrow> ByItem list \<Rightarrow> ByItem list \<Rightarrow> havingAndOrderbyExprResolver
     \<Rightarrow> (ByItem list + ByItem list) res \<times> havingAndOrderbyExprResolver" where
  "orderLoop C [] done a = (Val (Inr done), a)"
| "orderLoop C (item # items) done a =
     (case Accept havingEnter (havingLeave C) (byItemExpr item) a of
        (Panicked, a1) \<Rightarrow> (Panic, a1)
      | (Stop x, a1) \<Rightarrow> (Val (Inl (done @ item # items)), a1)
      | (Continue n, a1) \<Rightarrow> orderLoop C items (done @ [item\<lparr>byItemExpr := n\<rparr>]) a1)"

text \<open>
  resolveHavingAndOrderBy. The resolver works on the builder's \<open>colMapper\<close> map itself,
  so the builder sees its entries on every path.
\<close>

definition resolveHavingAndOrderBy ::
  "collaborators \<Rightarrow> ExprNode option \<Rightarrow> ByItem list option \<Rightarrow> ByItem list option \<Rightarrow> SelectField list
     \<Rightarrow> Plan \<Rightarrow> planBuilder \<Rightarrow> resolved res \<times> planBuilder" where
  "resolveHavingAndOrderBy C having orderByItems gby flds p b =
     (let extractor = \<lparr>inAggFunc = False, inExpr = False, orderBy = False, aErr = None, aPlan = p,
                       selectFields = flds, aAggMapper = [], aColMapper = colMapper b,
                       gbyItems = (case gby of None \<Rightarrow> [] | Some items \<Rightarrow> items),
                       aOuterSchemas = outerSchemas b\<rparr>
      in case (case having of
                 None \<Rightarrow> (Continue (PositionExpr 0), extractor)
               | Some h \<Rightarrow> Accept havingEnter (havingLeave C) h extractor) of
           (Panicked, a1) \<Rightarrow> (Panic, b\<lparr>colMapper := aColMapper a1\<rparr>)
         | (Stop x, a1) \<Rightarrow>
             (Val \<lparr>havingMap = [], orderMap = [], resFields = flds, resHaving = having,
                   resOrderBy = orderByItems\<rparr>,
              b\<lparr>err := aErr a1, colMapper := aColMapper a1\<rparr>)
         | (Continue n, a1) \<Rightarrow>
             (let having' = (case having of None \<Rightarrow> None | Some h \<Rightarrow> Some n);
                  havingAggMapper = aAggMapper a1;
                  a2 = a1\<lparr>aAggMapper := [], orderBy := True, inExpr := False\<rparr>
              in case (case orderByItems of
                         None \<Rightarrow> (Val (Inr []), a2)
                       | Some items \<Rightarrow> orderLoop C items [] a2) of
                   (Panic, a3) \<Rightarrow> (Panic, b\<lparr>colMapper := aColMapper a3\<rparr>)
                 | (Val (Inl items'), a3) \<Rightarrow>
                     (Val \<lparr>havingMap = [], orderMap = [], resFields = flds, resHaving = having',
                           resOrderBy = Some items'\<rparr>,
                      b\<lparr>err := aErr a3, colMapper := aColMapper a3\<rparr>)
                 | (Val (Inr items'), a3) \<Rightarrow>
                     (Val \<lparr>havingMap = havingAggMapper, orderMap = aAggMapper a3,
                           resFields = selectFields a3, resHaving = having',
                           resOrderBy = (case orderByItems of None \<Rightarrow> None | Some items \<Rightarrow> Some items')\<rparr>,
                      b\<lparr>colMapper := aColMapper a3\<rparr>)))"

text \<open>
  Modelled from the spec: AggregateFuncExtractor is not under src/; it collects all
  aggregate-function nodes of the select list, numbered in left-to-right order.
\<close>

definition extractorEnter :: "ExprNode list \<Rightarrow> ExprNode \<Rightarrow> ExprNode list \<times> bool" where
  "extractorEnter aggs n = (aggs, False)"

definition extractorLeave :: "ExprNode list \<Rightarrow> ExprNode \<Rightarrow> visit \<times> ExprNode list" where
  "extractorLeave aggs n =
     (case n of AggregateFuncExpr f args d \<Rightarrow> (Continue n, aggs @ [n]) | _ \<Rightarrow> (Continue n, aggs))"

text \<open>The loop of extractAggFuncs; a field with a nil expression panics.\<close>

fun extractLoop :: "SelectField list \<Rightarrow> ExprNode list \<Rightarrow> ExprNode list res" where
  "extractLoop [] aggs = Val aggs"
| "extractLoop (f # fs) aggs =
     (case Expr f of
        None \<Rightarrow> Panic
      | Some e \<Rightarrow> extractLoop fs (snd (Accept extractorEnter extractorLeave e aggs)))"

fun toAggregateFunc :: "ExprNode \<Rightarrow> AggregateFunc" where
  "toAggregateFunc (AggregateFuncExpr f args d) = \<lparr>afF = f, afArgs = args, afDistinct = d\<rparr>"
| "toAggregateFunc n = \<lparr>afF = [], afArgs = [], afDistinct = False\<rparr>"

text \<open>extractAggFuncs: the aggregate functions and the map from each to its index.\<close>

definition extractAggFuncs :: "SelectField list \<Rightarrow> (AggregateFunc list \<times> aggMapper) res" where
  "extractAggFuncs flds =
     (case extractLoop flds [] of
        Panic \<Rightarrow> Panic
      | Val aggList \<Rightarrow> Val (map toAggregateFunc aggList, zip aggList (map int [0 ..< length aggList])))"

subsection \<open>Hints\<close>

definition TiDBMergeJoin :: string where
  "TiDBMergeJoin = ''tidb_smj''"

definition TiDBIndexNestedLoopJoin :: string where
  "TiDBIndexNestedLoopJoin = ''tidb_inlj''"

text \<open>The loop of pushTableHints.\<close>

fun collectHints :: "TableOptimizerHint list \<Rightarrow> CIStr list \<Rightarrow> CIStr list \<Rightarrow> CIStr list \<times> CIStr list" where
  "collectHints [] sortMergeTables INLJTables = (sortMergeTables, INLJTables)"
| "collectHints (hint # hints) sortMergeTables INLJTables =
     (if strL (HintName hint) = TiDBMergeJoin
      then collectHints hints (sortMergeTables @ Tables hint) INLJTables
      else if strL (HintName hint) = TiDBIndexNestedLoopJoin
      then collectHints hints sortMergeTables (INLJTables @ Tables hint)
      else collectHints hints sortMergeTables INLJTables)"

text \<open>pushTableHints.\<close>

definition pushTableHints :: "TableOptimizerHint list \<Rightarrow> planBuilder \<Rightarrow> bool \<times> planBuilder" where
  "pushTableHints hints b =
     (case collectHints hints [] [] of
        (sortMergeTables, INLJTables) \<Rightarrow>
          if length sortMergeTables \<noteq> 0 \<or> length INLJTables \<noteq> 0
          then (True, b\<lparr>tableHintInfos := tableHintInfos b @
                        [\<lparr>indexNestedLoopJoinTables = INLJTables, sortMergeJoinTables = sortMergeTables\<rparr>]\<rparr>)
          else (False, b))"

text \<open>
  popTableHints: \<open>b.tableHintInfo[:len(b.tableHintInfo)-1]\<close>, which panics
  (\<open>None\<close>) on an empty stack.
\<close>

definition popTableHints :: "planBuilder \<Rightarrow> planBuilder option" where
  "popTableHints b =
     (if tableHintInfos b = [] then None else Some (b\<lparr>tableHintInfos := butlast (tableHintInfos b)\<rparr>))"

text \<open>planBuilder.TableHints.\<close>

definition TableHints :: "planBuilder \<Rightarrow> tableHintInfo option" where
  "TableHints b = (if tableHintInfos b = [] then None else Some (last (tableHintInfos b)))"

text \<open>
  Modelled from the spec: ifPreferMergeJoin and ifPreferINLJ are not under src/; the
  merge-join hint applies when either side's table alias appears in it, the
  index-nested-loop hint when the given side's alias appears in it.
\<close>

definition aliasIn :: "CIStr list \<Rightarrow> CIStr option \<Rightarrow> bool" where
  "aliasIn tables alias =
     (case alias of None \<Rightarrow> False | Some a \<Rightarrow> list_ex (\<lambda>t. strL t = strL a) tables)"

definition ifPreferMergeJoin :: "tableHintInfo \<Rightarrow> CIStr option \<Rightarrow> CIStr option \<Rightarrow> bool" where
  "ifPreferMergeJoin info leftAlias rightAlias =
     (aliasIn (sortMergeJoinTables info) leftAlias \<or> aliasIn (sortMergeJoinTables info) rightAlias)"

definition ifPreferINLJ :: "tableHintInfo \<Rightarrow> CIStr option \<Rightarrow> bool" where
  "ifPreferINLJ info alias = aliasIn (indexNestedLoopJoinTables info) alias"

definition preferLeftAsOuter :: nat where
  "preferLeftAsOuter = 1"

definition preferRightAsOuter :: nat where
  "preferRightAsOuter = 2"

subsection \<open>Data sources and joins\<close>

text \<open>
  buildDataSource. The statistics of the table and the schema kept for a union scan are not
  part of the plan model. The function does not look at \<open>b.err\<close>.
\<close>

definition sourceColumn :: "string \<Rightarrow> CIStr \<Rightarrow> CIStr \<Rightarrow> nat \<Rightarrow> TableColumn \<Rightarrow> Column" where
  "sourceColumn pid schemaName tblname i col =
     \<lparr>FromID = pid, DBName = schemaName, TblName = tblname, ColName = tcName col,
      Position = int i, IsAggOrSubq = False, ID = tcID col, Index = 0, RetType = tcFieldType col\<rparr>"

definition buildDataSource ::
  "collaborators \<Rightarrow> TableName \<Rightarrow> planBuilder \<Rightarrow> Plan option \<times> planBuilder" where
  "buildDataSource C tn b =
     (let schemaName = (if strL (tnSchema tn) = [] then NewCIStr (CurrentDB (ctx b)) else tnSchema tn)
      in case TableByName C schemaName (tnName tn) of
           Inl e \<Rightarrow> (None, b\<lparr>err := Some e\<rparr>)
         | Inr tbl \<Rightarrow>
            (case init_id ''TableScan'' b of
               (pid, b1) \<Rightarrow>
                 (let b2 = b1\<lparr>visitInfos := visitInfos b1 @
                              [\<lparr>privilege = ''Select'', db = strL schemaName,
                                table = strL (tblName tbl), column = []\<rparr>]\<rparr>;
                      columns = (if inUpdateStmt b2 then WritableCols tbl else Cols tbl);
                      cols = map (\<lambda>(i, col). sourceColumn pid schemaName (tblName tbl) i col)
                               (zip [0 ..< length columns] columns);
                      pks = filter (\<lambda>(col, tc). PKIsHandle tbl \<and> tcPriKey tc) (zip cols columns);
                      pkCol = (if pks = [] then None else Some (fst (last pks)));
                      needUnionScan = (case Txn (ctx b2) of None \<Rightarrow> False | Some readOnly \<Rightarrow> \<not> readOnly);
                      node = (\<lambda>sch. Plan pid sch [] (DataSourceP None (tblName tbl) (needColHandle b2 > 0)))
                  in if needColHandle b2 = 0 \<and> \<not> needUnionScan then (Some (node (NewSchema cols)), b2)
                     else
                       (case pkCol of
                          None \<Rightarrow>
                            (let idCol = \<lparr>FromID = pid, DBName = schemaName, TblName = tblName tbl,
                                          ColName = NewCIStr ''_rowid'', Position = int (length cols),
                                          IsAggOrSubq = False, ID = ExtraHandleID,
                                          Index = int (length cols),
                                          RetType = \<lparr>Tp = 8, Flen = 20, Decimal = 0\<rparr>\<rparr>
                             in (Some (node \<lparr>Columns = cols @ [idCol],
                                             TblID2Handle = [(tblID tbl, [idCol])]\<rparr>), b2))
                        | Some pk \<Rightarrow>
                            (Some (node \<lparr>Columns = cols, TblID2Handle = [(tblID tbl, [pk])]\<rparr>), b2)))))"

text \<open>
  extractTableAlias. On a nil plan the call \<open>p.Schema()\<close> panics, and on a data source
  whose alias pointer was never set the field access does.
\<close>

definition extractTableAlias :: "Plan option \<Rightarrow> CIStr option res" where
  "extractTableAlias p =
     (case p of
        None \<Rightarrow> Panic
      | Some q \<Rightarrow>
          (case payload q of
             DataSourceP asName tname nch \<Rightarrow>
               (case asName of
                  None \<Rightarrow> Panic
                | Some a \<Rightarrow> if strL a \<noteq> [] then Val (Some a) else Val (Some tname))
           | _ \<Rightarrow>
               (case Columns (schema q) of
                  [] \<Rightarrow> Val None
                | c # cs \<Rightarrow> if strL (TblName c) \<noteq> [] then Val (Some (TblName c)) else Val None)))"

text \<open>The redundant schema of a child that is a join.\<close>

definition childRedundant :: "Plan \<Rightarrow> Schema option" where
  "childRedundant p = (case payload p of JoinP j \<Rightarrow> redundantSchema j | _ \<Rightarrow> None)"

text \<open>The filter buildUsingClause builds from the USING list.\<close>

definition usingFilterOf :: "ColumnName list \<Rightarrow> usingFilter" where
  "usingFilterOf cols = foldl (\<lambda>m col. filterSet m (strL (cnName col)) True) [] cols"

text \<open>The part of buildJoin that reads the table hints: the preferences, or the conflict.\<close>

definition joinHints :: "planBuilder \<Rightarrow> CIStr option \<Rightarrow> CIStr option \<Rightarrow> JoinInfo \<Rightarrow> JoinInfo option" where
  "joinHints b leftAlias rightAlias j =
     (case TableHints b of
        None \<Rightarrow> Some j
      | Some info \<Rightarrow>
          (let j1 = j\<lparr>preferMergeJoin := ifPreferMergeJoin info leftAlias rightAlias\<rparr>;
               j2 = (if ifPreferINLJ info leftAlias
                     then j1\<lparr>preferINLJ := preferINLJ j1 OR preferLeftAsOuter\<rparr> else j1);
               j3 = (if ifPreferINLJ info rightAlias
                     then j2\<lparr>preferINLJ := preferINLJ j2 OR preferRightAsOuter\<rparr> else j2)
           in if preferMergeJoin j3 \<and> preferINLJ j3 > 0 then None else Some j3))"

text \<open>The last statements of buildJoin: the join type and the default values.\<close>

definition joinTypeOf :: "JoinTp \<Rightarrow> Plan \<Rightarrow> Plan \<Rightarrow> JoinInfo \<Rightarrow> JoinInfo" where
  "joinTypeOf tp leftPlan rightPlan j =
     (case tp of
        LeftJoin \<Rightarrow> j\<lparr>joinType := LeftOuterJoin, DefaultValues := Len (schema rightPlan)\<rparr>
      | RightJoin \<Rightarrow> j\<lparr>joinType := RightOuterJoin, DefaultValues := Len (schema leftPlan)\<rparr>
      | CrossJoin \<Rightarrow> j\<lparr>joinType := InnerJoin\<rparr>)"

text \<open>
  buildJoin after its two operands are built, for a join with a right operand. Nothing
  tests \<open>b.err\<close> or the operands before extractTableAlias is called on them.
\<close>

definition buildJoinRest ::
  "collaborators \<Rightarrow> JoinTp \<Rightarrow> bool \<Rightarrow> ColumnName list option \<Rightarrow> ExprNode option
     \<Rightarrow> Plan option \<Rightarrow> Plan option \<Rightarrow> planBuilder \<Rightarrow> Plan option res \<times> planBuilder" where
  "buildJoinRest C tp natural using onExpr leftPlan rightPlan b =
     (case extractTableAlias leftPlan of
        Panic \<Rightarrow> (Panic, b)
      | Val leftAlias \<Rightarrow>
     (case extractTableAlias rightPlan of
        Panic \<Rightarrow> (Panic, b)
      | Val rightAlias \<Rightarrow>
     (case (leftPlan, rightPlan) of
        (Some l, Some r) \<Rightarrow>
          (case init_id ''Join'' b of
             (joinID, b1) \<Rightarrow>
               (let newSchema = (case MergeSchema (Some (schema l)) (Some (schema r)) of
                                   Some s \<Rightarrow> s | None \<Rightarrow> NewSchema []);
                    j0 = \<lparr>joinType = InnerJoin, EqualConditions = [], LeftConditions = [],
                          RightConditions = [], OtherConditions = [],
                          redundantSchema = MergeSchema (childRedundant l) (childRedundant r),
                          DefaultValues = 0, preferMergeJoin = False, preferINLJ = 0,
                          cartesianJoin = False\<rparr>
                in case joinHints b1 leftAlias rightAlias j0 of
                     None \<Rightarrow> (Val None, b1\<lparr>err := Some ErrHintsConflict\<rparr>)
                   | Some j1 \<Rightarrow>
                       if natural then
                         (case coalesceCommonColumns j1 l r (tp = RightJoin) [] of
                            Panic \<Rightarrow> (Panic, b1)
                          | Val (Inl e) \<Rightarrow> (Val None, b1\<lparr>err := Some e\<rparr>)
                          | Val (Inr (sch, j2)) \<Rightarrow>
                              (Val (Some (Plan joinID sch [l, r] (JoinP (joinTypeOf tp l r j2)))), b1))
                       else (case using of
                         Some cols \<Rightarrow>
                           (case coalesceCommonColumns j1 l r (tp = RightJoin) (usingFilterOf cols) of
                              Panic \<Rightarrow> (Panic, b1)
                            | Val (Inl e) \<Rightarrow> (Val None, b1\<lparr>err := Some e\<rparr>)
                            | Val (Inr (sch, j2)) \<Rightarrow>
                                (Val (Some (Plan joinID sch [l, r] (JoinP (joinTypeOf tp l r j2)))), b1))
                       | None \<Rightarrow>
                           (case onExpr of
                              Some e \<Rightarrow>
                                (case rewrite C e (Plan joinID newSchema [l, r] (JoinP j1)) [] False b1 of
                                   (Inl er, b2) \<Rightarrow> (Val None, b2\<lparr>err := Some er\<rparr>)
                                 | (Inr (onE, np), b2) \<Rightarrow>
                                     if onE = NilExpression then (Panic, b2)
                                     else if IsCorrelated C onE then (Val None, b2\<lparr>err := Some ErrOnSubquery\<rparr>)
                                     else (Val (Some (Plan joinID newSchema [l, r]
                                                 (JoinP (joinTypeOf tp l r
                                                    (attachOnConds C j1 l r (SplitCNFItems C onE)))))), b2))
                            | None \<Rightarrow>
                                (Val (Some (Plan joinID newSchema [l, r]
                                        (JoinP (joinTypeOf tp l r (j1\<lparr>cartesianJoin := True\<rparr>))))), b1)))))
      | _ \<Rightarrow> (Panic, b))))"

text \<open>
  What buildResultSetNode does with the plan of a table source: the test of \<open>b.err\<close>,
  then the alias. A nil plan without error would panic at \<open>p.Schema()\<close> when the
  source has an alias.
\<close>

definition tableSourceRest :: "CIStr \<Rightarrow> Plan option \<Rightarrow> planBuilder \<Rightarrow> Plan option res \<times> planBuilder" where
  "tableSourceRest asName p b =
     (if err b \<noteq> None then (Val None, b)
      else case p of
        None \<Rightarrow> if strL asName \<noteq> [] then (Panic, b) else (Val None, b)
      | Some q \<Rightarrow>
          (let q1 = (case payload q of
                       DataSourceP a tname nch \<Rightarrow>
                         Plan (plan_id q) (schema q) (children q) (DataSourceP (Some asName) tname nch)
                     | _ \<Rightarrow> q)
           in if strL asName \<noteq> [] then
                (Val (Some (Plan (plan_id q1)
                         ((schema q1)\<lparr>Columns := map (\<lambda>col. col\<lparr>TblName := asName, DBName := NewCIStr []\<rparr>)
                                                   (Columns (schema q1))\<rparr>)
                         (children q1) (payload q1))), b)
              else (Val (Some q1), b)))"

subsection \<open>UNION\<close>

text \<open>
  The type merge of buildUnion for one branch: the types of the union's columns, updated
  from the columns of the branch. The source updates the type objects in place, and clones
  share them, so it updates the types of the first branch's columns as well; the model
  leaves the branches as they are.
\<close>

definition mergeTypes :: "collaborators \<Rightarrow> Column list \<Rightarrow> Column list \<Rightarrow> Column list" where
  "mergeTypes C firstCols cols =
     map (\<lambda>(fc, col).
            (let schemaTp = RetType fc; colTp = RetType col;
                 d = max (Decimal colTp) (Decimal schemaTp);
                 fl = max (Flen colTp - Decimal colTp) (Flen schemaTp - d) + d
             in fc\<lparr>RetType := \<lparr>Tp = MergeFieldType C (Tp schemaTp) (Tp colTp), Flen = fl, Decimal = d\<rparr>\<rparr>))
       (zip firstCols cols)"

text \<open>The projection buildUnion wraps around a branch that is not one.\<close>

definition wrapBranch :: "Plan \<Rightarrow> planBuilder \<Rightarrow> Plan \<times> planBuilder" where
  "wrapBranch sel b =
     (case payload sel of
        ProjectionP es \<Rightarrow> (sel, b)
      | _ \<Rightarrow>
          (case init_id ''Projection'' (setFlags {flagEliminateProjection} b) of
             (projID, b1) \<Rightarrow>
               (Plan projID
                  ((Clone (schema sel))\<lparr>Columns := map (\<lambda>col. col\<lparr>FromID := projID\<rparr>) (Columns (schema sel))\<rparr>)
                  [sel] (ProjectionP (Column2Exprs (Columns (schema sel)))), b1)))"

text \<open>
  The loop of buildUnion over the built branches: \<open>firstCols\<close> are the columns of
  \<open>firstSchema\<close> and \<open>done\<close> the branches already checked and wrapped.
\<close>

fun unionLoop ::
  "collaborators \<Rightarrow> Plan option list \<Rightarrow> Column list \<Rightarrow> Plan list \<Rightarrow> planBuilder
     \<Rightarrow> (Column list \<times> Plan list) option res \<times> planBuilder" where
  "unionLoop C [] firstCols done b = (Val (Some (firstCols, done)), b)"
| "unionLoop C (None # rest) firstCols done b = (Panic, b)"
| "unionLoop C (Some sel # rest) firstCols done b =
     (if length firstCols \<noteq> Len (schema sel) then (Val None, b\<lparr>err := Some ErrUnionColumns\<rparr>)
      else case wrapBranch sel b of
             (sel', b1) \<Rightarrow>
               unionLoop C rest (mergeTypes C firstCols (Columns (schema sel'))) (done @ [sel']) b1)"

text \<open>The end of buildUnion: DISTINCT, ORDER BY and LIMIT over the union node.\<close>

definition unionTail ::
  "collaborators \<Rightarrow> Plan \<Rightarrow> bool \<Rightarrow> ByItem list option \<Rightarrow> Limit option \<Rightarrow> planBuilder
     \<Rightarrow> Plan option res \<times> planBuilder" where
  "unionTail C u dist ob lim b =
     (case (if dist then buildDistinct u (Len (schema u)) b else (u, b)) of
        (p1, b1) \<Rightarrow>
          (case (case ob of None \<Rightarrow> (Some p1, b1) | Some items \<Rightarrow> buildSort C p1 items [] b1) of
             (p2, b2) \<Rightarrow>
               (case lim of
                  None \<Rightarrow> (Val p2, b2)
                | Some l \<Rightarrow> buildLimit (StrToUint C) p2 l b2)))"

text \<open>
  buildUnion after its branches are built. \<open>u.children[0]\<close> panics when there is no
  branch, and \<open>Schema()\<close> on a nil one.
\<close>

definition buildUnionRest ::
  "collaborators \<Rightarrow> string \<Rightarrow> Plan option list \<Rightarrow> bool \<Rightarrow> ByItem list option \<Rightarrow> Limit option
     \<Rightarrow> planBuilder \<Rightarrow> Plan option res \<times> planBuilder" where
  "buildUnionRest C unionID branches dist ob lim b =
     (case branches of
        [] \<Rightarrow> (Panic, b)
      | None # rest \<Rightarrow> (Panic, b)
      | Some first # rest \<Rightarrow>
          (case unionLoop C branches (Columns (Clone (schema first))) [] b of
             (Panic, b1) \<Rightarrow> (Panic, b1)
           | (Val None, b1) \<Rightarrow> (Val None, b1)
           | (Val (Some (firstCols, kids)), b1) \<Rightarrow>
               unionTail C
                 (Plan unionID
                    ((Clone (schema first))\<lparr>Columns := map (\<lambda>v. v\<lparr>FromID := unionID, DBName := NewCIStr []\<rparr>) firstCols\<rparr>)
                    kids UnionP)
                 dist ob lim b1))"

subsection \<open>SELECT\<close>

text \<open>
  The idiom \<open>p = b.buildX(...); if b.err != nil { return nil }\<close> followed by the rest
  \<open>k\<close> of buildSelect. A step hands back a nil plan only when it has set the error;
  the rest of the function would panic on a nil plan.
\<close>

definition bail ::
  "Plan option \<times> planBuilder \<Rightarrow> (Plan \<Rightarrow> planBuilder \<Rightarrow> Plan option res \<times> planBuilder)
     \<Rightarrow> Plan option res \<times> planBuilder" where
  "bail r k =
     (case r of
        (p, b) \<Rightarrow>
          if err b \<noteq> None then (Val None, b)
          else (case p of None \<Rightarrow> (Panic, b) | Some q \<Rightarrow> k q b))"

text \<open>The end of buildSelect: the handle counter and the projection that trims the auxiliary columns.\<close>

definition selectTail ::
  "SelectLockType \<Rightarrow> nat \<Rightarrow> Plan \<Rightarrow> planBuilder \<Rightarrow> Plan option res \<times> planBuilder" where
  "selectTail lock oldLen p b =
     (let b1 = (if lock = SelectLockForUpdate then b\<lparr>needColHandle := needColHandle b - 1\<rparr> else b)
      in if oldLen \<noteq> Len (schema p) then
           (case init_id ''Projection'' b1 of
              (projID, b2) \<Rightarrow>
                (Val (Some (Plan projID
                        (NewSchema (map (\<lambda>col. col\<lparr>FromID := projID\<rparr>)
                                      (take oldLen (Columns (Clone (schema p))))))
                        [p] (ProjectionP (Column2Exprs (take oldLen (Columns (schema p))))))), b2))
         else (Val (Some p), b1))"

definition selectLimit ::
  "collaborators \<Rightarrow> SelectStmt \<Rightarrow> nat \<Rightarrow> Plan \<Rightarrow> planBuilder \<Rightarrow> Plan option res \<times> planBuilder" where
  "selectLimit C sel oldLen p b =
     (case selLimit sel of
        None \<Rightarrow> selectTail (LockTp sel) oldLen p b
      | Some l \<Rightarrow>
          (case buildLimit (StrToUint C) (Some p) l b of
             (Panic, b1) \<Rightarrow> (Panic, b1)
           | (Val q, b1) \<Rightarrow> bail (q, b1) (selectTail (LockTp sel) oldLen)))"

definition selectSort ::
  "collaborators \<Rightarrow> SelectStmt \<Rightarrow> resolved \<Rightarrow> nat \<Rightarrow> Plan \<Rightarrow> planBuilder \<Rightarrow> Plan option res \<times> planBuilder" where
  "selectSort C sel R oldLen p b =
     (case resOrderBy R of
        None \<Rightarrow> selectLimit C sel oldLen p b
      | Some items \<Rightarrow> bail (buildSort C p items (orderMap R) b) (selectLimit C sel oldLen))"

definition selectDistinct ::
  "collaborators \<Rightarrow> SelectStmt \<Rightarrow> resolved \<Rightarrow> nat \<Rightarrow> Plan \<Rightarrow> planBuilder \<Rightarrow> Plan option res \<times> planBuilder" where
  "selectDistinct C sel R oldLen p b =
     (if Distinct sel then
        (case buildDistinct p oldLen b of (q, b1) \<Rightarrow> bail (Some q, b1) (selectSort C sel R oldLen))
      else selectSort C sel R oldLen p b)"

definition selectHaving ::
  "collaborators \<Rightarrow> SelectStmt \<Rightarrow> resolved \<Rightarrow> nat \<Rightarrow> Plan \<Rightarrow> planBuilder \<Rightarrow> Plan option res \<times> planBuilder" where
  "selectHaving C sel R oldLen p b =
     (case resHaving R of
        None \<Rightarrow> selectDistinct C sel R oldLen p b
      | Some h \<Rightarrow> bail (buildSelection C p h (havingMap R) b) (selectDistinct C sel R oldLen))"

definition selectProjection ::
  "collaborators \<Rightarrow> SelectStmt \<Rightarrow> resolved \<Rightarrow> aggMapper \<Rightarrow> Plan \<Rightarrow> planBuilder
     \<Rightarrow> Plan option res \<times> planBuilder" where
  "selectProjection C sel R totalMap p b =
     (case buildProjection C p (resFields R) totalMap b of
        (Panic, b1) \<Rightarrow> (Panic, b1)
      | (Val (q, oldLen), b1) \<Rightarrow> bail (q, b1) (selectHaving C sel R oldLen))"

text \<open>\<open>aggIndexMap[v]\<close>, which is 0 for a missing key.\<close>

definition aggIndex :: "(nat \<times> nat) list \<Rightarrow> int \<Rightarrow> int" where
  "aggIndex aggIndexMap v = (case map_of aggIndexMap (nat v) of Some j \<Rightarrow> int j | None \<Rightarrow> 0)"

definition selectAgg ::
  "collaborators \<Rightarrow> SelectStmt \<Rightarrow> resolved \<Rightarrow> bool \<Rightarrow> Expression list \<Rightarrow> Plan \<Rightarrow> planBuilder
     \<Rightarrow> Plan option res \<times> planBuilder" where
  "selectAgg C sel R hasAgg gbyCols p b =
     (if hasAgg then
        (case extractAggFuncs (resFields R) of
           Panic \<Rightarrow> (Panic, b)
         | Val (aggFuncs, totalMap) \<Rightarrow>
             if err b \<noteq> None then (Val None, b)
             else
               (case buildAggregation C p aggFuncs gbyCols b of
                  ((q, aggIndexMap), b1) \<Rightarrow>
                    bail (q, b1)
                      (selectProjection C sel R (map (\<lambda>(k, v). (k, aggIndex aggIndexMap v)) totalMap))))
      else selectProjection C sel R [] p b)"

definition selectLock ::
  "collaborators \<Rightarrow> SelectStmt \<Rightarrow> resolved \<Rightarrow> bool \<Rightarrow> Expression list \<Rightarrow> Plan \<Rightarrow> planBuilder
     \<Rightarrow> Plan option res \<times> planBuilder" where
  "selectLock C sel R hasAgg gbyCols p b =
     (if LockTp sel \<noteq> SelectLockNone then
        (case buildSelectLock C p (LockTp sel) b of (q, b1) \<Rightarrow> selectAgg C sel R hasAgg gbyCols q b1)
      else selectAgg C sel R hasAgg gbyCols p b)"

definition selectWhere ::
  "collaborators \<Rightarrow> SelectStmt \<Rightarrow> resolved \<Rightarrow> bool \<Rightarrow> Expression list \<Rightarrow> Plan \<Rightarrow> planBuilder
     \<Rightarrow> Plan option res \<times> planBuilder" where
  "selectWhere C sel R hasAgg gbyCols p b =
     (case Where sel of
        None \<Rightarrow> selectLock C sel R hasAgg gbyCols p b
      | Some w \<Rightarrow> bail (buildSelection C p w [] b) (selectLock C sel R hasAgg gbyCols))"

text \<open>
  The call of resolveHavingAndOrderBy in buildSelect. The source goes on to the WHERE
  clause without a test of \<open>b.err\<close>.
\<close>

definition selectResolve ::
  "collaborators \<Rightarrow> SelectStmt \<Rightarrow> bool \<Rightarrow> SelectField list \<Rightarrow> Expression list \<Rightarrow> ByItem list option
     \<Rightarrow> Plan \<Rightarrow> planBuilder \<Rightarrow> Plan option res \<times> planBuilder" where
  "selectResolve C sel hasAgg flds gbyCols gby p b =
     (case resolveHavingAndOrderBy C (Having sel) (OrderBy sel) gby flds p b of
        (Panic, b1) \<Rightarrow> (Panic, b1)
      | (Val R, b1) \<Rightarrow> selectWhere C sel R hasAgg gbyCols p b1)"

definition selectGroupBy ::
  "collaborators \<Rightarrow> SelectStmt \<Rightarrow> bool \<Rightarrow> SelectField list \<Rightarrow> Plan \<Rightarrow> planBuilder
     \<Rightarrow> Plan option res \<times> planBuilder" where
  "selectGroupBy C sel hasAgg flds p b =
     (case GroupBy sel of
        None \<Rightarrow> selectResolve C sel hasAgg flds [] None p b
      | Some items \<Rightarrow>
          (case resolveGbyExprs C p items flds b of
             (Panic, b1) \<Rightarrow> (Panic, b1)
           | (Val r, b1) \<Rightarrow>
               if err b1 \<noteq> None then (Val None, b1)
               else
                 (case r of
                    None \<Rightarrow> (Panic, b1)
                  | Some (p', gbyCols, items') \<Rightarrow> selectResolve C sel hasAgg flds gbyCols (Some items') p' b1)))"

text \<open>buildSelect from the expansion of the wildcards on; \<open>p\<close> is the plan of the FROM clause.\<close>

definition buildSelectRest ::
  "collaborators \<Rightarrow> SelectStmt \<Rightarrow> bool \<Rightarrow> Plan \<Rightarrow> planBuilder \<Rightarrow> Plan option res \<times> planBuilder" where
  "buildSelectRest C sel hasAgg p b =
     (case unfoldWildStar p (Fields sel) b of
        (flds, b1) \<Rightarrow>
          if err b1 \<noteq> None then (Val None, b1)
          else selectGroupBy C sel hasAgg flds p b1)"

subsection \<open>The entry points\<close>

text \<open>
  buildResultSetNode, buildJoin (the equations for a join node), buildSelect and buildUnion,
  which call each other; \<open>buildSource\<close> is the inner switch of buildResultSetNode on the
  source of a table source and \<open>buildSelects\<close> the first loop of buildUnion, with
  \<open>None\<close> for its \<open>return nil\<close>. The deferred popTableHints of buildSelect runs on
  every way out of the function.
\<close>

fun buildResultSetNode :: "collaborators \<Rightarrow> ResultSetNode \<Rightarrow> planBuilder \<Rightarrow> Plan option res \<times> planBuilder"
and buildSource :: "collaborators \<Rightarrow> TableSourceSrc \<Rightarrow> planBuilder \<Rightarrow> Plan option res \<times> planBuilder"
and buildSelect :: "collaborators \<Rightarrow> SelectStmt \<Rightarrow> planBuilder \<Rightarrow> Plan option res \<times> planBuilder"
and buildUnion :: "collaborators \<Rightarrow> UnionStmt \<Rightarrow> planBuilder \<Rightarrow> Plan option res \<times> planBuilder"
and buildSelects :: "collaborators \<Rightarrow> SelectStmt list \<Rightarrow> planBuilder \<Rightarrow> Plan option list option res \<times> planBuilder"
where
  "buildResultSetNode C (JoinNode l None tp natural using onExpr) b = buildResultSetNode C l b"
| "buildResultSetNode C (JoinNode l (Some r) tp natural using onExpr) b =
     (case buildResultSetNode C l (setFlags {flagPredicatePushDown} b) of
        (Panic, b1) \<Rightarrow> (Panic, b1)
      | (Val leftPlan, b1) \<Rightarrow>
          (case buildResultSetNode C r b1 of
             (Panic, b2) \<Rightarrow> (Panic, b2)
           | (Val rightPlan, b2) \<Rightarrow> buildJoinRest C tp natural using onExpr leftPlan rightPlan b2))"
| "buildResultSetNode C (TableSource src asName) b =
     (case buildSource C src b of
        (Panic, b1) \<Rightarrow> (Panic, b1)
      | (Val p, b1) \<Rightarrow> tableSourceRest asName p b1)"
| "buildResultSetNode C (SelectNode sel) b = buildSelect C sel b"
| "buildResultSetNode C (UnionNode u) b = buildUnion C u b"
| "buildResultSetNode C (OtherNode k) b = (Val None, b\<lparr>err := Some ErrUnsupportedType\<rparr>)"
| "buildSource C (SrcSelect sel) b = buildSelect C sel b"
| "buildSource C (SrcUnion u) b = buildUnion C u b"
| "buildSource C (SrcTableName tn) b = (case buildDataSource C tn b of (p, b1) \<Rightarrow> (Val p, b1))"
| "buildSource C (SrcOther k) b = (Val None, b\<lparr>err := Some ErrUnsupportedType\<rparr>)"
| "buildSelect C (SelectStmt hints lock from flds gby having whr dist ob lim) b =
     (case (case hints of None \<Rightarrow> (False, b) | Some hs \<Rightarrow> pushTableHints hs b) of
        (pushed, b1) \<Rightarrow>
          (case (case (case from of
                         Some n \<Rightarrow>
                           buildResultSetNode C n
                             (if lock = SelectLockForUpdate
                              then b1\<lparr>needColHandle := needColHandle b1 + 1\<rparr> else b1)
                       | None \<Rightarrow>
                           (case buildTableDual
                                   (if lock = SelectLockForUpdate
                                    then b1\<lparr>needColHandle := needColHandle b1 + 1\<rparr> else b1) of
                              (d, b3) \<Rightarrow> (Val (Some d), b3))) of
                   (Panic, b3) \<Rightarrow> (Panic, b3)
                 | (Val p, b3) \<Rightarrow>
                     if err b3 \<noteq> None then (Val None, b3)
                     else
                       (case p of
                          None \<Rightarrow> (Panic, b3)
                        | Some q \<Rightarrow>
                            buildSelectRest C (SelectStmt hints lock from flds gby having whr dist ob lim)
                              (detectSelectAgg C (SelectStmt hints lock from flds gby having whr dist ob lim))
                              q b3)) of
             (r, b4) \<Rightarrow>
               if pushed then (case popTableHints b4 of None \<Rightarrow> (Panic, b4) | Some b5 \<Rightarrow> (r, b5))
               else (r, b4)))"
| "buildUnion C (UnionStmt sels dist ob lim) b =
     (case init_id ''Union'' b of
        (unionID, b1) \<Rightarrow>
          (case buildSelects C sels b1 of
             (Panic, b2) \<Rightarrow> (Panic, b2)
           | (Val None, b2) \<Rightarrow> (Val None, b2)
           | (Val (Some branches), b2) \<Rightarrow> buildUnionRest C unionID branches dist ob lim b2))"
| "buildSelects C [] b = (Val (Some []), b)"
| "buildSelects C (sel # sels) b =
     (case buildSelect C sel b of
        (Panic, b1) \<Rightarrow> (Panic, b1)
      | (Val p, b1) \<Rightarrow>
          if err b1 \<noteq> None then (Val None, b1)
          else
            (case buildSelects C sels b1 of
               (Panic, b2) \<Rightarrow> (Panic, b2)
             | (Val None, b2) \<Rightarrow> (Val None, b2)
             | (Val (Some ps), b2) \<Rightarrow> (Val (Some (p # ps)), b2)))"

text \<open>buildJoin is buildResultSetNode on a join node.\<close>

definition buildJoin :: "collaborators \<Rightarrow> ResultSetNode \<Rightarrow> planBuilder \<Rightarrow> Plan option res \<times> planBuilder" where
  "buildJoin C join b = buildResultSetNode C join b"

text \<open>
  Collaborators that leave the builder's stack of table hints as it is. The rewriter of the
  repository builds the sub-queries it meets with buildSelect on the same builder, which
  restores the stack, as the theorem on buildSelect below says of every SELECT.
\<close>

definition keepsHints :: "collaborators \<Rightarrow> bool" where
  "keepsHints C =
     ((\<forall>e p m s b. tableHintInfos (snd (rewrite C e p m s b)) = tableHintInfos b)
      \<and> (\<forall>p l b. tableHintInfos (snd (buildSelectLock C p l b)) = tableHintInfos b))"

text \<open>A hint the builder knows.\<close>

definition recognizedHint :: "TableOptimizerHint \<Rightarrow> bool" where
  "recognizedHint h = (strL (HintName h) = TiDBMergeJoin \<or> strL (HintName h) = TiDBIndexNestedLoopJoin)"




text \<open>
  The flags of the resolver \<open>a'\<close> after a traversal that started in \<open>a\<close>: the phase
  and the GROUP BY items are the same and \<open>inExpr\<close> is never cleared; when the traversal
  ran to its end (\<open>complete\<close>), \<open>inExpr\<close> is set exactly if it was set before or the
  traversal entered a node that sets it (\<open>compound\<close>), and \<open>inAggFunc\<close> is clear if
  it was clear before.
\<close>

definition flagsAfter ::
  "havingAndOrderbyExprResolver \<Rightarrow> havingAndOrderbyExprResolver \<Rightarrow> bool \<Rightarrow> bool \<Rightarrow> bool" where
  "flagsAfter a a' complete compound =
     (orderBy a' = orderBy a \<and> gbyItems a' = gbyItems a \<and> (inExpr a \<longrightarrow> inExpr a')
      \<and> (complete \<longrightarrow> inExpr a' = (inExpr a \<or> compound) \<and> (\<not> inAggFunc a \<longrightarrow> \<not> inAggFunc a')))"

text \<open>
  The branches of a UNION as the first loop of buildUnion leaves them, whether that loop built
  every branch to a plan, and the lengths of the branches' schemas.
\<close>

definition builtBranches :: "collaborators \<Rightarrow> SelectStmt list \<Rightarrow> planBuilder \<Rightarrow> Plan option list" where
  "builtBranches C sels b =
     (case fst (buildSelects C sels (snd (init_id ''Union'' b))) of
        Val (Some branches) \<Rightarrow> branches
      | _ \<Rightarrow> [])"

definition branchesBuilt :: "collaborators \<Rightarrow> SelectStmt list \<Rightarrow> planBuilder \<Rightarrow> bool" where
  "branchesBuilt C sels b =
     (case fst (buildSelects C sels (snd (init_id ''Union'' b))) of
        Val (Some branches) \<Rightarrow> branches \<noteq> [] \<and> list_all (\<lambda>p. p \<noteq> None) branches
      | _ \<Rightarrow> False)"

definition arities :: "collaborators \<Rightarrow> SelectStmt list \<Rightarrow> planBuilder \<Rightarrow> nat list" where
  "arities C sels b =
     map (\<lambda>p. case p of Some q \<Rightarrow> Len (schema q) | None \<Rightarrow> 0) (builtBranches C sels b)"

subsection \<open>Example inputs\<close>

text \<open>Concrete values on which the theorems below are instantiated.\<close>

definition strToUint_ex :: "string \<Rightarrow> error + 64 word" where
  "strToUint_ex s = (if s = ''10'' then Inr 10 else Inl (ErrExternal 0))"

definition builder0 :: planBuilder where
  "builder0 = \<lparr>err = None, allocator = 0, optFlag = {}, tableHintInfos = [], needColHandle = 0,
     inUpdateStmt = False, visitInfos = [], colMapper = [], outerSchemas = [],
     ctx = \<lparr>CurrentDB = ''test'', UseDAGPlanBuilder = False, Txn = None\<rparr>\<rparr>"

definition dual0 :: Plan where
  "dual0 = Plan ''TableDual_0'' (NewSchema []) [] (TableDualP 1)"

definition mkColumnName :: "string \<Rightarrow> string \<Rightarrow> ColumnName" where
  "mkColumnName tbl name = \<lparr>cnSchema = NewCIStr [], cnTable = NewCIStr tbl, cnName = NewCIStr name\<rparr>"

definition colField :: "string \<Rightarrow> string \<Rightarrow> SelectField" where
  "colField tbl name = \<lparr>Auxiliary = False, Expr = Some (ColumnNameExpr (mkColumnName tbl name) None),
     AsName = NewCIStr [], WildCard = None, Text = name\<rparr>"

definition exprField :: "ExprNode \<Rightarrow> string \<Rightarrow> SelectField" where
  "exprField e alias = \<lparr>Auxiliary = False, Expr = Some e, AsName = NewCIStr alias, WildCard = None,
     Text = alias\<rparr>"

definition auxField :: "ExprNode \<Rightarrow> string \<Rightarrow> SelectField" where
  "auxField e alias = \<lparr>Auxiliary = True, Expr = Some e, AsName = NewCIStr alias, WildCard = None,
     Text = []\<rparr>"

definition starField :: "string \<Rightarrow> string \<Rightarrow> SelectField" where
  "starField dbn tbl = \<lparr>Auxiliary = False, Expr = None, AsName = NewCIStr [],
     WildCard = Some \<lparr>wcSchema = NewCIStr dbn, wcTable = NewCIStr tbl\<rparr>, Text = []\<rparr>"

definition mkColumn :: "string \<Rightarrow> string \<Rightarrow> string \<Rightarrow> int \<Rightarrow> Column" where
  "mkColumn from tbl name pos = \<lparr>FromID = from, DBName = NewCIStr ''test'', TblName = NewCIStr tbl,
     ColName = NewCIStr name, Position = pos, IsAggOrSubq = False, ID = pos + 1, Index = 0,
     RetType = \<lparr>Tp = 3, Flen = 11, Decimal = 0\<rparr>\<rparr>"

definition source1 :: Plan where
  "source1 = Plan ''TableScan_1'' (NewSchema [mkColumn ''TableScan_1'' ''t1'' ''a'' 0]) []
     (DataSourceP None (NewCIStr ''t1'') False)"

definition emptyJoin :: JoinInfo where
  "emptyJoin = \<lparr>joinType = InnerJoin, EqualConditions = [], LeftConditions = [], RightConditions = [],
     OtherConditions = [], redundantSchema = None, DefaultValues = 0, preferMergeJoin = False,
     preferINLJ = 0, cartesianJoin = False\<rparr>"

definition tableAB :: Plan where
  "tableAB = Plan ''TableScan_1''
     (NewSchema [mkColumn ''TableScan_1'' ''t1'' ''a'' 0, mkColumn ''TableScan_1'' ''t1'' ''b'' 1]) []
     (DataSourceP None (NewCIStr ''t1'') False)"

definition tableBC :: Plan where
  "tableBC = Plan ''TableScan_2''
     (NewSchema [mkColumn ''TableScan_2'' ''t2'' ''b'' 0, mkColumn ''TableScan_2'' ''t2'' ''c'' 1]) []
     (DataSourceP None (NewCIStr ''t2'') False)"

definition tableXYA :: Plan where
  "tableXYA = Plan ''TableScan_1''
     (NewSchema [mkColumn ''TableScan_1'' ''t1'' ''x'' 0, mkColumn ''TableScan_1'' ''t1'' ''y'' 1,
                 mkColumn ''TableScan_1'' ''t1'' ''a'' 2]) []
     (DataSourceP None (NewCIStr ''t1'') False)"

definition tableA :: Plan where
  "tableA = Plan ''TableScan_2'' (NewSchema [mkColumn ''TableScan_2'' ''t2'' ''a'' 0]) []
     (DataSourceP None (NewCIStr ''t2'') False)"

text \<open>The (table, column) names of an output schema and of the two column lists of a loop state.\<close>

definition outNames :: "(error + Schema \<times> JoinInfo) res \<Rightarrow> (error + (string \<times> string) list) res" where
  "outNames r =
     (case r of
        Panic \<Rightarrow> Panic
      | Val (Inl e) \<Rightarrow> Val (Inl e)
      | Val (Inr (s, j)) \<Rightarrow> Val (Inr (map (\<lambda>c. (strL (TblName c), strL (ColName c))) (Columns s))))"

definition stepNames :: "coalesceState res \<Rightarrow> (string list \<times> string list) res" where
  "stepNames r =
     (case r of
        Panic \<Rightarrow> Panic
      | Val s \<Rightarrow> Val (map (\<lambda>c. strL (ColName c)) (lColumns s), map (\<lambda>c. strL (ColName c)) (rColumns s)))"

definition stateABBC :: coalesceState where
  "stateABBC = \<lparr>lColumns = Columns (schema tableAB), rColumns = Columns (schema tableBC),
     commonLen = 0, usingNames = []\<rparr>"

text \<open>
  A small rewriter: a column reference becomes the first column of the plan's schema with
  that name (an error when there is none), a literal a constant, an EXISTS sub-query the
  nil expression, anything else a scalar function without arguments. It leaves the plan
  and the builder as they are.
\<close>

definition rewrite0 ::
  "ExprNode \<Rightarrow> Plan \<Rightarrow> aggMapper \<Rightarrow> bool \<Rightarrow> planBuilder \<Rightarrow> (error + Expression \<times> Plan) \<times> planBuilder" where
  "rewrite0 e p m asScalar b =
     (case e of
        ColumnNameExpr n t \<Rightarrow>
          (case find (\<lambda>c. strL (ColName c) = strL (cnName n)) (Columns (schema p)) of
             Some c \<Rightarrow> (Inr (ColumnExpr c, p), b)
           | None \<Rightarrow> (Inl (ErrExternal 1), b))
      | ValueExpr d txt \<Rightarrow> (Inr (Constant 0, p), b)
      | ExistsSubqueryExpr k \<Rightarrow> (Inr (NilExpression, p), b)
      | _ \<Rightarrow> (Inr (ScalarFunction ''f'' [], p), b))"

definition findColumn0 :: "Schema \<Rightarrow> ColumnName \<Rightarrow> error + Column option" where
  "findColumn0 sch n =
     Inr (find (\<lambda>c. strL (ColName c) = strL (cnName n)
                  \<and> (strL (cnTable n) = [] \<or> strL (cnTable n) = strL (TblName c))) (Columns sch))"

definition intType :: FieldType where
  "intType = \<lparr>Tp = 3, Flen = 11, Decimal = 0\<rparr>"

definition table1 :: Table where
  "table1 = \<lparr>tblID = 1, tblName = NewCIStr ''t1'', PKIsHandle = False,
     Cols = [\<lparr>tcName = NewCIStr ''a'', tcID = 1, tcFieldType = intType, tcPriKey = False\<rparr>],
     WritableCols = [\<lparr>tcName = NewCIStr ''a'', tcID = 1, tcFieldType = intType, tcPriKey = False\<rparr>]\<rparr>"

definition catalog0 :: "CIStr \<Rightarrow> CIStr \<Rightarrow> error + Table" where
  "catalog0 dbn name = (if strL name = ''t1'' then Inr table1 else Inl (ErrExternal 2))"

definition hasAgg0 :: "SelectStmt \<Rightarrow> bool" where
  "hasAgg0 sel =
     list_ex (\<lambda>f. case Expr f of Some (AggregateFuncExpr g args d) \<Rightarrow> True | _ \<Rightarrow> False) (Fields sel)"

definition buildSelectLock0 :: "Plan \<Rightarrow> SelectLockType \<Rightarrow> planBuilder \<Rightarrow> Plan \<times> planBuilder" where
  "buildSelectLock0 p lock b =
     (case init_id ''SelectLock'' b of (i, b') \<Rightarrow> (Plan i (schema p) [p] (SelectLockP 0), b'))"

definition collab0 :: collaborators where
  "collab0 = \<lparr>rewrite = rewrite0, FindColumn = findColumn0, StrToUint = strToUint_ex,
     SplitCNFItems = (\<lambda>e. [e]), IsCorrelated = (\<lambda>e. False),
     AggGetType = (\<lambda>f. intType), ExprGetType = (\<lambda>e. intType), MergeFieldType = max,
     TableByName = catalog0, detectSelectAgg = hasAgg0, buildSelectLock = buildSelectLock0,
     attachOnConds = (\<lambda>j l r conds. j\<lparr>OtherConditions := OtherConditions j @ conds\<rparr>),
     TrimComment = (\<lambda>s. s), TrimNonGraphic = (\<lambda>s. s)\<rparr>"

definition colA :: ExprNode where
  "colA = ColumnNameExpr (mkColumnName [] ''a'') None"

definition sumA :: AggregateFunc where
  "sumA = \<lparr>afF = ''sum'', afArgs = [colA], afDistinct = False\<rparr>"

text \<open>The id of a built aggregation and the owner ids of the columns of its schema.\<close>

definition ownerIDs :: "(Plan option \<times> (nat \<times> nat) list) \<times> planBuilder \<Rightarrow> (string \<times> string list) option" where
  "ownerIDs r =
     (case fst (fst r) of
        None \<Rightarrow> None
      | Some agg \<Rightarrow> Some (plan_id agg, map FromID (Columns (schema agg))))"

definition sumOfA :: AggregationFunction where
  "sumOfA = \<lparr>aggName = ''sum'', aggArgs = [ColumnExpr (mkColumn ''TableScan_1'' ''t1'' ''a'' 0)],
     aggDistinct = False\<rparr>"

definition aggSumA :: Plan where
  "aggSumA = Plan ''Aggr_1''
     (NewSchema [aggColumn collab0 ''Aggr_1'' 0 sumOfA, mkColumn ''TableScan_1'' ''t1'' ''a'' 0]) [source1]
     (AggregationP
        [sumOfA, \<lparr>aggName = AggFuncFirstRow, aggArgs = [ColumnExpr (mkColumn ''TableScan_1'' ''t1'' ''a'' 0)],
                  aggDistinct = False\<rparr>] [] [])"

definition whereAandExists :: ExprNode where
  "whereAandExists = BinaryOperationExpr ''and'' colA (ExistsSubqueryExpr 0)"

definition selectionA :: Plan where
  "selectionA = Plan ''Selection_1'' (schema source1) [source1]
     (SelectionP [ColumnExpr (mkColumn ''TableScan_1'' ''t1'' ''a'' 0)])"

definition builderSel :: planBuilder where
  "builderSel = builder0\<lparr>allocator := 1, optFlag := {flagPredicatePushDown}\<rparr>"








text \<open>
  Statements over the catalog of the example collaborators, which knows the table t1(a) only:
  \<open>SELECT a FROM t1\<close>, \<open>SELECT a, a FROM t1\<close>, the first with a merge-join hint,
  \<open>SELECT a FROM t1 WHERE a HAVING zz\<close>, \<open>SELECT a FROM t1 WHERE nosuch HAVING zz\<close>
  and the join \<open>t0 JOIN t1\<close>.
\<close>

definition missingSource :: ResultSetNode where
  "missingSource = TableSource (SrcTableName \<lparr>tnSchema = NewCIStr [], tnName = NewCIStr ''t0'', tnTableInfoID = 0\<rparr>) (NewCIStr [])"

definition t1Name :: TableName where
  "t1Name = \<lparr>tnSchema = NewCIStr [], tnName = NewCIStr ''t1'', tnTableInfoID = 1\<rparr>"

definition t1Source :: ResultSetNode where
  "t1Source = TableSource (SrcTableName t1Name) (NewCIStr [])"

definition fromT1 :: ResultSetNode where
  "fromT1 = JoinNode t1Source None CrossJoin False None None"

definition selA :: SelectStmt where
  "selA = SelectStmt None SelectLockNone (Some fromT1) [colField [] ''a''] None None None False None None"

definition selAA :: SelectStmt where
  "selAA = SelectStmt None SelectLockNone (Some fromT1) [colField [] ''a'', colField [] ''a''] None None None False None None"

definition smjHints :: "TableOptimizerHint list" where
  "smjHints = [\<lparr>HintName = NewCIStr ''TIDB_SMJ'', Tables = [NewCIStr ''t1'']\<rparr>]"

definition selHint :: SelectStmt where
  "selHint = SelectStmt (Some smjHints) SelectLockNone (Some fromT1) [colField [] ''a''] None None None False None None"

definition selBad :: SelectStmt where
  "selBad = SelectStmt None SelectLockNone (Some fromT1) [colField [] ''a''] None
     (Some (ColumnNameExpr (mkColumnName [] ''zz'') None)) (Some colA) False None None"

definition selBad2 :: SelectStmt where
  "selBad2 = SelectStmt None SelectLockNone (Some fromT1) [colField [] ''a''] None
     (Some (ColumnNameExpr (mkColumnName [] ''zz'') None))
     (Some (ColumnNameExpr (mkColumnName [] ''nosuch'') None)) False None None"

definition joinMissing :: ResultSetNode where
  "joinMissing = JoinNode missingSource (Some t1Source) CrossJoin False None None"

section \<open>Theorems\<close>

lemma getUint_accepted:
  "operand_ok f v \<Longrightarrow>
   (case v of None \<Rightarrow> Inr 0 | Some x \<Rightarrow> getUintForLimitOffset f x) = Inr (parsed f v)"
  by (cases v; cases "the v") (auto simp: operand_ok_def split: sum.splits)

lemma getUint_rejected:
  "\<not> operand_ok f v \<Longrightarrow>
   \<exists>e. (case v of None \<Rightarrow> Inr 0 | Some x \<Rightarrow> getUintForLimitOffset f x) = Inl e"
  by (cases v; cases "the v") (auto simp: operand_ok_def split: sum.splits)

subsection \<open>LIMIT operands\<close>

text \<open>
  C6. buildLimit parses OFFSET and COUNT as unsigned 64-bit integers. A uint64, an int64
  that is not negative, and a string that types.StrToUint converts are accepted
  (\<open>operand_ok\<close>; an absent operand is 0) and the Limit node carries the parsed values;
  when an operand is a negative int64, a value of another type or a string StrToUint rejects,
  the build fails: the plan is nil and the builder's error is ErrWrongArguments.
\<close>

theorem buildLimit_operands:
  "(operand_ok f (limOffset lim) \<and> operand_ok f (limCount lim) \<longrightarrow>
      (\<exists>i b'. buildLimit f (Some src) lim b =
          (Val (Some (Plan i (Clone (schema src)) [src]
                 (LimitP (parsed f (limOffset lim)) (parsed f (limCount lim))))), b')
        \<and> err b' = err b))
   \<and> (\<not> (operand_ok f (limOffset lim) \<and> operand_ok f (limCount lim)) \<longrightarrow>
        fst (buildLimit f p lim b) = Val None
      \<and> err (snd (buildLimit f p lim b)) = Some ErrWrongArguments)"
proof (intro conjI impI)
  assume ok: "operand_ok f (limOffset lim) \<and> operand_ok f (limCount lim)"
  show "\<exists>i b'. buildLimit f (Some src) lim b =
          (Val (Some (Plan i (Clone (schema src)) [src]
                 (LimitP (parsed f (limOffset lim)) (parsed f (limCount lim))))), b')
        \<and> err b' = err b"
    using getUint_accepted [of f "limOffset lim"] getUint_accepted [of f "limCount lim"] ok
    by (simp add: buildLimit_def Let_def init_id_def allocID_def)
next
  assume bad: "\<not> (operand_ok f (limOffset lim) \<and> operand_ok f (limCount lim))"
  show "fst (buildLimit f p lim b) = Val None"
  proof (cases "operand_ok f (limOffset lim)")
    case True
    with bad have "\<not> operand_ok f (limCount lim)" by simp
    from getUint_rejected [OF this] getUint_accepted [OF True] show ?thesis
      by (auto simp: buildLimit_def Let_def)
  next
    case False
    from getUint_rejected [OF this] show ?thesis
      by (auto simp: buildLimit_def Let_def)
  qed
  show "err (snd (buildLimit f p lim b)) = Some ErrWrongArguments"
  proof (cases "operand_ok f (limOffset lim)")
    case True
    with bad have "\<not> operand_ok f (limCount lim)" by simp
    from getUint_rejected [OF this] getUint_accepted [OF True] show ?thesis
      by (auto simp: buildLimit_def Let_def)
  next
    case False
    from getUint_rejected [OF this] show ?thesis
      by (auto simp: buildLimit_def Let_def)
  qed
qed

theorem buildLimit_operands_witness:
  "(\<exists>i b'. buildLimit strToUint_ex (Some dual0)
        \<lparr>limOffset = Some (ValInt64 5), limCount = Some (ValString ''10'')\<rparr> builder0 =
          (Val (Some (Plan i (Clone (schema dual0)) [dual0] (LimitP 5 10))), b')
        \<and> err b' = None)
   \<and> fst (buildLimit strToUint_ex (Some dual0)
        \<lparr>limOffset = Some (ValInt64 (- 1)), limCount = Some (ValUint64 3)\<rparr> builder0) = Val None
   \<and> err (snd (buildLimit strToUint_ex (Some dual0)
        \<lparr>limOffset = Some (ValInt64 (- 1)), limCount = Some (ValUint64 3)\<rparr> builder0))
       = Some ErrWrongArguments"
proof -
  have ok: "operand_ok strToUint_ex (limOffset \<lparr>limOffset = Some (ValInt64 5), limCount = Some (ValString ''10'')\<rparr>)
     \<and> operand_ok strToUint_ex (limCount \<lparr>limOffset = Some (ValInt64 5), limCount = Some (ValString ''10'')\<rparr>)"
    by (simp add: operand_ok_def strToUint_ex_def)
  have bad: "\<not> (operand_ok strToUint_ex (limOffset \<lparr>limOffset = Some (ValInt64 (- 1)), limCount = Some (ValUint64 3)\<rparr>)
     \<and> operand_ok strToUint_ex (limCount \<lparr>limOffset = Some (ValInt64 (- 1)), limCount = Some (ValUint64 3)\<rparr>))"
    by (simp add: operand_ok_def)
  from buildLimit_operands [of strToUint_ex
      "\<lparr>limOffset = Some (ValInt64 5), limCount = Some (ValString ''10'')\<rparr>" dual0 builder0] ok
  have 1: "\<exists>i b'. buildLimit strToUint_ex (Some dual0)
        \<lparr>limOffset = Some (ValInt64 5), limCount = Some (ValString ''10'')\<rparr> builder0 =
          (Val (Some (Plan i (Clone (schema dual0)) [dual0] (LimitP 5 10))), b')
        \<and> err b' = None"
    by (simp add: strToUint_ex_def builder0_def)
  from buildLimit_operands [of strToUint_ex
      "\<lparr>limOffset = Some (ValInt64 (- 1)), limCount = Some (ValUint64 3)\<rparr>" dual0 builder0 "Some dual0"] bad
  have 2: "fst (buildLimit strToUint_ex (Some dual0)
        \<lparr>limOffset = Some (ValInt64 (- 1)), limCount = Some (ValUint64 3)\<rparr> builder0) = Val None
   \<and> err (snd (buildLimit strToUint_ex (Some dual0)
        \<lparr>limOffset = Some (ValInt64 (- 1)), limCount = Some (ValUint64 3)\<rparr> builder0))
       = Some ErrWrongArguments"
    by blast
  from 1 2 show ?thesis by blast
qed

subsection \<open>Resolving against the select fields\<close>

lemma loop_step:
  "resolveFromSelectFields_loop v g (f # fs) i m idx =
     (if \<not> matched v g f then resolveFromSelectFields_loop v g fs (i + 1) m idx
      else case fieldCol f of
             None \<Rightarrow> Inr i
           | Some d \<Rightarrow> (case m of None \<Rightarrow> resolveFromSelectFields_loop v g fs (i + 1) (Some d) i
                        | Some c \<Rightarrow> if \<not> compatible c d then Inl (ErrAmbiguous (strL (cnName d)))
                                    else resolveFromSelectFields_loop v g fs (i + 1) m idx))"
  by (auto simp: matched_def fieldCol_def compatible_def split: option.splits ExprNode.splits)

lemma loop_aux:
  "list_all2 (\<lambda>f f'. (Auxiliary f \<and> Auxiliary f') \<or> f' = f) fs fs' \<Longrightarrow>
   resolveFromSelectFields_loop v g fs' i m idx = resolveFromSelectFields_loop v g fs i m idx"
proof (induction fs fs' arbitrary: i m idx rule: list_all2_induct)
  case Nil
  then show ?case by simp
next
  case (Cons f fs f' fs')
  from Cons.hyps(1) show ?case
  proof
    assume "Auxiliary f \<and> Auxiliary f'"
    then show ?thesis using Cons.IH by simp
  next
    assume "f' = f"
    then show ?thesis using Cons.IH by (simp add: loop_step del: resolveFromSelectFields_loop.simps split: option.splits)
  qed
qed

lemma loop_error:
  "resolveFromSelectFields_loop v g fs i m idx = Inl e \<Longrightarrow>
   \<exists>k d. k < length fs \<and> matched v g (fs ! k) \<and> fieldCol (fs ! k) = Some d
        \<and> e = ErrAmbiguous (strL (cnName d))
        \<and> ((\<exists>c. m = Some c \<and> \<not> compatible c d)
           \<or> (\<exists>j c. j < k \<and> matched v g (fs ! j) \<and> fieldCol (fs ! j) = Some c \<and> \<not> compatible c d))"
proof (induction fs arbitrary: i m idx)
  case Nil
  then show ?case by simp
next
  case (Cons f fs)
  show ?case
  proof (cases "matched v g f")
    case False
    with Cons.prems have "resolveFromSelectFields_loop v g fs (i + 1) m idx = Inl e"
      by (simp add: loop_step del: resolveFromSelectFields_loop.simps)
    from Cons.IH [OF this] obtain k d where
      k: "k < length fs" "matched v g (fs ! k)" "fieldCol (fs ! k) = Some d"
         "e = ErrAmbiguous (strL (cnName d))"
         "(\<exists>c. m = Some c \<and> \<not> compatible c d)
           \<or> (\<exists>j c. j < k \<and> matched v g (fs ! j) \<and> fieldCol (fs ! j) = Some c \<and> \<not> compatible c d)"
      by blast
    from k(5) have "(\<exists>c. m = Some c \<and> \<not> compatible c d)
           \<or> (\<exists>j c. j < Suc k \<and> matched v g ((f # fs) ! j) \<and> fieldCol ((f # fs) ! j) = Some c \<and> \<not> compatible c d)"
      by (metis Suc_less_eq nth_Cons_Suc)
    with k(1-4) show ?thesis
      by (intro exI [of _ "Suc k"] exI [of _ d]) simp
  next
    case True
    show ?thesis
    proof (cases "fieldCol f")
      case None
      with True Cons.prems show ?thesis by (simp add: loop_step del: resolveFromSelectFields_loop.simps)
    next
      case (Some d)
      show ?thesis
      proof (cases m)
        case None
        with True Some Cons.prems
        have "resolveFromSelectFields_loop v g fs (i + 1) (Some d) i = Inl e"
          by (simp add: loop_step del: resolveFromSelectFields_loop.simps)
        from Cons.IH [OF this] obtain k d' where
          k: "k < length fs" "matched v g (fs ! k)" "fieldCol (fs ! k) = Some d'"
             "e = ErrAmbiguous (strL (cnName d'))"
             "\<not> compatible d d'
               \<or> (\<exists>j c. j < k \<and> matched v g (fs ! j) \<and> fieldCol (fs ! j) = Some c \<and> \<not> compatible c d')"
          by blast
        from k(5) have "\<exists>j c. j < Suc k \<and> matched v g ((f # fs) ! j) \<and> fieldCol ((f # fs) ! j) = Some c
            \<and> \<not> compatible c d'"
        proof
          assume "\<not> compatible d d'"
          with True Some show ?thesis by (intro exI [of _ 0] exI [of _ d]) simp
        next
          assume "\<exists>j c. j < k \<and> matched v g (fs ! j) \<and> fieldCol (fs ! j) = Some c \<and> \<not> compatible c d'"
          then obtain j c where "j < k" "matched v g (fs ! j)" "fieldCol (fs ! j) = Some c" "\<not> compatible c d'"
            by blast
          then show ?thesis by (intro exI [of _ "Suc j"] exI [of _ c]) simp
        qed
        with k(1-4) show ?thesis
          by (intro exI [of _ "Suc k"] exI [of _ d']) simp
      next
        case (Some c)
        note m = Some
        show ?thesis
        proof (cases "compatible c d")
          case False
          with True \<open>fieldCol f = Some d\<close> m Cons.prems have "e = ErrAmbiguous (strL (cnName d))"
            by (simp add: loop_step del: resolveFromSelectFields_loop.simps)
          with True \<open>fieldCol f = Some d\<close> m False show ?thesis
            by (intro exI [of _ 0] exI [of _ d]) simp
        next
          case c: True
          with True \<open>fieldCol f = Some d\<close> m Cons.prems
          have "resolveFromSelectFields_loop v g fs (i + 1) m idx = Inl e"
            by (simp add: loop_step del: resolveFromSelectFields_loop.simps)
          from Cons.IH [OF this] obtain k d' where
            k: "k < length fs" "matched v g (fs ! k)" "fieldCol (fs ! k) = Some d'"
               "e = ErrAmbiguous (strL (cnName d'))"
               "(\<exists>c. m = Some c \<and> \<not> compatible c d')
                 \<or> (\<exists>j c. j < k \<and> matched v g (fs ! j) \<and> fieldCol (fs ! j) = Some c \<and> \<not> compatible c d')"
            by blast
          from k(5) have "(\<exists>c. m = Some c \<and> \<not> compatible c d')
                 \<or> (\<exists>j c. j < Suc k \<and> matched v g ((f # fs) ! j) \<and> fieldCol ((f # fs) ! j) = Some c \<and> \<not> compatible c d')"
            by (metis Suc_less_eq nth_Cons_Suc)
          with k(1-4) show ?thesis
            by (intro exI [of _ "Suc k"] exI [of _ d']) simp
        qed
      qed
    qed
  qed
qed

lemma cols_agree_Cons:
  assumes "cols_agree v g m (f # fs)"
  shows "\<not> matched v g f \<Longrightarrow> cols_agree v g m fs"
    and "matched v g f \<Longrightarrow> \<exists>d. fieldCol f = Some d \<and> (\<forall>c. m = Some c \<longrightarrow> compatible c d)"
    and "matched v g f \<Longrightarrow> fieldCol f = Some d \<Longrightarrow> cols_agree v g (Some d) fs"
    and "cols_agree v g m fs"
proof -
  have A: "\<forall>k < length (f # fs). matched v g ((f # fs) ! k) \<longrightarrow>
         (\<exists>d. fieldCol ((f # fs) ! k) = Some d \<and> (\<forall>c. m = Some c \<longrightarrow> compatible c d))"
   and B: "\<forall>j k c d. j < k \<and> k < length (f # fs) \<and> matched v g ((f # fs) ! j) \<and> matched v g ((f # fs) ! k)
            \<and> fieldCol ((f # fs) ! j) = Some c \<and> fieldCol ((f # fs) ! k) = Some d \<longrightarrow> compatible c d"
    using assms unfolding cols_agree_def by blast+
  have A': "\<forall>k < length fs. matched v g (fs ! k) \<longrightarrow>
         (\<exists>d. fieldCol (fs ! k) = Some d \<and> (\<forall>c. m = Some c \<longrightarrow> compatible c d))"
  proof (intro allI impI)
    fix k assume "k < length fs" "matched v g (fs ! k)"
    with A [rule_format, of "Suc k"] show "\<exists>d. fieldCol (fs ! k) = Some d \<and> (\<forall>c. m = Some c \<longrightarrow> compatible c d)"
      by simp
  qed
  have B': "\<forall>j k c d. j < k \<and> k < length fs \<and> matched v g (fs ! j) \<and> matched v g (fs ! k)
            \<and> fieldCol (fs ! j) = Some c \<and> fieldCol (fs ! k) = Some d \<longrightarrow> compatible c d"
  proof (intro allI impI)
    fix j k c d
    assume "j < k \<and> k < length fs \<and> matched v g (fs ! j) \<and> matched v g (fs ! k)
            \<and> fieldCol (fs ! j) = Some c \<and> fieldCol (fs ! k) = Some d"
    with B [rule_format, of "Suc j" "Suc k" c d] show "compatible c d" by simp
  qed
  from A' B' have R: "cols_agree v g m fs" unfolding cols_agree_def by blast
  from R show "\<not> matched v g f \<Longrightarrow> cols_agree v g m fs" by simp
  from A [rule_format, of 0]
  show "matched v g f \<Longrightarrow> \<exists>d. fieldCol f = Some d \<and> (\<forall>c. m = Some c \<longrightarrow> compatible c d)" by simp
  show "cols_agree v g (Some d) fs" if mf: "matched v g f" and fd: "fieldCol f = Some d"
    unfolding cols_agree_def
  proof (intro conjI allI impI)
    fix k assume k: "k < length fs" "matched v g (fs ! k)"
    with A' obtain d' where d': "fieldCol (fs ! k) = Some d'" by blast
    from B [rule_format, of 0 "Suc k" d d'] k mf fd d' have "compatible d d'" by simp
    with d' show "\<exists>d'. fieldCol (fs ! k) = Some d' \<and> (\<forall>c. Some d = Some c \<longrightarrow> compatible c d')" by simp
  next
    fix j k c d
    assume "j < k \<and> k < length fs \<and> matched v g (fs ! j) \<and> matched v g (fs ! k)
            \<and> fieldCol (fs ! j) = Some c \<and> fieldCol (fs ! k) = Some d"
    with B' show "compatible c d" by blast
  qed
  from R show "cols_agree v g m fs" .
qed

lemma loop_agree:
  "cols_agree v g m fs \<Longrightarrow>
   resolveFromSelectFields_loop v g fs i m idx =
     Inr (if m = None \<and> length (takeWhile (\<lambda>f. \<not> matched v g f) fs) < length fs
          then i + int (length (takeWhile (\<lambda>f. \<not> matched v g f) fs)) else idx)"
proof (induction fs arbitrary: i m idx)
  case Nil
  then show ?case by simp
next
  case (Cons f fs)
  show ?case
  proof (cases "matched v g f")
    case False
    from cols_agree_Cons(1) [OF Cons.prems False] have "cols_agree v g m fs" .
    from Cons.IH [OF this, of "i + 1" idx] False show ?thesis
      by (simp add: loop_step del: resolveFromSelectFields_loop.simps)
  next
    case True
    from cols_agree_Cons(2) [OF Cons.prems True] obtain d where
      d: "fieldCol f = Some d" "\<forall>c. m = Some c \<longrightarrow> compatible c d" by blast
    show ?thesis
    proof (cases m)
      case None
      from cols_agree_Cons(3) [OF Cons.prems True d(1)] have "cols_agree v g (Some d) fs" .
      from Cons.IH [OF this, of "i + 1" i] True d None show ?thesis
        by (simp add: loop_step del: resolveFromSelectFields_loop.simps)
    next
      case (Some c)
      from cols_agree_Cons(4) [OF Cons.prems] have "cols_agree v g m fs" .
      from Cons.IH [OF this, of "i + 1" idx] True d Some show ?thesis
        by (simp add: loop_step del: resolveFromSelectFields_loop.simps)
    qed
  qed
qed

lemma loop_non_column:
  "cols_agree v g m pre \<Longrightarrow> matched v g f \<Longrightarrow> fieldCol f = None \<Longrightarrow>
   resolveFromSelectFields_loop v g (pre @ f # post) i m idx = Inr (i + int (length pre))"
proof (induction pre arbitrary: i m idx)
  case Nil
  then show ?case by (simp add: loop_step del: resolveFromSelectFields_loop.simps)
next
  case (Cons p pre)
  show ?case
  proof (cases "matched v g p")
    case False
    from cols_agree_Cons(1) [OF Cons.prems(1) False] have "cols_agree v g m pre" .
    from Cons.IH [OF this Cons.prems(2,3), of "i + 1" idx] False show ?thesis
      by (simp add: loop_step del: resolveFromSelectFields_loop.simps)
  next
    case True
    from cols_agree_Cons(2) [OF Cons.prems(1) True] obtain d where
      d: "fieldCol p = Some d" "\<forall>c. m = Some c \<longrightarrow> compatible c d" by blast
    show ?thesis
    proof (cases m)
      case None
      from cols_agree_Cons(3) [OF Cons.prems(1) True d(1)] have "cols_agree v g (Some d) pre" .
      from Cons.IH [OF this Cons.prems(2,3), of "i + 1" i] True d None show ?thesis
        by (simp add: loop_step del: resolveFromSelectFields_loop.simps)
    next
      case (Some c)
      from cols_agree_Cons(4) [OF Cons.prems(1)] have "cols_agree v g m pre" .
      from Cons.IH [OF this Cons.prems(2,3), of "i + 1" idx] True d Some show ?thesis
        by (simp add: loop_step del: resolveFromSelectFields_loop.simps)
    qed
  qed
qed

lemma NewCIStr_simps [simp]: "NewCIStr [] = \<lparr>strO = [], strL = []\<rparr>"
  "NewCIStr ''a'' = \<lparr>strO = ''a'', strL = ''a''\<rparr>"
  "NewCIStr ''t1'' = \<lparr>strO = ''t1'', strL = ''t1''\<rparr>"
  "NewCIStr ''A'' = \<lparr>strO = ''A'', strL = ''a''\<rparr>"
  "NewCIStr ''t2'' = \<lparr>strO = ''t2'', strL = ''t2''\<rparr>"
  by (simp_all add: NewCIStr_def lower_char_def)

text \<open>
  C9. resolveFromSelectFields skips auxiliary fields: changing them does not change the
  result. It reports the ambiguous-column error only if two matched fields are column
  references that match each other in neither direction. If all matched fields are column
  references that are pairwise compatible, the index of the first match is returned (or -1
  when nothing matches), without error. A matched field that is not a column reference is
  returned at once, whatever follows it.
\<close>

theorem resolveFromSelectFields_ambiguity:
  "(list_all2 (\<lambda>f f'. (Auxiliary f \<and> Auxiliary f') \<or> f' = f) flds flds' \<longrightarrow>
      resolveFromSelectFields v flds' g = resolveFromSelectFields v flds g)
   \<and> (resolveFromSelectFields v flds g = Inl e \<longrightarrow>
        (\<exists>j k c d. j < k \<and> k < length flds \<and> matched v g (flds ! j) \<and> matched v g (flds ! k)
           \<and> fieldCol (flds ! j) = Some c \<and> fieldCol (flds ! k) = Some d
           \<and> \<not> compatible c d \<and> e = ErrAmbiguous (strL (cnName d))))
   \<and> (cols_agree v g None flds \<longrightarrow>
        resolveFromSelectFields v flds g =
          Inr (if length (takeWhile (\<lambda>f. \<not> matched v g f) flds) < length flds
               then int (length (takeWhile (\<lambda>f. \<not> matched v g f) flds)) else - 1))
   \<and> (cols_agree v g None pre \<and> matched v g f \<and> fieldCol f = None \<longrightarrow>
        resolveFromSelectFields v (pre @ f # post) g = Inr (int (length pre)))"
proof (intro conjI impI)
  assume "list_all2 (\<lambda>f f'. (Auxiliary f \<and> Auxiliary f') \<or> f' = f) flds flds'"
  then show "resolveFromSelectFields v flds' g = resolveFromSelectFields v flds g"
    unfolding resolveFromSelectFields_def by (rule loop_aux)
next
  assume "resolveFromSelectFields v flds g = Inl e"
  then have "resolveFromSelectFields_loop v g flds 0 None (- 1) = Inl e"
    by (simp add: resolveFromSelectFields_def)
  from loop_error [OF this]
  show "\<exists>j k c d. j < k \<and> k < length flds \<and> matched v g (flds ! j) \<and> matched v g (flds ! k)
           \<and> fieldCol (flds ! j) = Some c \<and> fieldCol (flds ! k) = Some d
           \<and> \<not> compatible c d \<and> e = ErrAmbiguous (strL (cnName d))"
    by auto
next
  assume "cols_agree v g None flds"
  from loop_agree [OF this, of 0 "- 1"]
  show "resolveFromSelectFields v flds g =
          Inr (if length (takeWhile (\<lambda>f. \<not> matched v g f) flds) < length flds
               then int (length (takeWhile (\<lambda>f. \<not> matched v g f) flds)) else - 1)"
    by (simp add: resolveFromSelectFields_def)
next
  assume "cols_agree v g None pre \<and> matched v g f \<and> fieldCol f = None"
  then have "resolveFromSelectFields_loop v g (pre @ f # post) 0 None (- 1) = Inr (0 + int (length pre))"
    by (intro loop_non_column) simp_all
  then show "resolveFromSelectFields v (pre @ f # post) g = Inr (int (length pre))"
    by (simp add: resolveFromSelectFields_def)
qed

subsection \<open>Wildcard expansion\<close>

lemma unfold_loop_ok:
  "\<forall>k < length flds. \<forall>w. WildCard (flds ! k) = Some w \<and> strL (wcTable w) = [] \<longrightarrow> i + k = 0 \<Longrightarrow>
   unfoldWildStar_loop sch flds i acc b = (acc @ concat (map (expandField sch) flds), b)"
proof (induction flds arbitrary: i acc)
  case Nil
  then show ?case by simp
next
  case (Cons f flds)
  have rest: "\<forall>k < length flds. \<forall>w. WildCard (flds ! k) = Some w \<and> strL (wcTable w) = [] \<longrightarrow> (i + 1) + k = 0"
  proof (intro allI impI)
    fix k w assume "k < length flds" "WildCard (flds ! k) = Some w \<and> strL (wcTable w) = []"
    with Cons.prems [rule_format, of "Suc k" w] show "(i + 1) + k = 0" by simp
  qed
  show ?case
  proof (cases "WildCard f")
    case None
    with Cons.IH [OF rest] show ?thesis by (simp add: expandField_def)
  next
    case (Some w)
    show ?thesis
    proof (cases "strL (wcTable w) = [] \<and> i > 0")
      case True
      with Cons.prems [rule_format, of 0 w] Some show ?thesis by simp
    next
      case False
      with Some Cons.IH [OF rest] show ?thesis by (auto simp: expandField_def)
    qed
  qed
qed

lemma unfold_loop_err:
  "k < length flds \<Longrightarrow> WildCard (flds ! k) = Some w \<Longrightarrow> strL (wcTable w) = [] \<Longrightarrow> 0 < i + k \<Longrightarrow>
   err (snd (unfoldWildStar_loop sch flds i acc b)) = Some ErrInvalidWildCard"
proof (induction flds arbitrary: i acc k)
  case Nil
  then show ?case by simp
next
  case (Cons f flds)
  show ?case
  proof (cases k)
    case 0
    with Cons.prems show ?thesis by simp
  next
    case (Suc k')
    with Cons.prems have IH: "\<And>acc. err (snd (unfoldWildStar_loop sch flds (i + 1) acc b)) = Some ErrInvalidWildCard"
      by (intro Cons.IH [of k']) simp_all
    then show ?thesis by (simp split: option.splits)
  qed
qed

text \<open>
  C10. unfoldWildStar sets the invalid-wildcard error exactly when a wildcard without table
  qualifier stands after the first select field; otherwise it sets no error and returns the
  concatenation of what each field expands to, and a table-qualified wildcard that no column
  of the plan's schema matches expands to no field at all.
\<close>

theorem unfoldWildStar_wildcards:
  "(bareStarAfterFirst flds \<longrightarrow> err (snd (unfoldWildStar p flds b)) = Some ErrInvalidWildCard)
   \<and> (\<not> bareStarAfterFirst flds \<longrightarrow>
        unfoldWildStar p flds b = (concat (map (expandField (schema p)) flds), b))
   \<and> (WildCard f = Some w \<and> strL (wcTable w) \<noteq> []
        \<and> (\<forall>col \<in> set (Columns (schema p)).
              \<not> ((strL (wcSchema w) = [] \<or> strL (wcSchema w) = strL (DBName col))
                 \<and> strL (wcTable w) = strL (TblName col)))
       \<longrightarrow> expandField (schema p) f = [])"
proof (intro conjI impI)
  assume "bareStarAfterFirst flds"
  then obtain i w where "0 < i" "i < length flds" "WildCard (flds ! i) = Some w" "strL (wcTable w) = []"
    unfolding bareStarAfterFirst_def by blast
  then show "err (snd (unfoldWildStar p flds b)) = Some ErrInvalidWildCard"
    unfolding unfoldWildStar_def by (intro unfold_loop_err [of i flds w]) simp_all
next
  assume "\<not> bareStarAfterFirst flds"
  then have "\<forall>k < length flds. \<forall>w. WildCard (flds ! k) = Some w \<and> strL (wcTable w) = [] \<longrightarrow> 0 + k = 0"
    unfolding bareStarAfterFirst_def by auto
  from unfold_loop_ok [OF this]
  show "unfoldWildStar p flds b = (concat (map (expandField (schema p)) flds), b)"
    by (simp add: unfoldWildStar_def)
next
  assume a: "WildCard f = Some w \<and> strL (wcTable w) \<noteq> []
        \<and> (\<forall>col \<in> set (Columns (schema p)).
              \<not> ((strL (wcSchema w) = [] \<or> strL (wcSchema w) = strL (DBName col))
                 \<and> strL (wcTable w) = strL (TblName col)))"
  then have "filter (\<lambda>col. (strL (wcSchema w) = [] \<or> strL (wcSchema w) = strL (DBName col))
                    \<and> (strL (wcTable w) = [] \<or> strL (wcTable w) = strL (TblName col))
                    \<and> ID col \<noteq> ExtraHandleID) (Columns (schema p)) = []"
    by (auto simp: filter_empty_conv)
  with a show "expandField (schema p) f = []"
    by (simp add: expandField_def wildFields_def)
qed

lemma NewCIStr_examples2 [simp]:
  "NewCIStr ''test'' = \<lparr>strO = ''test'', strL = ''test''\<rparr>"
  "NewCIStr ''b'' = \<lparr>strO = ''b'', strL = ''b''\<rparr>"
  by (simp_all add: NewCIStr_def lower_char_def)

theorem unfoldWildStar_wildcards_witness:
  "err (snd (unfoldWildStar source1 [colField [] ''a'', starField [] []] builder0)) = Some ErrInvalidWildCard
   \<and> unfoldWildStar source1 [starField [] ''t2'', colField [] ''a''] builder0
       = ([colField [] ''a''], builder0)"
proof -
  have 1: "bareStarAfterFirst [colField [] ''a'', starField [] []]"
    unfolding bareStarAfterFirst_def by (intro exI [of _ 1]) (simp add: starField_def)
  have 2: "\<not> bareStarAfterFirst [starField [] ''t2'', colField [] ''a'']"
    by (auto simp: bareStarAfterFirst_def less_Suc_eq colField_def starField_def)
  have 3: "WildCard (starField [] ''t2'') = Some \<lparr>wcSchema = NewCIStr [], wcTable = NewCIStr ''t2''\<rparr>
     \<and> strL (wcTable \<lparr>wcSchema = NewCIStr [], wcTable = NewCIStr ''t2''\<rparr>) \<noteq> []
     \<and> (\<forall>col \<in> set (Columns (schema source1)).
              \<not> ((strL (wcSchema \<lparr>wcSchema = NewCIStr [], wcTable = NewCIStr ''t2''\<rparr>) = []
                   \<or> strL (wcSchema \<lparr>wcSchema = NewCIStr [], wcTable = NewCIStr ''t2''\<rparr>) = strL (DBName col))
                 \<and> strL (wcTable \<lparr>wcSchema = NewCIStr [], wcTable = NewCIStr ''t2''\<rparr>) = strL (TblName col)))"
    by (simp add: starField_def source1_def NewSchema_def mkColumn_def)
  from unfoldWildStar_wildcards [of "[colField [] ''a'', starField [] []]" source1 builder0] 1
  have a: "err (snd (unfoldWildStar source1 [colField [] ''a'', starField [] []] builder0)) = Some ErrInvalidWildCard"
    by blast
  from unfoldWildStar_wildcards [of "[starField [] ''t2'', colField [] ''a'']" source1 builder0
      "starField [] ''t2''" "\<lparr>wcSchema = NewCIStr [], wcTable = NewCIStr ''t2''\<rparr>"] 2 3
  have "unfoldWildStar source1 [starField [] ''t2'', colField [] ''a''] builder0
       = (concat (map (expandField (schema source1)) [starField [] ''t2'', colField [] ''a'']), builder0)"
    and "expandField (schema source1) (starField [] ''t2'') = []"
    by blast+
  then have b: "unfoldWildStar source1 [starField [] ''t2'', colField [] ''a''] builder0
       = ([colField [] ''a''], builder0)"
    by (simp add: expandField_def colField_def)
  from a b show ?thesis by blast
qed

theorem resolveFromSelectFields_ambiguity_witness:
  "resolveFromSelectFields (mkColumnName [] ''a'')
      [colField ''t1'' ''a'', auxField (ValueExpr KindNull []) ''a'', colField [] ''b''] False
    = resolveFromSelectFields (mkColumnName [] ''a'')
      [colField ''t1'' ''a'', auxField (ValueExpr (KindInt64 1) ''1'') ''b'', colField [] ''b''] False
   \<and> (\<exists>j k c d. j < k \<and> k < length [colField ''t1'' ''a'', colField ''t2'' ''a'']
         \<and> matched (mkColumnName [] ''a'') False ([colField ''t1'' ''a'', colField ''t2'' ''a''] ! j)
         \<and> matched (mkColumnName [] ''a'') False ([colField ''t1'' ''a'', colField ''t2'' ''a''] ! k)
         \<and> fieldCol ([colField ''t1'' ''a'', colField ''t2'' ''a''] ! j) = Some c
         \<and> fieldCol ([colField ''t1'' ''a'', colField ''t2'' ''a''] ! k) = Some d
         \<and> \<not> compatible c d \<and> ErrAmbiguous ''a'' = ErrAmbiguous (strL (cnName d)))
   \<and> resolveFromSelectFields (mkColumnName [] ''a'')
        [colField [] ''b'', colField ''t1'' ''a'', colField [] ''A''] False = Inr 1
   \<and> resolveFromSelectFields (mkColumnName [] ''a'')
        ([colField ''t1'' ''a''] @ exprField (ValueExpr (KindInt64 1) ''1'') ''a'' # [colField ''t2'' ''a'']) False
       = Inr 1"
proof -
  let ?v = "mkColumnName [] ''a''"
  have h1: "list_all2 (\<lambda>f f'. (Auxiliary f \<and> Auxiliary f') \<or> f' = f)
      [colField ''t1'' ''a'', auxField (ValueExpr (KindInt64 1) ''1'') ''b'', colField [] ''b'']
      [colField ''t1'' ''a'', auxField (ValueExpr KindNull []) ''a'', colField [] ''b'']"
    by (simp add: auxField_def)
  have h2: "resolveFromSelectFields ?v [colField ''t1'' ''a'', colField ''t2'' ''a''] False
      = Inl (ErrAmbiguous ''a'')"
    by (simp add: resolveFromSelectFields_def mkColumnName_def colField_def matchField_def colMatch_def)
  have m: "\<not> matched ?v False (colField [] ''b'')" "matched ?v False (colField ''t1'' ''a'')"
     "matched ?v False (colField [] ''A'')" "matched ?v False (exprField (ValueExpr (KindInt64 1) ''1'') ''a'')"
    by (simp_all add: matched_def matchField_def mkColumnName_def colField_def exprField_def)
  have fc: "fieldCol (colField ''t1'' ''a'') = Some (mkColumnName ''t1'' ''a'')"
      "fieldCol (colField [] ''A'') = Some (mkColumnName [] ''A'')"
      "fieldCol (colField [] ''b'') = Some (mkColumnName [] ''b'')"
      "fieldCol (exprField (ValueExpr (KindInt64 1) ''1'') ''a'') = None"
    by (simp_all add: fieldCol_def colField_def exprField_def)
  have cp: "compatible (mkColumnName ''t1'' ''a'') (mkColumnName [] ''A'')"
    by (simp add: compatible_def colMatch_def mkColumnName_def)
  have h3: "cols_agree ?v False None [colField [] ''b'', colField ''t1'' ''a'', colField [] ''A'']"
    unfolding cols_agree_def using m fc cp
    by (auto simp: less_Suc_eq)
  have h4: "cols_agree ?v False None [colField ''t1'' ''a''] \<and> matched ?v False (exprField (ValueExpr (KindInt64 1) ''1'') ''a'')
      \<and> fieldCol (exprField (ValueExpr (KindInt64 1) ''1'') ''a'') = None"
    unfolding cols_agree_def using m fc by auto
  note T = resolveFromSelectFields_ambiguity
  from T [of "[colField ''t1'' ''a'', auxField (ValueExpr (KindInt64 1) ''1'') ''b'', colField [] ''b'']"
       "[colField ''t1'' ''a'', auxField (ValueExpr KindNull []) ''a'', colField [] ''b'']" ?v False] h1
  have c1: "resolveFromSelectFields ?v
      [colField ''t1'' ''a'', auxField (ValueExpr KindNull []) ''a'', colField [] ''b''] False
    = resolveFromSelectFields ?v
      [colField ''t1'' ''a'', auxField (ValueExpr (KindInt64 1) ''1'') ''b'', colField [] ''b''] False"
    by blast
  from T [of "[colField ''t1'' ''a'', colField ''t2'' ''a'']" _ ?v False "ErrAmbiguous ''a''"] h2
  have c2: "\<exists>j k c d. j < k \<and> k < length [colField ''t1'' ''a'', colField ''t2'' ''a'']
         \<and> matched ?v False ([colField ''t1'' ''a'', colField ''t2'' ''a''] ! j)
         \<and> matched ?v False ([colField ''t1'' ''a'', colField ''t2'' ''a''] ! k)
         \<and> fieldCol ([colField ''t1'' ''a'', colField ''t2'' ''a''] ! j) = Some c
         \<and> fieldCol ([colField ''t1'' ''a'', colField ''t2'' ''a''] ! k) = Some d
         \<and> \<not> compatible c d \<and> ErrAmbiguous ''a'' = ErrAmbiguous (strL (cnName d))"
    by blast
  from T [of "[colField [] ''b'', colField ''t1'' ''a'', colField [] ''A'']" _ ?v False] h3
  have "resolveFromSelectFields ?v [colField [] ''b'', colField ''t1'' ''a'', colField [] ''A''] False =
          Inr (if length (takeWhile (\<lambda>f. \<not> matched ?v False f) [colField [] ''b'', colField ''t1'' ''a'', colField [] ''A''])
                   < length [colField [] ''b'', colField ''t1'' ''a'', colField [] ''A'']
               then int (length (takeWhile (\<lambda>f. \<not> matched ?v False f) [colField [] ''b'', colField ''t1'' ''a'', colField [] ''A''])) else - 1)"
    by blast
  with m have c3: "resolveFromSelectFields ?v [colField [] ''b'', colField ''t1'' ''a'', colField [] ''A''] False = Inr 1"
    by simp
  from T [of _ _ ?v False _ "[colField ''t1'' ''a'']" "exprField (ValueExpr (KindInt64 1) ''1'') ''a''" "[colField ''t2'' ''a'']"] h4
  have c4: "resolveFromSelectFields ?v
        ([colField ''t1'' ''a''] @ exprField (ValueExpr (KindInt64 1) ''1'') ''a'' # [colField ''t2'' ''a'']) False
       = Inr 1"
    by simp
  from c1 c2 c3 c4 show ?thesis by blast
qed

subsection \<open>USING and NATURAL joins: the rotation\<close>

text \<open>
  C1. On a match of the left column at index \<open>i\<close> with the right column at index
  \<open>j\<close>, the claim has the left column rotated to the common-prefix slot of the left list
  and the right column to that of the right list. The source indexes the right list with
  \<open>i\<close> and the left list with \<open>j\<close>. For \<open>t1(a, b) NATURAL JOIN t2(b, c)\<close> the
  match is at \<open>i = 1\<close>, \<open>j = 0\<close>: the source leaves the left list as \<open>[a, b]\<close>
  and turns the right list into \<open>[c, b]\<close>, so the output schema is \<open>t1.a, t1.b, t2.b\<close>
  (column \<open>c\<close> is lost and \<open>b\<close> appears twice), where the documented rotation gives the
  lists \<open>[b, a]\<close> and \<open>[b, c]\<close>. For \<open>t1(x, y, a) NATURAL JOIN t2(a)\<close> the source
  indexes the one-element right list at 2 and panics.
\<close>

theorem coalesceCommonColumns_rotates_other_side:
  "outNames (coalesceCommonColumns emptyJoin tableAB tableBC False [])
     = Val (Inr [(''t1'', ''a''), (''t1'', ''b''), (''t2'', ''b'')])
   \<and> stepNames (coalesceStep 1 stateABBC) = Val ([''a'', ''b''], [''c'', ''b''])
   \<and> stepNames (coalesceStepDocumented 1 stateABBC) = Val ([''b'', ''a''], [''b'', ''c''])
   \<and> coalesceCommonColumns emptyJoin tableXYA tableA False [] = Panic"
  by (simp add: outNames_def stepNames_def stateABBC_def coalesceCommonColumns_def Let_def
        tableAB_def tableBC_def tableXYA_def tableA_def mkColumn_def emptyJoin_def
        Clone_def NewSchema_def coalesceStep_def coalesceStepDocumented_def rotateTo_def upt_rec
        NewCIStr_def lower_char_def)

subsection \<open>Aggregation\<close>

lemma string_of_nat_small:
  "string_of_nat 0 = ''0''" "string_of_nat 1 = ''1''" "string_of_nat 2 = ''2''"
  "string_of_nat 3 = ''3''" "string_of_nat 4 = ''4''" "string_of_nat 5 = ''5''"
  "string_of_nat 6 = ''6''" "string_of_nat 7 = ''7''" "string_of_nat 8 = ''8''"
  "string_of_nat 9 = ''9''"
  "string_of_nat (Suc 0) = ''1''" "string_of_nat (Suc (Suc 0)) = ''2''"
  "string_of_nat (Suc (Suc (Suc 0))) = ''3''" "string_of_nat (Suc (Suc (Suc (Suc 0)))) = ''4''"
  "string_of_nat (Suc (Suc (Suc (Suc (Suc 0))))) = ''5''"
  "string_of_nat (Suc (Suc (Suc (Suc (Suc (Suc 0)))))) = ''6''"
  by code_simp+


lemma aggLoop_owner:
  "aggLoop C aggID fs i p funcs cols m b = (Inr (p', funcs', cols', m'), b') \<Longrightarrow>
   \<forall>c \<in> set cols. FromID c = aggID \<Longrightarrow> length cols = length funcs \<Longrightarrow>
   (\<forall>c \<in> set cols'. FromID c = aggID) \<and> length cols' = length funcs'"
proof (induction fs arbitrary: i p funcs cols m b)
  case Nil
  then show ?case by simp
next
  case (Cons f fs)
  from Cons.prems(1) obtain np args b1 where
    r: "rewriteArgs C (afArgs f) p [] b = (Inr (np, args), b1)"
    by (auto split: prod.splits sum.splits)
  let ?nf = "\<lparr>aggName = afF f, aggArgs = args, aggDistinct = afDistinct f\<rparr>"
  show ?case
  proof (cases "indexFrom (\<lambda>oldFunc. oldFunc = ?nf) funcs 0")
    case (Some j)
    with Cons.prems(1) r
    have "aggLoop C aggID fs (i + 1) np funcs cols (m @ [(i, j)]) b1 = (Inr (p', funcs', cols', m'), b')"
      by simp
    from Cons.IH [OF this Cons.prems(2,3)] show ?thesis .
  next
    case None
    with Cons.prems(1) r
    have "aggLoop C aggID fs (i + 1) np (funcs @ [?nf]) (cols @ [aggColumn C aggID (length funcs) ?nf])
            (m @ [(i, length funcs)]) b1 = (Inr (p', funcs', cols', m'), b')"
      by (simp add: Let_def)
    moreover have "\<forall>c \<in> set (cols @ [aggColumn C aggID (length funcs) ?nf]). FromID c = aggID"
      using Cons.prems(2) by (simp add: aggColumn_def)
    moreover have "length (cols @ [aggColumn C aggID (length funcs) ?nf]) = length (funcs @ [?nf])"
      using Cons.prems(3) by simp
    ultimately show ?thesis by (rule Cons.IH)
  qed
qed

text \<open>
  C2, as amended. Of the output schema of the node buildAggregation builds, the columns
  appended for the aggregate functions of the list carry the aggregation's id as owner; the
  columns appended for the FIRST\_ROW aggregates are clones of the columns of the child's
  schema, in order, and keep the owner of the child's column. There is one aggregate function
  per column.
\<close>

theorem buildAggregation_owner_ids:
  assumes "buildAggregation C p aggFuncList gby b = ((Some agg, m), b')"
  shows "\<exists>newCols child.
           children agg = [child]
         \<and> Columns (schema agg) = newCols @ map CloneColumn (Columns (schema child))
         \<and> (\<forall>c \<in> set newCols. FromID c = plan_id agg)
         \<and> length (AggFuncs (payload agg)) = length newCols + length (Columns (schema child))"
proof -
  obtain aggID b1 where i: "init_id ''Aggr'' (setFlags {flagBuildKeyInfo, flagAggregationOptimize} b) = (aggID, b1)"
    by (cases "init_id ''Aggr'' (setFlags {flagBuildKeyInfo, flagAggregationOptimize} b)")
  from assms i obtain p' funcs cols b2 where
    l: "aggLoop C aggID aggFuncList 0 p [] [] [] b1 = (Inr (p', funcs, cols, m), b2)"
    and a: "agg = Plan aggID (NewSchema (cols @ map CloneColumn (Columns (schema p')))) [p']
              (AggregationP (funcs @ map (\<lambda>col. \<lparr>aggName = AggFuncFirstRow,
                                             aggArgs = [ColumnExpr (CloneColumn col)],
                                             aggDistinct = False\<rparr>) (Columns (schema p')))
                 gby (collectGroupByColumns gby))"
    by (auto simp: buildAggregation_def Let_def split: prod.splits sum.splits)
  from aggLoop_owner [OF l] have "(\<forall>c \<in> set cols. FromID c = aggID) \<and> length cols = length funcs"
    by simp
  with a show ?thesis
    by (intro exI [of _ cols] exI [of _ p']) (simp add: NewSchema_def)
qed

theorem buildAggregation_owner_ids_witness:
  "buildAggregation collab0 source1 [sumA] [] builder0
     = ((Some aggSumA, [(0, 0)]),
        builder0\<lparr>allocator := 1, optFlag := {flagBuildKeyInfo, flagAggregationOptimize}\<rparr>)
   \<and> (\<exists>newCols child.
           children aggSumA = [child]
         \<and> Columns (schema aggSumA) = newCols @ map CloneColumn (Columns (schema child))
         \<and> (\<forall>c \<in> set newCols. FromID c = plan_id aggSumA)
         \<and> length (AggFuncs (payload aggSumA)) = length newCols + length (Columns (schema child)))"
proof -
  have run: "buildAggregation collab0 source1 [sumA] [] builder0
     = ((Some aggSumA, [(0, 0)]),
        builder0\<lparr>allocator := 1, optFlag := {flagBuildKeyInfo, flagAggregationOptimize}\<rparr>)"
    by (simp add: buildAggregation_def init_id_def allocID_def setFlags_def builder0_def sumA_def colA_def
        collab0_def rewrite0_def source1_def NewSchema_def mkColumnName_def mkColumn_def string_of_nat_small
        CloneColumn_def Let_def NewCIStr_def lower_char_def aggSumA_def sumOfA_def)
  from buildAggregation_owner_ids [OF run] run show ?thesis by blast
qed

text \<open>
  C2 as stated fails: for \<open>SELECT SUM(a) FROM t1\<close> the aggregation \<open>Aggr_1\<close> has
  the schema \<open>[Aggr_1_col_0, a]\<close> whose second column is still owned by the data source
  \<open>TableScan_1\<close>.
\<close>

theorem buildAggregation_first_row_keeps_owner:
  "ownerIDs (buildAggregation collab0 source1 [sumA] [] builder0)
     = Some (''Aggr_1'', [''Aggr_1'', ''TableScan_1''])"
  by (simp add: ownerIDs_def buildAggregation_def init_id_def allocID_def setFlags_def builder0_def sumA_def colA_def
        collab0_def rewrite0_def source1_def NewSchema_def mkColumnName_def mkColumn_def string_of_nat_small
        CloneColumn_def Let_def NewCIStr_def lower_char_def aggColumn_def)

subsection \<open>Selection\<close>

lemma rewriteConds_results:
  "rewriteConds C m conds p acc b = (Inr (p', exprs), b') \<Longrightarrow>
   exprs = acc @ concat (map (SplitCNFItems C) (filter (\<lambda>r. r \<noteq> NilExpression) (rewriteResults C m conds p b)))
   \<and> p' = adoptedPlan C m conds p b"
proof (induction conds arbitrary: p acc b)
  case Nil
  then show ?case by simp
next
  case (Cons c conds)
  from Cons.prems obtain expr np b1 where r: "rewrite C c p m False b = (Inr (expr, np), b1)"
    by (auto split: prod.splits sum.splits)
  show ?case
  proof (cases "expr = NilExpression")
    case True
    with Cons.prems r have "rewriteConds C m conds np acc b1 = (Inr (p', exprs), b')" by simp
    from Cons.IH [OF this] r True show ?thesis by simp
  next
    case False
    with Cons.prems r have "rewriteConds C m conds np (acc @ SplitCNFItems C expr) b1 = (Inr (p', exprs), b')"
      by simp
    from Cons.IH [OF this] r False show ?thesis by simp
  qed
qed

lemma adoptedPlan_keeps: "keepsPlan C \<Longrightarrow> adoptedPlan C m conds p b = p"
proof (induction conds arbitrary: p b)
  case Nil
  then show ?case by simp
next
  case (Cons c conds)
  show ?case
  proof (cases "rewrite C c p m False b")
    case (Pair r b1)
    show ?thesis
    proof (cases r)
      case (Inl e)
      with Pair show ?thesis by simp
    next
      case (Inr x)
      obtain expr np where x: "x = (expr, np)" by (cases x)
      with Pair Inr Cons.prems have "np = p" unfolding keepsPlan_def by blast
      with Pair Inr x Cons.IH [OF Cons.prems] show ?thesis by simp
    qed
  qed
qed

text \<open>
  C7. buildSelection splits the expression into conjuncts (splitWhere) and hands each to
  the rewriter; the conjuncts the rewriter answers with the nil expression are dropped. When
  no rewrite fails (a plan is returned) and every conjunct vanishes, the result is the child
  plan itself, as adopted from the rewriter, and no Selection node is created; otherwise the
  result is a Selection node over that child whose conditions are the conjuncts of the
  remaining expressions and whose schema is a clone of the child's schema. The adopted child
  is the plan passed in whenever the rewriter hands back the plan it was given.
  SplitCNFItems is a collaborator; it yields at least one item for an expression.
\<close>

theorem buildSelection_conjuncts:
  assumes run: "buildSelection C p w m b = (Some q, b')"
    and split: "\<forall>e. e \<noteq> NilExpression \<longrightarrow> SplitCNFItems C e \<noteq> []"
  shows "(if \<forall>r \<in> set (rewriteResults C m (splitWhere w) p (selectionBuilder b)). r = NilExpression
          then q = adoptedPlan C m (splitWhere w) p (selectionBuilder b)
          else payload q = SelectionP (concat (map (SplitCNFItems C)
                  (filter (\<lambda>r. r \<noteq> NilExpression)
                     (rewriteResults C m (splitWhere w) p (selectionBuilder b)))))
             \<and> schema q = Clone (schema (adoptedPlan C m (splitWhere w) p (selectionBuilder b)))
             \<and> children q = [adoptedPlan C m (splitWhere w) p (selectionBuilder b)])
       \<and> (keepsPlan C \<longrightarrow> adoptedPlan C m (splitWhere w) p (selectionBuilder b) = p)"
proof -
  let ?b1 = "selectionBuilder b"
  let ?rs = "rewriteResults C m (splitWhere w) p ?b1"
  let ?child = "adoptedPlan C m (splitWhere w) p ?b1"
  obtain selID where i: "init_id ''Selection'' (setFlags {flagPredicatePushDown} b) = (selID, ?b1)"
    by (cases "init_id ''Selection'' (setFlags {flagPredicatePushDown} b)") (simp add: selectionBuilder_def)
  from run i obtain p' exprs b2 where
    l: "rewriteConds C m (splitWhere w) p [] ?b1 = (Inr (p', exprs), b2)"
    and q: "q = (if length exprs = 0 then p' else Plan selID (Clone (schema p')) [p'] (SelectionP exprs))"
    by (auto simp: buildSelection_def split: prod.splits sum.splits if_splits)
  from rewriteConds_results [OF l]
  have e: "exprs = concat (map (SplitCNFItems C) (filter (\<lambda>r. r \<noteq> NilExpression) ?rs))" and p': "p' = ?child"
    by simp_all
  have "exprs = [] \<longleftrightarrow> (\<forall>r \<in> set ?rs. r = NilExpression)"
  proof
    assume "exprs = []"
    with e have "\<forall>r \<in> set (filter (\<lambda>r. r \<noteq> NilExpression) ?rs). SplitCNFItems C r = []" by simp
    with split show "\<forall>r \<in> set ?rs. r = NilExpression" by auto
  next
    assume "\<forall>r \<in> set ?rs. r = NilExpression"
    then have "filter (\<lambda>r. r \<noteq> NilExpression) ?rs = []" by (simp add: filter_empty_conv)
    with e show "exprs = []" by simp
  qed
  with q e p' have 1: "if \<forall>r \<in> set ?rs. r = NilExpression then q = ?child
      else payload q = SelectionP (concat (map (SplitCNFItems C) (filter (\<lambda>r. r \<noteq> NilExpression) ?rs)))
             \<and> schema q = Clone (schema ?child) \<and> children q = [?child]"
    by auto
  have 2: "keepsPlan C \<longrightarrow> ?child = p" by (simp add: adoptedPlan_keeps)
  from 1 2 show ?thesis by blast
qed

theorem buildSelection_conjuncts_witness:
  "buildSelection collab0 source1 whereAandExists [] builder0 = (Some selectionA, builderSel)
   \<and> buildSelection collab0 source1 (ExistsSubqueryExpr 0) [] builder0 = (Some source1, builderSel)
   \<and> rewriteResults collab0 [] (splitWhere whereAandExists) source1 (selectionBuilder builder0)
        = [ColumnExpr (mkColumn ''TableScan_1'' ''t1'' ''a'' 0), NilExpression]
   \<and> rewriteResults collab0 [] (splitWhere (ExistsSubqueryExpr 0)) source1 (selectionBuilder builder0)
        = [NilExpression]
   \<and> payload selectionA = SelectionP (concat (map (SplitCNFItems collab0)
          (filter (\<lambda>r. r \<noteq> NilExpression)
             (rewriteResults collab0 [] (splitWhere whereAandExists) source1 (selectionBuilder builder0)))))
   \<and> schema selectionA
        = Clone (schema (adoptedPlan collab0 [] (splitWhere whereAandExists) source1 (selectionBuilder builder0)))
   \<and> children selectionA
        = [adoptedPlan collab0 [] (splitWhere whereAandExists) source1 (selectionBuilder builder0)]
   \<and> source1 = adoptedPlan collab0 [] (splitWhere (ExistsSubqueryExpr 0)) source1 (selectionBuilder builder0)
   \<and> adoptedPlan collab0 [] (splitWhere whereAandExists) source1 (selectionBuilder builder0) = source1"
proof -
  have sp: "\<forall>e. e \<noteq> NilExpression \<longrightarrow> SplitCNFItems collab0 e \<noteq> []"
    by (simp add: collab0_def)
  have kp: "keepsPlan collab0"
    unfolding keepsPlan_def by (auto simp: collab0_def rewrite0_def split: ExprNode.splits option.splits)
  have rs1: "rewriteResults collab0 [] (splitWhere whereAandExists) source1 (selectionBuilder builder0)
      = [ColumnExpr (mkColumn ''TableScan_1'' ''t1'' ''a'' 0), NilExpression]"
    by (simp add: whereAandExists_def colA_def collab0_def rewrite0_def source1_def NewSchema_def
          mkColumnName_def mkColumn_def NewCIStr_def lower_char_def)
  have rs2: "rewriteResults collab0 [] (splitWhere (ExistsSubqueryExpr 0)) source1 (selectionBuilder builder0)
      = [NilExpression]"
    by (simp add: collab0_def rewrite0_def)
  have r1: "buildSelection collab0 source1 whereAandExists [] builder0 = (Some selectionA, builderSel)"
    by (simp add: buildSelection_def init_id_def allocID_def setFlags_def builder0_def colA_def
          collab0_def rewrite0_def source1_def NewSchema_def mkColumnName_def mkColumn_def
          NewCIStr_def lower_char_def string_of_nat_small whereAandExists_def selectionA_def
          builderSel_def Clone_def)
  have r2: "buildSelection collab0 source1 (ExistsSubqueryExpr 0) [] builder0 = (Some source1, builderSel)"
    by (simp add: buildSelection_def init_id_def allocID_def setFlags_def builder0_def
          collab0_def rewrite0_def builderSel_def)
  note T1 = buildSelection_conjuncts [OF r1 sp]
  note T2 = buildSelection_conjuncts [OF r2 sp]
  from T1 kp have ad1: "adoptedPlan collab0 [] (splitWhere whereAandExists) source1 (selectionBuilder builder0) = source1"
    by blast
  from T1 have c1: "payload selectionA = SelectionP (concat (map (SplitCNFItems collab0)
          (filter (\<lambda>r. r \<noteq> NilExpression)
             (rewriteResults collab0 [] (splitWhere whereAandExists) source1 (selectionBuilder builder0)))))
   \<and> schema selectionA
        = Clone (schema (adoptedPlan collab0 [] (splitWhere whereAandExists) source1 (selectionBuilder builder0)))
   \<and> children selectionA
        = [adoptedPlan collab0 [] (splitWhere whereAandExists) source1 (selectionBuilder builder0)]"
    by (simp add: rs1)
  from T2 [unfolded rs2]
  have c2: "source1 = adoptedPlan collab0 [] (splitWhere (ExistsSubqueryExpr 0)) source1 (selectionBuilder builder0)"
    by simp
  from r1 r2 rs1 rs2 c1 c2 ad1 show ?thesis by blast
qed

subsection \<open>The resolution order of HAVING and ORDER BY\<close>










lemma flagsAfter_other:
  "flagsAfter (a\<lparr>inExpr := True\<rparr>) a' c k \<Longrightarrow> flagsAfter a a' c True"
  by (auto simp: flagsAfter_def)


lemma flagsAfter_refl: "flagsAfter a a True False"
  by (simp add: flagsAfter_def)












subsection \<open>The stack of table hints\<close>

text \<open>The definitions that evaluate a build over the example collaborators.\<close>

lemmas eval_defs = string_of_nat_small NewCIStr_def lower_char_def init_id_def allocID_def setFlags_def
  builder0_def collab0_def rewrite0_def findColumn0_def catalog0_def table1_def intType_def
  mkColumnName_def colField_def colA_def NewSchema_def Clone_def CloneColumn_def Len_def
  buildDataSource_def tableSourceRest_def sourceColumn_def Let_def upt_rec
  buildSelectRest_def unfoldWildStar_def selectGroupBy_def selectResolve_def resolveHavingAndOrderBy_def
  havingLeave_def resolveIndex_def resolveFieldsFirst_def resolveFromSelectFields_def matchField_def
  resolveFromSchema_def selectWhere_def bail_def buildSelection_def
  fromT1_def t1Source_def t1Name_def missingSource_def
  selectLock_def selectAgg_def selectProjection_def buildProjection_def
  hasAgg0_def selectHaving_def selectDistinct_def selectSort_def selectLimit_def selectTail_def
  buildProjectionField_def buildProjectionFieldNameFromColumns_def


lemma rewrite_hints:
  "keepsHints C \<Longrightarrow> rewrite C e p m s b = (r, b') \<Longrightarrow> tableHintInfos b' = tableHintInfos b"
  unfolding keepsHints_def by (metis snd_conv)

lemma lock_hints:
  "keepsHints C \<Longrightarrow> buildSelectLock C p l b = (q, b') \<Longrightarrow> tableHintInfos b' = tableHintInfos b"
  unfolding keepsHints_def by (metis snd_conv)

lemma init_id_hints [simp]: "tableHintInfos (snd (init_id tag b)) = tableHintInfos b"
  by (simp add: init_id_def allocID_def)

lemma init_id_hints': "init_id tag b = (i, b') \<Longrightarrow> tableHintInfos b' = tableHintInfos b"
  by (auto simp: init_id_def allocID_def)

lemma setFlags_hints [simp]: "tableHintInfos (setFlags fs b) = tableHintInfos b"
  by (simp add: setFlags_def)

lemma buildLimit_hints [simp]: "tableHintInfos (snd (buildLimit f p l b)) = tableHintInfos b"
  by (auto simp: buildLimit_def Let_def split: sum.splits option.splits prod.splits dest: init_id_hints')

lemma rewriteArgs_hints:
  "keepsHints C \<Longrightarrow> tableHintInfos (snd (rewriteArgs C args p acc b)) = tableHintInfos b"
  by (induction args arbitrary: p acc b) (auto split: prod.splits sum.splits dest: rewrite_hints)

lemma aggLoop_hints:
  "keepsHints C \<Longrightarrow> tableHintInfos (snd (aggLoop C aid fs i p funcs cols m b)) = tableHintInfos b"
proof (induction fs arbitrary: i p funcs cols m b)
  case Nil
  then show ?case by simp
next
  case (Cons f fs)
  obtain r b1 where r: "rewriteArgs C (afArgs f) p [] b = (r, b1)" by (cases "rewriteArgs C (afArgs f) p [] b")
  with rewriteArgs_hints [OF Cons.prems, of "afArgs f" p "[]" b] have h: "tableHintInfos b1 = tableHintInfos b"
    by simp
  show ?case
    using r h Cons.IH [OF Cons.prems]
    by (auto simp: Let_def split: sum.splits option.splits)
qed

lemma buildAggregation_hints:
  "keepsHints C \<Longrightarrow> tableHintInfos (snd (buildAggregation C p fs gby b)) = tableHintInfos b"
proof -
  assume k: "keepsHints C"
  obtain aid b1 where i: "init_id ''Aggr'' (setFlags {flagBuildKeyInfo, flagAggregationOptimize} b) = (aid, b1)"
    by (cases "init_id ''Aggr'' (setFlags {flagBuildKeyInfo, flagAggregationOptimize} b)")
  from init_id_hints' [OF i] have h1: "tableHintInfos b1 = tableHintInfos b" by simp
  obtain r b2 where l: "aggLoop C aid fs 0 p [] [] [] b1 = (r, b2)" by (cases "aggLoop C aid fs 0 p [] [] [] b1")
  with aggLoop_hints [OF k, of aid fs 0 p "[]" "[]" "[]" b1] have h2: "tableHintInfos b2 = tableHintInfos b1" by simp
  show ?thesis using i l h1 h2 by (auto simp: buildAggregation_def Let_def split: sum.splits)
qed

lemma rewriteConds_hints:
  "keepsHints C \<Longrightarrow> tableHintInfos (snd (rewriteConds C m conds p acc b)) = tableHintInfos b"
  by (induction conds arbitrary: p acc b) (auto split: prod.splits sum.splits dest: rewrite_hints)

lemma buildSelection_hints:
  "keepsHints C \<Longrightarrow> tableHintInfos (snd (buildSelection C p w m b)) = tableHintInfos b"
proof -
  assume k: "keepsHints C"
  obtain sid b1 where i: "init_id ''Selection'' (setFlags {flagPredicatePushDown} b) = (sid, b1)"
    by (cases "init_id ''Selection'' (setFlags {flagPredicatePushDown} b)")
  from init_id_hints' [OF i] have h1: "tableHintInfos b1 = tableHintInfos b" by simp
  obtain r b2 where l: "rewriteConds C m (splitWhere w) p [] b1 = (r, b2)"
    by (cases "rewriteConds C m (splitWhere w) p [] b1")
  with rewriteConds_hints [OF k, of m "splitWhere w" p "[]" b1] have h2: "tableHintInfos b2 = tableHintInfos b1" by simp
  show ?thesis using i l h1 h2 by (auto simp: buildSelection_def split: sum.splits)
qed

lemma rewriteByItems_hints:
  "keepsHints C \<Longrightarrow> tableHintInfos (snd (rewriteByItems C m items p acc b)) = tableHintInfos b"
  by (induction items arbitrary: p acc b) (auto split: prod.splits sum.splits dest: rewrite_hints)

lemma buildSort_hints:
  "keepsHints C \<Longrightarrow> tableHintInfos (snd (buildSort C p items m b)) = tableHintInfos b"
proof -
  assume k: "keepsHints C"
  obtain sid b1 where i: "init_id ''Sort'' b = (sid, b1)" by (cases "init_id ''Sort'' b")
  from init_id_hints' [OF i] have h1: "tableHintInfos b1 = tableHintInfos b" by simp
  obtain r b2 where l: "rewriteByItems C m items p [] b1 = (r, b2)"
    by (cases "rewriteByItems C m items p [] b1")
  with rewriteByItems_hints [OF k, of m items p "[]" b1] have h2: "tableHintInfos b2 = tableHintInfos b1" by simp
  show ?thesis using i l h1 h2 by (auto simp: buildSort_def split: sum.splits)
qed

lemma buildDistinct_hints [simp]: "tableHintInfos (snd (buildDistinct p n b)) = tableHintInfos b"
  by (auto simp: buildDistinct_def Let_def split: prod.splits dest: init_id_hints')

lemma buildTableDual_hints [simp]: "tableHintInfos (snd (buildTableDual b)) = tableHintInfos b"
  by (auto simp: buildTableDual_def split: prod.splits dest: init_id_hints')

lemma projLoop_hints:
  "keepsHints C \<Longrightarrow> tableHintInfos (snd (projLoop C pid m flds p exprs cols n b)) = tableHintInfos b"
  by (induction flds arbitrary: p exprs cols n b)
     (auto split: prod.splits sum.splits option.splits res.splits dest: rewrite_hints)

lemma buildProjection_hints:
  "keepsHints C \<Longrightarrow> tableHintInfos (snd (buildProjection C p flds m b)) = tableHintInfos b"
proof -
  assume k: "keepsHints C"
  obtain pid b1 where i: "init_id ''Projection'' (setFlags {flagEliminateProjection} b) = (pid, b1)"
    by (cases "init_id ''Projection'' (setFlags {flagEliminateProjection} b)")
  from init_id_hints' [OF i] have h1: "tableHintInfos b1 = tableHintInfos b" by simp
  obtain r b2 where l: "projLoop C pid m flds p [] [] 0 b1 = (r, b2)"
    by (cases "projLoop C pid m flds p [] [] 0 b1")
  with projLoop_hints [OF k, of pid m flds p "[]" "[]" 0 b1] have h2: "tableHintInfos b2 = tableHintInfos b1" by simp
  show ?thesis using i l h1 h2 by (auto simp: buildProjection_def split: sum.splits res.splits)
qed

lemma unfoldWildStar_loop_hints:
  "tableHintInfos (snd (unfoldWildStar_loop sch flds i acc b)) = tableHintInfos b"
  by (induction flds arbitrary: i acc) (auto split: option.splits)

lemma unfoldWildStar_hints [simp]: "tableHintInfos (snd (unfoldWildStar p flds b)) = tableHintInfos b"
  by (simp add: unfoldWildStar_def unfoldWildStar_loop_hints)

lemma gbyLoop_hints:
  "keepsHints C \<Longrightarrow> tableHintInfos (snd (gbyLoop C g items p exprs dn b)) = tableHintInfos b"
proof (induction items arbitrary: g p exprs dn b)
  case Nil
  then show ?case by simp
next
  case (Cons item items)
  show ?case
    using Cons.IH [OF Cons.prems]
    by (auto split: prod.splits sum.splits option.splits visit.splits dest: rewrite_hints [OF Cons.prems])
qed

lemma resolveGbyExprs_hints:
  "keepsHints C \<Longrightarrow> tableHintInfos (snd (resolveGbyExprs C p gby flds b)) = tableHintInfos b"
  by (simp add: resolveGbyExprs_def gbyLoop_hints)

lemma resolveHavingAndOrderBy_hints [simp]:
  "tableHintInfos (snd (resolveHavingAndOrderBy C h ob gby flds p b)) = tableHintInfos b"
  by (auto simp: resolveHavingAndOrderBy_def Let_def split: prod.splits visit.splits res.splits sum.splits option.splits)

lemma buildDataSource_hints [simp]: "tableHintInfos (snd (buildDataSource C tn b)) = tableHintInfos b"
  by (auto simp: buildDataSource_def Let_def split: sum.splits prod.splits option.splits dest: init_id_hints')

lemma tableSourceRest_hints [simp]: "tableHintInfos (snd (tableSourceRest a p b)) = tableHintInfos b"
  by (auto simp: tableSourceRest_def Let_def split: option.splits)

lemma buildJoinRest_hints:
  assumes k: "keepsHints C"
  shows "tableHintInfos (snd (buildJoinRest C tp natural using onExpr l r b)) = tableHintInfos b"
  by (auto simp: buildJoinRest_def Let_def
      split: res.splits option.splits prod.splits sum.splits
      dest!: init_id_hints' rewrite_hints [OF k])

lemma wrapBranch_hints [simp]: "tableHintInfos (snd (wrapBranch sel b)) = tableHintInfos b"
  by (auto simp: wrapBranch_def split: Payload.splits prod.splits dest: init_id_hints')

lemma unionLoop_hints: "tableHintInfos (snd (unionLoop C ps firstCols dn b)) = tableHintInfos b"
proof (induction C ps firstCols dn b rule: unionLoop.induct)
  case (3 C sel rest firstCols dn b)
  obtain s b1 where w: "wrapBranch sel b = (s, b1)" by (cases "wrapBranch sel b")
  with wrapBranch_hints [of sel b] have "tableHintInfos b1 = tableHintInfos b" by simp
  with 3 w show ?case by auto
qed simp_all

lemma unionTail_hints:
  "keepsHints C \<Longrightarrow> tableHintInfos (snd (unionTail C u dist ob lim b)) = tableHintInfos b"
proof -
  assume k: "keepsHints C"
  obtain p1 b1 where d: "(if dist then buildDistinct u (Len (schema u)) b else (u, b)) = (p1, b1)"
    by (cases "if dist then buildDistinct u (Len (schema u)) b else (u, b)")
  have h1: "tableHintInfos b1 = tableHintInfos b"
    using d by (cases dist) (auto dest: arg_cong [where f = "\<lambda>x. tableHintInfos (snd x)"])
  obtain p2 b2 where s: "(case ob of None \<Rightarrow> (Some p1, b1) | Some items \<Rightarrow> buildSort C p1 items [] b1) = (p2, b2)"
    by (cases "case ob of None \<Rightarrow> (Some p1, b1) | Some items \<Rightarrow> buildSort C p1 items [] b1")
  have h2: "tableHintInfos b2 = tableHintInfos b1"
  proof (cases ob)
    case None
    with s show ?thesis by simp
  next
    case (Some items)
    with s buildSort_hints [OF k, of p1 items "[]" b1] show ?thesis by simp
  qed
  show ?thesis
    unfolding unionTail_def d prod.case s using h1 h2 by (simp split: option.splits)
qed

lemma buildUnionRest_hints:
  "keepsHints C \<Longrightarrow> tableHintInfos (snd (buildUnionRest C uid branches dist ob lim b)) = tableHintInfos b"
proof -
  assume k: "keepsHints C"
  show ?thesis
  proof (cases branches)
    case Nil
    then show ?thesis by (simp add: buildUnionRest_def)
  next
    case (Cons x rest)
    show ?thesis
    proof (cases x)
      case None
      with Cons show ?thesis by (simp add: buildUnionRest_def)
    next
      case (Some first)
      obtain r b1 where l: "unionLoop C (Some first # rest) (Columns (Clone (schema first))) [] b = (r, b1)"
        by (cases "unionLoop C (Some first # rest) (Columns (Clone (schema first))) [] b")
      with unionLoop_hints [of C "Some first # rest" "Columns (Clone (schema first))" "[]" b]
      have h: "tableHintInfos b1 = tableHintInfos b" by simp
      show ?thesis
        unfolding buildUnionRest_def Cons Some list.case option.case l prod.case
        using h unionTail_hints [OF k] by (simp split: res.splits option.splits prod.splits)
    qed
  qed
qed

lemma bail_hints:
  assumes "tableHintInfos (snd r) = H"
    and "\<And>q b. tableHintInfos b = H \<Longrightarrow> tableHintInfos (snd (k q b)) = H"
  shows "tableHintInfos (snd (bail r k)) = H"
  using assms by (cases r) (auto simp: bail_def split: option.splits)

lemma selectTail_hints [simp]: "tableHintInfos (snd (selectTail lock n p b)) = tableHintInfos b"
  by (auto simp: selectTail_def Let_def split: prod.splits dest: init_id_hints')

lemma selectLimit_hints [simp]: "tableHintInfos (snd (selectLimit C sel n p b)) = tableHintInfos b"
proof (cases "selLimit sel")
  case None
  then show ?thesis by (simp add: selectLimit_def)
next
  case (Some l)
  obtain r b1 where bl: "buildLimit (StrToUint C) (Some p) l b = (r, b1)"
    by (cases "buildLimit (StrToUint C) (Some p) l b")
  with buildLimit_hints [of "StrToUint C" "Some p" l b] have h: "tableHintInfos b1 = tableHintInfos b" by simp
  show ?thesis
  proof (cases r)
    case Panic
    with Some bl h show ?thesis by (simp add: selectLimit_def)
  next
    case (Val q)
    have "tableHintInfos (snd (bail (q, b1) (selectTail (LockTp sel) n))) = tableHintInfos b"
      by (rule bail_hints) (simp_all add: h)
    with Some bl Val show ?thesis by (simp add: selectLimit_def)
  qed
qed

lemma selectSort_hints:
  assumes k: "keepsHints C"
  shows "tableHintInfos (snd (selectSort C sel R n p b)) = tableHintInfos b"
proof (cases "resOrderBy R")
  case None
  then show ?thesis by (simp add: selectSort_def)
next
  case (Some items)
  have "tableHintInfos (snd (bail (buildSort C p items (orderMap R) b) (selectLimit C sel n))) = tableHintInfos b"
    by (rule bail_hints) (simp_all add: buildSort_hints [OF k])
  with Some show ?thesis by (simp add: selectSort_def)
qed

lemma selectDistinct_hints:
  assumes k: "keepsHints C"
  shows "tableHintInfos (snd (selectDistinct C sel R n p b)) = tableHintInfos b"
proof (cases "Distinct sel")
  case False
  then show ?thesis by (simp add: selectDistinct_def selectSort_hints [OF k])
next
  case True
  obtain q b1 where d: "buildDistinct p n b = (q, b1)" by (cases "buildDistinct p n b")
  with buildDistinct_hints [of p n b] have h: "tableHintInfos b1 = tableHintInfos b" by simp
  have "tableHintInfos (snd (bail (Some q, b1) (selectSort C sel R n))) = tableHintInfos b"
    by (rule bail_hints) (simp_all add: h selectSort_hints [OF k])
  with True d show ?thesis by (simp add: selectDistinct_def)
qed

lemma selectHaving_hints:
  assumes k: "keepsHints C"
  shows "tableHintInfos (snd (selectHaving C sel R n p b)) = tableHintInfos b"
proof (cases "resHaving R")
  case None
  then show ?thesis by (simp add: selectHaving_def selectDistinct_hints [OF k])
next
  case (Some h)
  have "tableHintInfos (snd (bail (buildSelection C p h (havingMap R) b) (selectDistinct C sel R n))) = tableHintInfos b"
    by (rule bail_hints) (simp_all add: buildSelection_hints [OF k] selectDistinct_hints [OF k])
  with Some show ?thesis by (simp add: selectHaving_def)
qed

lemma selectProjection_hints:
  assumes k: "keepsHints C"
  shows "tableHintInfos (snd (selectProjection C sel R m p b)) = tableHintInfos b"
proof -
  obtain r b1 where bp: "buildProjection C p (resFields R) m b = (r, b1)"
    by (cases "buildProjection C p (resFields R) m b")
  with buildProjection_hints [OF k, of p "resFields R" m b] have h: "tableHintInfos b1 = tableHintInfos b" by simp
  show ?thesis
  proof (cases r)
    case Panic
    with bp h show ?thesis by (simp add: selectProjection_def)
  next
    case (Val x)
    obtain q n where x: "x = (q, n)" by (cases x)
    have "tableHintInfos (snd (bail (q, b1) (selectHaving C sel R n))) = tableHintInfos b"
      by (rule bail_hints) (simp_all add: h selectHaving_hints [OF k])
    with bp Val x show ?thesis by (simp add: selectProjection_def)
  qed
qed

lemma selectAgg_hints:
  assumes k: "keepsHints C"
  shows "tableHintInfos (snd (selectAgg C sel R hasAgg g p b)) = tableHintInfos b"
proof (cases hasAgg)
  case False
  then show ?thesis by (simp add: selectAgg_def selectProjection_hints [OF k])
next
  case True
  show ?thesis
  proof (cases "extractAggFuncs (resFields R)")
    case Panic
    with True show ?thesis by (simp add: selectAgg_def)
  next
    case (Val x)
    obtain fs tm where x: "x = (fs, tm)" by (cases x)
    obtain q im b1 where ba: "buildAggregation C p fs g b = ((q, im), b1)"
      by (cases "buildAggregation C p fs g b") auto
    with buildAggregation_hints [OF k, of p fs g b] have h: "tableHintInfos b1 = tableHintInfos b" by simp
    have "tableHintInfos (snd (bail (q, b1)
             (selectProjection C sel R (map (\<lambda>(k, v). (k, aggIndex im v)) tm)))) = tableHintInfos b"
      by (rule bail_hints) (simp_all add: h selectProjection_hints [OF k])
    with True Val x ba show ?thesis by (simp add: selectAgg_def)
  qed
qed

lemma selectLock_hints:
  assumes k: "keepsHints C"
  shows "tableHintInfos (snd (selectLock C sel R hasAgg g p b)) = tableHintInfos b"
proof (cases "LockTp sel \<noteq> SelectLockNone")
  case False
  then show ?thesis by (simp add: selectLock_def selectAgg_hints [OF k])
next
  case True
  obtain q b1 where l: "buildSelectLock C p (LockTp sel) b = (q, b1)"
    by (cases "buildSelectLock C p (LockTp sel) b")
  from lock_hints [OF k l] True l show ?thesis by (simp add: selectLock_def selectAgg_hints [OF k])
qed

lemma selectWhere_hints:
  assumes k: "keepsHints C"
  shows "tableHintInfos (snd (selectWhere C sel R hasAgg g p b)) = tableHintInfos b"
proof (cases "Where sel")
  case None
  then show ?thesis by (simp add: selectWhere_def selectLock_hints [OF k])
next
  case (Some w)
  have "tableHintInfos (snd (bail (buildSelection C p w [] b) (selectLock C sel R hasAgg g))) = tableHintInfos b"
    by (rule bail_hints) (simp_all add: buildSelection_hints [OF k] selectLock_hints [OF k])
  with Some show ?thesis by (simp add: selectWhere_def)
qed

lemma selectResolve_hints:
  assumes k: "keepsHints C"
  shows "tableHintInfos (snd (selectResolve C sel hasAgg flds g gby p b)) = tableHintInfos b"
proof -
  obtain r b1 where rs: "resolveHavingAndOrderBy C (Having sel) (OrderBy sel) gby flds p b = (r, b1)"
    by (cases "resolveHavingAndOrderBy C (Having sel) (OrderBy sel) gby flds p b")
  with resolveHavingAndOrderBy_hints [of C "Having sel" "OrderBy sel" gby flds p b]
  have h: "tableHintInfos b1 = tableHintInfos b" by simp
  show ?thesis using rs h by (cases r) (simp_all add: selectResolve_def selectWhere_hints [OF k])
qed

lemma selectGroupBy_hints:
  assumes k: "keepsHints C"
  shows "tableHintInfos (snd (selectGroupBy C sel hasAgg flds p b)) = tableHintInfos b"
proof (cases "GroupBy sel")
  case None
  then show ?thesis by (simp add: selectGroupBy_def selectResolve_hints [OF k])
next
  case (Some items)
  obtain r b1 where rs: "resolveGbyExprs C p items flds b = (r, b1)"
    by (cases "resolveGbyExprs C p items flds b")
  with resolveGbyExprs_hints [OF k, of p items flds b] have h: "tableHintInfos b1 = tableHintInfos b" by simp
  show ?thesis using Some rs h
    by (cases r) (auto simp: selectGroupBy_def selectResolve_hints [OF k] split: option.splits)
qed

lemma buildSelectRest_hints:
  assumes k: "keepsHints C"
  shows "tableHintInfos (snd (buildSelectRest C sel hasAgg p b)) = tableHintInfos b"
proof -
  obtain flds b1 where u: "unfoldWildStar p (Fields sel) b = (flds, b1)"
    by (cases "unfoldWildStar p (Fields sel) b")
  with unfoldWildStar_hints [of p "Fields sel" b] have h: "tableHintInfos b1 = tableHintInfos b" by simp
  show ?thesis using u h by (simp add: buildSelectRest_def selectGroupBy_hints [OF k])
qed

lemma pushTableHints_frame:
  "pushTableHints hs b = (pushed, b1) \<Longrightarrow>
     (pushed \<longrightarrow> (\<exists>f. tableHintInfos b1 = tableHintInfos b @ [f])) \<and> (\<not> pushed \<longrightarrow> b1 = b)"
  by (auto simp: pushTableHints_def split: prod.splits if_splits)

lemma pop_after_push:
  "tableHintInfos b4 = tableHintInfos b @ [f] \<Longrightarrow>
     \<exists>b5. popTableHints b4 = Some b5 \<and> tableHintInfos b5 = tableHintInfos b"
  by (simp add: popTableHints_def)

lemma build_hints:
  assumes k: "keepsHints C"
  shows "tableHintInfos (snd (buildResultSetNode C n b)) = tableHintInfos b"
    and "tableHintInfos (snd (buildSource C src b)) = tableHintInfos b"
    and "tableHintInfos (snd (buildSelect C sel b)) = tableHintInfos b"
    and "tableHintInfos (snd (buildUnion C u b)) = tableHintInfos b"
    and "tableHintInfos (snd (buildSelects C sels b)) = tableHintInfos b"
  using k
proof (induction C n b and C src b and C sel b and C u b and C sels b
    rule: buildResultSetNode_buildSource_buildSelect_buildUnion_buildSelects.induct)
  case (1 C l tp natural usng onExpr b)
  then show ?case by simp
next
  case (2 C l r tp natural usng onExpr b)
  obtain r1 b1 where l: "buildResultSetNode C l (setFlags {flagPredicatePushDown} b) = (r1, b1)"
    by (cases "buildResultSetNode C l (setFlags {flagPredicatePushDown} b)")
  from "2.IH"(1) [OF "2.prems"] l have h1: "tableHintInfos b1 = tableHintInfos b" by simp
  show ?case
  proof (cases r1)
    case Panic
    with l h1 show ?thesis by simp
  next
    case (Val lp)
    obtain r2 b2 where r: "buildResultSetNode C r b1 = (r2, b2)" by (cases "buildResultSetNode C r b1")
    from "2.IH"(2) [OF l [symmetric] Val "2.prems"] r have h2: "tableHintInfos b2 = tableHintInfos b1" by simp
    show ?thesis using l Val r h1 h2 buildJoinRest_hints [OF "2.prems"]
      by (cases r2) simp_all
  qed
next
  case (3 C src asName b)
  obtain r1 b1 where s: "buildSource C src b = (r1, b1)" by (cases "buildSource C src b")
  from "3.IH" [OF "3.prems"] s have h1: "tableHintInfos b1 = tableHintInfos b" by simp
  show ?case using s h1 by (cases r1) simp_all
next
  case (4 C sel b)
  then show ?case by simp
next
  case (5 C u b)
  then show ?case by simp
next
  case (6 C k b)
  then show ?case by simp
next
  case (7 C sel b)
  then show ?case by simp
next
  case (8 C u b)
  then show ?case by simp
next
  case (9 C tn b)
  obtain p b1 where d: "buildDataSource C tn b = (p, b1)" by (cases "buildDataSource C tn b")
  with buildDataSource_hints [of C tn b] have "tableHintInfos b1 = tableHintInfos b" by simp
  with d show ?case by simp
next
  case (10 C k b)
  then show ?case by simp
next
  case (11 C hints lock frm flds gby having whr dist ob lim b)
  let ?sel = "SelectStmt hints lock frm flds gby having whr dist ob lim"
  obtain pushed b1 where p: "(case hints of None \<Rightarrow> (False, b) | Some hs \<Rightarrow> pushTableHints hs b) = (pushed, b1)"
    by (cases "case hints of None \<Rightarrow> (False, b) | Some hs \<Rightarrow> pushTableHints hs b")
  have frame: "(pushed \<longrightarrow> (\<exists>f. tableHintInfos b1 = tableHintInfos b @ [f])) \<and> (\<not> pushed \<longrightarrow> b1 = b)"
  proof (cases hints)
    case None
    with p show ?thesis by simp
  next
    case (Some hs)
    with p pushTableHints_frame [of hs b pushed b1] show ?thesis by simp
  qed
  let ?b2 = "if lock = SelectLockForUpdate then b1\<lparr>needColHandle := needColHandle b1 + 1\<rparr> else b1"
  have h2: "tableHintInfos ?b2 = tableHintInfos b1" by simp
  let ?src = "case frm of
                Some n \<Rightarrow> buildResultSetNode C n ?b2
              | None \<Rightarrow> (case buildTableDual ?b2 of (d, b3) \<Rightarrow> (Val (Some d), b3))"
  obtain r3 b3 where s: "?src = (r3, b3)" by (cases ?src)
  have h3: "tableHintInfos b3 = tableHintInfos b1"
  proof (cases frm)
    case None
    obtain d bd where t: "buildTableDual ?b2 = (d, bd)" by (cases "buildTableDual ?b2")
    with buildTableDual_hints [of ?b2] have "tableHintInfos bd = tableHintInfos b1" by simp
    with s None t show ?thesis by simp
  next
    case (Some n)
    from "11.IH" [OF p [symmetric] Some "11.prems"] s Some show ?thesis by simp
  qed
  let ?body = "case (r3, b3) of
                 (Panic, b3) \<Rightarrow> (Panic, b3)
               | (Val p, b3) \<Rightarrow>
                   if err b3 \<noteq> None then (Val None, b3)
                   else (case p of None \<Rightarrow> (Panic, b3)
                         | Some q \<Rightarrow> buildSelectRest C ?sel (detectSelectAgg C ?sel) q b3)"
  obtain r4 b4 where bd: "?body = (r4, b4)" by (cases ?body)
  have h4: "tableHintInfos b4 = tableHintInfos b1"
    using bd h3 by (auto split: res.splits if_splits option.splits
        dest: arg_cong [where f = "\<lambda>x. tableHintInfos (snd x)"]
        simp: buildSelectRest_hints [OF "11.prems"])
  have run: "buildSelect C ?sel b =
               (if pushed then (case popTableHints b4 of None \<Rightarrow> (Panic, b4) | Some b5 \<Rightarrow> (r4, b5))
                else (r4, b4))"
    unfolding buildSelect.simps p prod.case s bd [unfolded prod.case] ..
  show ?case
  proof (cases pushed)
    case False
    with run frame h4 show ?thesis by simp
  next
    case True
    with frame h4 obtain f where "tableHintInfos b4 = tableHintInfos b @ [f]" by auto
    from pop_after_push [OF this] obtain b5 where "popTableHints b4 = Some b5" "tableHintInfos b5 = tableHintInfos b"
      by blast
    with run True show ?thesis by simp
  qed
next
  case (12 C sels dist ob lim b)
  obtain uid b1 where i: "init_id ''Union'' b = (uid, b1)" by (cases "init_id ''Union'' b")
  from init_id_hints' [OF i] have h1: "tableHintInfos b1 = tableHintInfos b" .
  obtain r2 b2 where s: "buildSelects C sels b1 = (r2, b2)" by (cases "buildSelects C sels b1")
  from "12.IH" [OF i [symmetric] "12.prems"] s have h2: "tableHintInfos b2 = tableHintInfos b1" by simp
  show ?case using i s h1 h2 buildUnionRest_hints [OF "12.prems"]
    by (auto split: res.splits option.splits)
next
  case (13 C b)
  then show ?case by simp
next
  case (14 C sel sels b)
  obtain r1 b1 where s: "buildSelect C sel b = (r1, b1)" by (cases "buildSelect C sel b")
  from "14.IH"(1) [OF "14.prems"] s have h1: "tableHintInfos b1 = tableHintInfos b" by simp
  show ?case
  proof (cases r1)
    case Panic
    with s h1 show ?thesis by simp
  next
    case (Val p)
    show ?thesis
    proof (cases "err b1 \<noteq> None")
      case True
      with s Val h1 show ?thesis by simp
    next
      case False
      obtain r2 b2 where t: "buildSelects C sels b1 = (r2, b2)" by (cases "buildSelects C sels b1")
      from "14.IH"(2) [OF s [symmetric] Val False "14.prems"] t have h2: "tableHintInfos b2 = tableHintInfos b1" by simp
      show ?thesis using s Val False t h1 h2 by (auto split: res.splits option.splits)
    qed
  qed
qed

lemma collectHints_nonempty:
  "collectHints hs sm inl = (sm', inl') \<Longrightarrow>
     (sm' \<noteq> [] \<or> inl' \<noteq> []) =
       (sm \<noteq> [] \<or> inl \<noteq> [] \<or> (\<exists>h\<in>set hs. recognizedHint h \<and> Tables h \<noteq> []))"
proof (induction hs arbitrary: sm inl)
  case Nil
  then show ?case by auto
next
  case (Cons h hs)
  show ?case
  proof (cases "strL (HintName h) = TiDBMergeJoin")
    case True
    with Cons.prems have "collectHints hs (sm @ Tables h) inl = (sm', inl')" by simp
    from Cons.IH [OF this] True show ?thesis by (auto simp: recognizedHint_def)
  next
    case False
    show ?thesis
    proof (cases "strL (HintName h) = TiDBIndexNestedLoopJoin")
      case True
      with False Cons.prems have "collectHints hs sm (inl @ Tables h) = (sm', inl')" by simp
      from Cons.IH [OF this] True show ?thesis by (auto simp: recognizedHint_def)
    next
      case n: False
      with False Cons.prems have "collectHints hs sm inl = (sm', inl')" by simp
      from Cons.IH [OF this] False n show ?thesis by (auto simp: recognizedHint_def)
    qed
  qed
qed

lemma pushTableHints_recognized:
  "fst (pushTableHints hs b) = (\<exists>h\<in>set hs. recognizedHint h \<and> Tables h \<noteq> [])"
proof -
  obtain sm inl where c: "collectHints hs [] [] = (sm, inl)" by (cases "collectHints hs [] []")
  from collectHints_nonempty [OF c] c show ?thesis by (simp add: pushTableHints_def)
qed

lemma pushTableHints_depth:
  "length (tableHintInfos (snd (pushTableHints hs b)))
     = length (tableHintInfos b) + (if fst (pushTableHints hs b) then 1 else 0)"
  by (simp add: pushTableHints_def split: prod.splits)

text \<open>
  C8. When the collaborators leave the stack of table hints as it is, buildSelect returns with
  the stack it was entered with, and so do buildResultSetNode and buildUnion with the SELECTs
  nested in them. pushTableHints pushes a frame exactly when the statement carries a recognized
  hint that names a table, which is one frame more on the stack, and the pop that buildSelect
  defers in that case restores the stack.
\<close>

theorem buildSelect_hint_stack:
  "(keepsHints C \<longrightarrow>
      tableHintInfos (snd (buildSelect C sel b)) = tableHintInfos b
      \<and> tableHintInfos (snd (buildResultSetNode C n b)) = tableHintInfos b
      \<and> tableHintInfos (snd (buildUnion C u b)) = tableHintInfos b)
   \<and> (fst (pushTableHints hs b) \<longleftrightarrow> (\<exists>h\<in>set hs. recognizedHint h \<and> Tables h \<noteq> []))
   \<and> length (tableHintInfos (snd (pushTableHints hs b)))
        = length (tableHintInfos b) + (if fst (pushTableHints hs b) then 1 else 0)
   \<and> (fst (pushTableHints hs b) \<longrightarrow>
        (\<exists>b'. popTableHints (snd (pushTableHints hs b)) = Some b' \<and> tableHintInfos b' = tableHintInfos b))"
proof -
  have pop: "\<exists>b'. popTableHints (snd (pushTableHints hs b)) = Some b' \<and> tableHintInfos b' = tableHintInfos b"
    if "fst (pushTableHints hs b)"
    using that by (auto simp: pushTableHints_def popTableHints_def split: prod.splits if_splits)
  from build_hints(1,3,4) pushTableHints_recognized [of hs b] pushTableHints_depth [of hs b] pop
  show ?thesis by blast
qed

theorem buildSelect_hint_stack_witness:
  "keepsHints collab0
   \<and> fst (pushTableHints smjHints builder0)
   \<and> length (tableHintInfos (snd (pushTableHints smjHints builder0))) = 1
   \<and> fst (buildSelect collab0 selHint builder0) \<noteq> Panic
   \<and> tableHintInfos (snd (buildSelect collab0 selHint builder0)) = []"
proof -
  have k: "keepsHints collab0"
    by (simp add: keepsHints_def collab0_def rewrite0_def buildSelectLock0_def init_id_def allocID_def
        split: ExprNode.splits option.splits)
  have r: "\<exists>h\<in>set smjHints. recognizedHint h \<and> Tables h \<noteq> []"
    by (simp add: smjHints_def recognizedHint_def TiDBMergeJoin_def NewCIStr_def lower_char_def)
  note T = buildSelect_hint_stack [of collab0 selHint builder0 _ _ smjHints]
  from T r have p: "fst (pushTableHints smjHints builder0)" by blast
  from T p have d: "length (tableHintInfos (snd (pushTableHints smjHints builder0))) = 1"
    by (simp add: builder0_def)
  from T k have s: "tableHintInfos (snd (buildSelect collab0 selHint builder0)) = []"
    by (simp add: builder0_def)
  have np: "fst (buildSelect collab0 selHint builder0) \<noteq> Panic"
    by (simp add: selHint_def smjHints_def pushTableHints_def popTableHints_def TiDBMergeJoin_def eval_defs)
  from k p d np s show ?thesis by blast
qed


subsection \<open>The arity of the branches of a UNION\<close>

lemma wrapBranch_err: "err (snd (wrapBranch sel b)) = err b"
  by (auto simp: wrapBranch_def init_id_def allocID_def setFlags_def split: Payload.splits prod.splits)

lemma wrapBranch_len: "length (Columns (schema (fst (wrapBranch sel b)))) = length (Columns (schema sel))"
  by (auto simp: wrapBranch_def Clone_def split: Payload.splits prod.splits)

lemma mergeTypes_len: "length cols = length firstCols \<Longrightarrow> length (mergeTypes C firstCols cols) = length firstCols"
  by (simp add: mergeTypes_def)

lemma unionLoop_equal:
  "length firstCols = n \<Longrightarrow> \<forall>p\<in>set ps. Len (schema p) = n \<Longrightarrow>
     \<exists>fc kids b'. unionLoop C (map Some ps) firstCols dn b = (Val (Some (fc, kids)), b')
        \<and> err b' = err b \<and> length fc = n \<and> length kids = length dn + length ps"
proof (induction ps arbitrary: firstCols dn b)
  case Nil
  then show ?case by simp
next
  case (Cons p ps)
  obtain q b1 where w: "wrapBranch p b = (q, b1)" by (cases "wrapBranch p b")
  from w wrapBranch_err [of p b] have e: "err b1 = err b" by simp
  from w wrapBranch_len [of p b] Cons.prems have l: "length (Columns (schema q)) = n" by (simp add: Len_def)
  from Cons.prems l have m: "length (mergeTypes C firstCols (Columns (schema q))) = n"
    by (simp add: mergeTypes_len)
  from Cons.prems have rest: "\<forall>p\<in>set ps. Len (schema p) = n" by simp
  from Cons.IH [OF m rest, of "dn @ [q]" b1]
  obtain fc kids b' where
    "unionLoop C (map Some ps) (mergeTypes C firstCols (Columns (schema q))) (dn @ [q]) b1 = (Val (Some (fc, kids)), b')"
    "err b' = err b1" "length fc = n" "length kids = length (dn @ [q]) + length ps"
    by blast
  with Cons.prems w e show ?case by simp
qed

lemma unionLoop_mismatch:
  "length firstCols = n \<Longrightarrow> \<exists>p\<in>set ps. Len (schema p) \<noteq> n \<Longrightarrow>
     \<exists>b'. unionLoop C (map Some ps) firstCols dn b = (Val None, b') \<and> err b' = Some ErrUnionColumns"
proof (induction ps arbitrary: firstCols dn b)
  case Nil
  then show ?case by simp
next
  case (Cons p ps)
  show ?case
  proof (cases "Len (schema p) = n")
    case False
    with Cons.prems show ?thesis by simp
  next
    case True
    obtain q b1 where w: "wrapBranch p b = (q, b1)" by (cases "wrapBranch p b")
    from w wrapBranch_len [of p b] True have l: "length (Columns (schema q)) = n" by (simp add: Len_def)
    from Cons.prems l have m: "length (mergeTypes C firstCols (Columns (schema q))) = n"
      by (simp add: mergeTypes_len)
    from Cons.prems True have rest: "\<exists>p\<in>set ps. Len (schema p) \<noteq> n" by simp
    from Cons.IH [OF m rest, of "dn @ [q]" b1] Cons.prems True w show ?thesis by simp
  qed
qed

lemma buildSelects_ok:
  "buildSelects C sels b = (Val (Some bs), b2) \<Longrightarrow> sels \<noteq> [] \<Longrightarrow> err b2 = None \<and> length bs = length sels"
proof (induction sels arbitrary: b bs b2)
  case Nil
  then show ?case by simp
next
  case (Cons sel sels)
  obtain r1 b1 where s: "buildSelect C sel b = (r1, b1)" by (cases "buildSelect C sel b")
  from Cons.prems(1) s obtain p where p: "r1 = Val p" and e: "err b1 = None"
    by (cases r1) (auto split: if_splits)
  obtain r2 b2' where t: "buildSelects C sels b1 = (r2, b2')" by (cases "buildSelects C sels b1")
  from Cons.prems(1) s p e t obtain ps where r2: "r2 = Val (Some ps)" and bs: "bs = p # ps" and b2: "b2' = b2"
    by (auto split: res.splits option.splits)
  show ?case
  proof (cases sels)
    case Nil
    with t r2 b2 e bs show ?thesis by simp
  next
    case (Cons x xs)
    with Cons.IH [of b1 ps b2] t r2 b2 bs show ?thesis by simp
  qed
qed

lemma unionTail_plain:
  "unionTail C u dist None None b = (Val (Some (fst (if dist then buildDistinct u (Len (schema u)) b else (u, b)))),
     snd (if dist then buildDistinct u (Len (schema u)) b else (u, b)))"
  by (simp add: unionTail_def split: prod.splits)

lemma buildDistinct_err: "err (snd (buildDistinct p n b)) = err b"
  by (auto simp: buildDistinct_def init_id_def allocID_def setFlags_def Let_def split: prod.splits)

text \<open>
  C5. For a UNION whose branches all build to a plan: if the schema of some branch differs in
  length from that of the first branch, buildUnion returns no plan and sets the error of the
  different number of columns; if all lengths are equal, the loop over the branches sets no
  error and buildUnion goes on to DISTINCT, ORDER BY and LIMIT over a union node of that many
  columns with one child per branch, and without ORDER BY and LIMIT it returns a plan and no
  error.
\<close>

theorem buildUnion_arity:
  assumes built: "branchesBuilt C sels b"
  shows "((\<exists>n\<in>set (arities C sels b). n \<noteq> hd (arities C sels b)) \<longrightarrow>
            fst (buildUnion C (UnionStmt sels dist ob lim) b) = Val None
            \<and> err (snd (buildUnion C (UnionStmt sels dist ob lim) b)) = Some ErrUnionColumns)
       \<and> ((\<forall>n\<in>set (arities C sels b). n = hd (arities C sels b)) \<longrightarrow>
            (\<exists>u b3. buildUnion C (UnionStmt sels dist ob lim) b = unionTail C u dist ob lim b3
               \<and> err b3 = None \<and> payload u = UnionP \<and> length (children u) = length sels
               \<and> Len (schema u) = hd (arities C sels b))
            \<and> (ob = None \<and> lim = None \<longrightarrow>
                 (\<exists>p. fst (buildUnion C (UnionStmt sels dist ob lim) b) = Val (Some p))
                 \<and> err (snd (buildUnion C (UnionStmt sels dist ob lim) b)) = None))"
proof -
  obtain uid b1 where i: "init_id ''Union'' b = (uid, b1)" by (cases "init_id ''Union'' b")
  obtain r b2 where s: "buildSelects C sels b1 = (r, b2)" by (cases "buildSelects C sels b1")
  from built i s obtain bs where r: "r = Val (Some bs)" and ne: "bs \<noteq> []" and all: "list_all (\<lambda>p. p \<noteq> None) bs"
    by (auto simp: branchesBuilt_def split: res.splits option.splits)
  from all obtain ps where bs: "bs = map Some ps"
  proof -
    have "bs = map Some (map the bs)" using all by (induction bs) auto
    then show ?thesis using that by blast
  qed
  from ne bs obtain first rest where ps: "ps = first # rest" by (cases ps) auto
  have sels_ne: "sels \<noteq> []" using s r ne by (cases sels) auto
  from buildSelects_ok [OF s [unfolded r] sels_ne] have e2: "err b2 = None" and len: "length bs = length sels"
    by simp_all
  have ar: "arities C sels b = map (\<lambda>p. Len (schema p)) ps"
    using i s r bs by (simp add: arities_def builtBranches_def comp_def)
  have hd: "hd (arities C sels b) = Len (schema first)" using ar ps by simp
  have run: "buildUnion C (UnionStmt sels dist ob lim) b = buildUnionRest C uid (map Some ps) dist ob lim b2"
    using i s r bs by simp
  have fc: "length (Columns (Clone (schema first))) = Len (schema first)" by (simp add: Clone_def Len_def)
  have mismatch: "fst (buildUnion C (UnionStmt sels dist ob lim) b) = Val None
            \<and> err (snd (buildUnion C (UnionStmt sels dist ob lim) b)) = Some ErrUnionColumns"
    if "\<exists>n\<in>set (arities C sels b). n \<noteq> hd (arities C sels b)"
  proof -
    from that ar hd have "\<exists>p\<in>set ps. Len (schema p) \<noteq> Len (schema first)" by auto
    from unionLoop_mismatch [OF fc this, of C "[]" b2]
    obtain b' where "unionLoop C (map Some ps) (Columns (Clone (schema first))) [] b2 = (Val None, b')"
      "err b' = Some ErrUnionColumns" by blast
    then show ?thesis unfolding run ps by (simp add: buildUnionRest_def del: unionLoop.simps)
  qed
  have equal: "\<exists>u b3. buildUnion C (UnionStmt sels dist ob lim) b = unionTail C u dist ob lim b3
               \<and> err b3 = None \<and> payload u = UnionP \<and> length (children u) = length sels
               \<and> Len (schema u) = hd (arities C sels b)"
    if "\<forall>n\<in>set (arities C sels b). n = hd (arities C sels b)"
  proof -
    from that ar hd have "\<forall>p\<in>set ps. Len (schema p) = Len (schema first)" by auto
    from unionLoop_equal [OF fc this, of C "[]" b2]
    obtain cols kids b' where l: "unionLoop C (map Some ps) (Columns (Clone (schema first))) [] b2 = (Val (Some (cols, kids)), b')"
      and "err b' = err b2" "length cols = Len (schema first)" "length kids = length ps" by auto
    let ?u = "Plan uid
                ((Clone (schema first))\<lparr>Columns := map (\<lambda>v. v\<lparr>FromID := uid, DBName := NewCIStr []\<rparr>) cols\<rparr>)
                kids UnionP"
    from l have "buildUnion C (UnionStmt sels dist ob lim) b = unionTail C ?u dist ob lim b'"
      unfolding run ps by (simp add: buildUnionRest_def del: unionLoop.simps)
    moreover have "err b' = None" using \<open>err b' = err b2\<close> e2 by simp
    moreover have "payload ?u = UnionP" by simp
    moreover have "length (children ?u) = length sels" using \<open>length kids = length ps\<close> len bs by simp
    moreover have "Len (schema ?u) = hd (arities C sels b)"
      using \<open>length cols = Len (schema first)\<close> hd by (simp add: Len_def)
    ultimately show ?thesis by blast
  qed
  have plain: "(\<exists>p. fst (buildUnion C (UnionStmt sels dist ob lim) b) = Val (Some p))
                 \<and> err (snd (buildUnion C (UnionStmt sels dist ob lim) b)) = None"
    if "\<forall>n\<in>set (arities C sels b). n = hd (arities C sels b)" "ob = None \<and> lim = None"
  proof -
    from equal [OF that(1)] obtain u b3 where
      "buildUnion C (UnionStmt sels dist ob lim) b = unionTail C u dist ob lim b3" "err b3 = None" by blast
    with that(2) show ?thesis by (simp add: unionTail_plain buildDistinct_err)
  qed
  show ?thesis
  proof (intro conjI impI)
    assume "\<exists>n\<in>set (arities C sels b). n \<noteq> hd (arities C sels b)"
    from mismatch [OF this]
    show "fst (buildUnion C (UnionStmt sels dist ob lim) b) = Val None"
      and "err (snd (buildUnion C (UnionStmt sels dist ob lim) b)) = Some ErrUnionColumns" by simp_all
  next
    assume eq: "\<forall>n\<in>set (arities C sels b). n = hd (arities C sels b)"
    from equal [OF eq]
    show "\<exists>u b3. buildUnion C (UnionStmt sels dist ob lim) b = unionTail C u dist ob lim b3
               \<and> err b3 = None \<and> payload u = UnionP \<and> length (children u) = length sels
               \<and> Len (schema u) = hd (arities C sels b)" .
    assume pl: "ob = None \<and> lim = None"
    from plain [OF eq pl]
    show "\<exists>p. fst (buildUnion C (UnionStmt sels dist ob lim) b) = Val (Some p)"
      and "err (snd (buildUnion C (UnionStmt sels dist ob lim) b)) = None" by simp_all
  qed
qed

theorem buildUnion_arity_witness:
  "branchesBuilt collab0 [selA, selAA] builder0
   \<and> arities collab0 [selA, selAA] builder0 = [1, 2]
   \<and> fst (buildUnion collab0 (UnionStmt [selA, selAA] False None None) builder0) = Val None
   \<and> err (snd (buildUnion collab0 (UnionStmt [selA, selAA] False None None) builder0)) = Some ErrUnionColumns
   \<and> branchesBuilt collab0 [selA, selA] builder0
   \<and> arities collab0 [selA, selA] builder0 = [1, 1]
   \<and> err (snd (buildUnion collab0 (UnionStmt [selA, selA] False None None) builder0)) = None"
proof -
  have a: "branchesBuilt collab0 [selA, selAA] builder0 \<and> arities collab0 [selA, selAA] builder0 = [1, 2]"
    by (simp add: branchesBuilt_def arities_def builtBranches_def selA_def selAA_def eval_defs)
  have b: "branchesBuilt collab0 [selA, selA] builder0 \<and> arities collab0 [selA, selA] builder0 = [1, 1]"
    by (simp add: branchesBuilt_def arities_def builtBranches_def selA_def eval_defs)
  from a buildUnion_arity [of collab0 "[selA, selAA]" builder0 False None None]
  have c: "fst (buildUnion collab0 (UnionStmt [selA, selAA] False None None) builder0) = Val None
   \<and> err (snd (buildUnion collab0 (UnionStmt [selA, selAA] False None None) builder0)) = Some ErrUnionColumns"
    by simp
  from b buildUnion_arity [of collab0 "[selA, selA]" builder0 False None None]
  have d: "err (snd (buildUnion collab0 (UnionStmt [selA, selA] False None None) builder0)) = None"
    by simp
  from a b c d show ?thesis by blast
qed

subsection \<open>Errors and the steps after them\<close>

text \<open>
  C4 fails. buildDataSource entered with the error set returns a plan. For \<open>t0 JOIN t1\<close>
  with an unknown table t0, buildJoin builds the right operand after the left one has set the
  error, and then panics on the nil left plan instead of returning nil. For
  \<open>SELECT a FROM t1 WHERE a HAVING zz\<close> the selection of the WHERE clause is built after
  the HAVING clause has set the error, and for \<open>WHERE nosuch HAVING zz\<close> the error of the
  WHERE clause replaces the first one.
\<close>

theorem build_entries_after_error:
  "fst (buildDataSource collab0 t1Name (builder0\<lparr>err := Some ErrUnsupportedType\<rparr>)) \<noteq> None
   \<and> err (snd (buildDataSource collab0 t1Name (builder0\<lparr>err := Some ErrUnsupportedType\<rparr>))) = Some ErrUnsupportedType
   \<and> fst (buildJoin collab0 joinMissing builder0) = Panic
   \<and> err (snd (buildJoin collab0 joinMissing builder0)) = Some (ErrExternal 2)
   \<and> allocator (snd (buildJoin collab0 joinMissing builder0)) = 1
   \<and> fst (buildSelect collab0 selBad builder0) = Val None
   \<and> err (snd (buildSelect collab0 selBad builder0)) = Some (ErrUnknownColumnName ''zz'')
   \<and> allocator (snd (buildSelect collab0 selBad builder0)) = 2
   \<and> optFlag (snd (buildSelect collab0 selBad builder0)) = {flagPredicatePushDown}
   \<and> err (snd (buildSelect collab0 selBad2 builder0)) = Some (ErrExternal 1)"
proof -
  have e1: "fst (buildDataSource collab0 t1Name (builder0\<lparr>err := Some ErrUnsupportedType\<rparr>)) \<noteq> None
     \<and> err (snd (buildDataSource collab0 t1Name (builder0\<lparr>err := Some ErrUnsupportedType\<rparr>))) = Some ErrUnsupportedType"
    by (simp add: eval_defs)
  have e2: "fst (buildJoin collab0 joinMissing builder0) = Panic
     \<and> err (snd (buildJoin collab0 joinMissing builder0)) = Some (ErrExternal 2)
     \<and> allocator (snd (buildJoin collab0 joinMissing builder0)) = 1"
    by (simp add: joinMissing_def buildJoin_def buildJoinRest_def extractTableAlias_def eval_defs)
  have e3: "fst (buildSelect collab0 selBad builder0) = Val None
     \<and> err (snd (buildSelect collab0 selBad builder0)) = Some (ErrUnknownColumnName ''zz'')
     \<and> allocator (snd (buildSelect collab0 selBad builder0)) = 2
     \<and> optFlag (snd (buildSelect collab0 selBad builder0)) = {flagPredicatePushDown}"
    by (simp add: selBad_def eval_defs)
  have e4: "err (snd (buildSelect collab0 selBad2 builder0)) = Some (ErrExternal 1)"
    by (simp add: selBad2_def eval_defs)
  from e1 e2 e3 e4 show ?thesis by blast
qed

end
